(* ===== verification/Prelude.thy ===== *)
theory Prelude
  imports Main "HOL-Library.Word"
begin

section \<open>Shared types, automation and generic lemmas\<close>

text \<open>
  The prelude of the development.  It names the types that every component uses (byte
  strings, instants, durations, fallible results), declares the collections of facts the
  component proofs share, and holds the generic lemmas on lists, options and sums.

  A Go \<open>string\<close> or \<open>[]byte\<close> is a list of bytes, modelled by HOL's \<open>string\<close> (a \<open>char\<close> is
  one byte).  An instant is its number of nanoseconds since the Unix epoch; a
  \<open>time.Duration\<close> is a number of nanoseconds.  A Go function with an \<open>error\<close> result
  returns a sum: \<open>Inl\<close> the error, \<open>Inr\<close> the value.
\<close>

type_synonym bytes = string
type_synonym instant = int
type_synonym duration = int
type_synonym 'v header_map = "string \<Rightarrow> 'v option"

named_theorems handler_defs "definitions unfolded to run a handler symbolically"
named_theorems writer_simps "how each response-writer operation changes each part"

subsection \<open>Results\<close>

definition bindr :: "'e + 'a \<Rightarrow> ('a \<Rightarrow> 'e + 'b) \<Rightarrow> 'e + 'b" where
  "bindr r f = (case r of Inl e \<Rightarrow> Inl e | Inr x \<Rightarrow> f x)"

lemma bindr_simps [simp]:
  "bindr (Inl e) f = Inl e"
  "bindr (Inr x) f = f x"
  by (simp_all add: bindr_def)

lemma bindr_eq_Inr: "bindr r f = Inr y \<longleftrightarrow> (\<exists>x. r = Inr x \<and> f x = Inr y)"
  by (cases r) auto

lemma bindr_eq_Inl: "bindr r f = Inl e \<longleftrightarrow> r = Inl e \<or> (\<exists>x. r = Inr x \<and> f x = Inl e)"
  by (cases r) auto

definition of_option :: "'e \<Rightarrow> 'a option \<Rightarrow> 'e + 'a" where
  "of_option e x = (case x of None \<Rightarrow> Inl e | Some v \<Rightarrow> Inr v)"

lemma of_option_simps [simp]:
  "of_option e None = Inl e"
  "of_option e (Some v) = Inr v"
  by (simp_all add: of_option_def)

lemma of_option_eq_Inr [simp]: "of_option e x = Inr v \<longleftrightarrow> x = Some v"
  by (cases x) auto

subsection \<open>Bytes\<close>

abbreviation byte :: "char \<Rightarrow> nat" where
  "byte \<equiv> of_char"

definition byte_in :: "nat \<Rightarrow> nat \<Rightarrow> char \<Rightarrow> bool" where
  "byte_in lo hi c \<longleftrightarrow> lo \<le> byte c \<and> byte c \<le> hi"

definition is_digit :: "char \<Rightarrow> bool" where
  "is_digit c = byte_in 48 57 c"

definition is_lower :: "char \<Rightarrow> bool" where
  "is_lower c = byte_in 97 122 c"

definition is_upper :: "char \<Rightarrow> bool" where
  "is_upper c = byte_in 65 90 c"

definition is_alnum :: "char \<Rightarrow> bool" where
  "is_alnum c \<longleftrightarrow> is_lower c \<or> is_upper c \<or> is_digit c"

definition is_ascii :: "char \<Rightarrow> bool" where
  "is_ascii c \<longleftrightarrow> byte c < 128"

definition is_ctl :: "char \<Rightarrow> bool" where
  "is_ctl c \<longleftrightarrow> byte c < 32 \<or> byte c = 127"

lemma char_of_byte [simp]: "char_of (byte c) = c"
  by simp

lemma byte_char_of: "n < 256 \<Longrightarrow> byte (char_of n) = n"
  by simp

lemma byte_less [simp]: "byte c < 256"
  by (rule nat_of_char_less_256)

lemma byte_eq_iff: "byte c = byte d \<longleftrightarrow> c = d"
  by simp

text \<open>A decidable statement about every byte is checked on the 256 bytes.\<close>

lemma all_bytesI:
  assumes "list_all (\<lambda>n. P (char_of n)) [0..<256]"
  shows "P c"
proof -
  have "byte c \<in> set [0..<256]" by simp
  with assms have "P (char_of (byte c))" unfolding list_all_iff by blast
  then show ?thesis by simp
qed

subsection \<open>Lists\<close>

lemma takeWhile_id: "\<forall>x \<in> set xs. P x \<Longrightarrow> takeWhile P xs = xs"
  by (simp add: takeWhile_eq_all_conv)

lemma filter_id: "\<forall>x \<in> set xs. P x \<Longrightarrow> filter P xs = xs"
  by (induction xs) auto

lemma map_of_const_None: "\<forall>p \<in> set xs. fst p \<noteq> k \<Longrightarrow> map_of xs k = None"
  by (induction xs) auto

subsection \<open>Machine integers\<close>

text \<open>Reduction of an integer to the 64-bit two's complement value with the same bits.\<close>

definition wrap64 :: "int \<Rightarrow> int" where
  "wrap64 x = (x + 2 ^ 63) mod 2 ^ 64 - 2 ^ 63"

definition max_int64 :: int where "max_int64 = 2 ^ 63 - 1"
definition min_int64 :: int where "min_int64 = - (2 ^ 63)"

definition in_int64 :: "int \<Rightarrow> bool" where
  "in_int64 x \<longleftrightarrow> min_int64 \<le> x \<and> x \<le> max_int64"

lemma wrap64_in: "in_int64 (wrap64 x)"
  by (simp add: wrap64_def in_int64_def min_int64_def max_int64_def)

lemma wrap64_id: "in_int64 x \<Longrightarrow> wrap64 x = x"
  by (simp add: wrap64_def in_int64_def min_int64_def max_int64_def)

lemma wrap64_word: "wrap64 x = sint (word_of_int x :: 64 word)"
  by (simp add: wrap64_def sint_sbintrunc' signed_take_bit_eq_take_bit_shift take_bit_eq_mod)

text \<open>Truncating division and remainder, as Go's \<open>/\<close> and \<open>%\<close>.\<close>

definition tdiv :: "int \<Rightarrow> int \<Rightarrow> int" where
  "tdiv a b = sgn a * sgn b * (\<bar>a\<bar> div \<bar>b\<bar>)"

definition tmod :: "int \<Rightarrow> int \<Rightarrow> int" where
  "tmod a b = a - b * tdiv a b"

lemma tdiv_nonneg: "0 \<le> a \<Longrightarrow> 0 < b \<Longrightarrow> tdiv a b = a div b"
  by (cases "a = 0") (simp_all add: tdiv_def)

end
