(* ===== verification/Go_Encoding.thy ===== *)
theory Go_Encoding
  imports Go_Strings
begin

section \<open>Go's \<open>encoding/base64\<close> and \<open>encoding/hex\<close>\<close>

text \<open>
  The four base64 encodings of \<open>encoding/base64\<close> (standard and URL alphabet, padded and raw)
  and lower-case hexadecimal.  Decoding follows \<open>DecodeString\<close>: carriage returns and line
  feeds are skipped, trailing bits of the last quantum are not checked (the encodings are
  not \<open>Strict\<close>), padding is demanded exactly by the padded encodings, and anything else is
  an error.  The lemmas give the round trip for each encoding and the bytes an encoding can
  produce.
\<close>

datatype b64_encoding = StdEncoding | URLEncoding | RawStdEncoding | RawURLEncoding

definition b64_padded :: "b64_encoding \<Rightarrow> bool" where
  "b64_padded e \<longleftrightarrow> e = StdEncoding \<or> e = URLEncoding"

definition b64_url :: "b64_encoding \<Rightarrow> bool" where
  "b64_url e \<longleftrightarrow> e = URLEncoding \<or> e = RawURLEncoding"

subsection \<open>The alphabets\<close>

definition b64_char :: "bool \<Rightarrow> nat \<Rightarrow> char" where
  "b64_char url n =
     (if n < 26 then char_of (65 + n)
      else if n < 52 then char_of (97 + (n - 26))
      else if n < 62 then char_of (48 + (n - 52))
      else if n = 62 then (if url then CHR ''-'' else CHR ''+'')
      else (if url then CHR ''_'' else CHR ''/''))"

definition b64_val :: "bool \<Rightarrow> char \<Rightarrow> nat option" where
  "b64_val url c =
     (if is_upper c then Some (byte c - 65)
      else if is_lower c then Some (byte c - 97 + 26)
      else if is_digit c then Some (byte c - 48 + 52)
      else if c = (if url then CHR ''-'' else CHR ''+'') then Some 62
      else if c = (if url then CHR ''_'' else CHR ''/'') then Some 63
      else None)"

lemma b64_val_char [simp]:
  assumes "n < 64"
  shows "b64_val url (b64_char url n) = Some n"
proof -
  consider "n < 26" | "26 \<le> n" "n < 52" | "52 \<le> n" "n < 62" | "n = 62" | "n = 63"
    using assms by linarith
  then show ?thesis
    by cases (auto simp: b64_char_def b64_val_def is_upper_def is_lower_def is_digit_def byte_in_def)
qed

definition b64_alphabet :: "char \<Rightarrow> bool" where
  "b64_alphabet c \<longleftrightarrow> is_alnum c \<or> c \<in> set ''-_+/''"

lemma b64_val_alphabet: "b64_val url c = Some n \<Longrightarrow> b64_alphabet c"
  by (auto simp: b64_val_def b64_alphabet_def is_alnum_def split: if_splits)

lemma b64_char_alphabet: "n < 64 \<Longrightarrow> b64_alphabet (b64_char url n)"
  using b64_val_alphabet b64_val_char by blast

lemma b64_alphabet_crlf: "b64_alphabet c \<Longrightarrow> c \<noteq> CHR 0x0A \<and> c \<noteq> CHR 0x0D"
  by (auto simp: b64_alphabet_def is_alnum_def is_lower_def is_upper_def is_digit_def byte_in_def)

subsection \<open>Encoding\<close>

text \<open>The four six-bit groups of three bytes, and the three bytes of four groups.\<close>

definition sextet0 :: "char \<Rightarrow> nat" where "sextet0 a = byte a div 4"
definition sextet1 :: "char \<Rightarrow> char \<Rightarrow> nat" where "sextet1 a b = byte a mod 4 * 16 + byte b div 16"
definition sextet2 :: "char \<Rightarrow> char \<Rightarrow> nat" where "sextet2 b c = byte b mod 16 * 4 + byte c div 64"
definition sextet3 :: "char \<Rightarrow> nat" where "sextet3 c = byte c mod 64"

definition octet0 :: "nat \<Rightarrow> nat \<Rightarrow> char" where "octet0 u v = char_of (u * 4 + v div 16)"
definition octet1 :: "nat \<Rightarrow> nat \<Rightarrow> char" where "octet1 u v = char_of (u mod 16 * 16 + v div 4)"
definition octet2 :: "nat \<Rightarrow> nat \<Rightarrow> char" where "octet2 u v = char_of (u mod 4 * 64 + v)"

text \<open>A short last quantum is encoded as if followed by zero bytes.\<close>

fun b64_sextets :: "string \<Rightarrow> nat list" where
  "b64_sextets [] = []"
| "b64_sextets [a] = [sextet0 a, sextet1 a (CHR 0x00)]"
| "b64_sextets [a, b] = [sextet0 a, sextet1 a b, sextet2 b (CHR 0x00)]"
| "b64_sextets (a # b # c # s) = [sextet0 a, sextet1 a b, sextet2 b c, sextet3 c] @ b64_sextets s"

definition b64_padding :: "string \<Rightarrow> string" where
  "b64_padding s =
     (if length s mod 3 = 0 then [] else if length s mod 3 = 1 then ''=='' else ''='')"

definition b64_encode :: "b64_encoding \<Rightarrow> string \<Rightarrow> string" where
  "b64_encode e s =
     map (b64_char (b64_url e)) (b64_sextets s) @ (if b64_padded e then b64_padding s else [])"

lemma pack_div_mod:
  fixes q m y :: nat
  assumes "y < m"
  shows "(q * m + y) div m = q" "(q * m + y) mod m = y"
  using assms by simp_all

text \<open>Every six-bit group is below 64, and regrouping the bits gives the bytes back.\<close>

lemma sextet_bounds [simp]:
  "sextet0 a < 64" "sextet1 a b < 64" "sextet2 b c < 64" "sextet3 c < 64"
proof -
  have q: "byte a div 4 < 64" "byte b div 16 < 16" "byte c div 64 < 4"
    by (simp_all add: div_less_iff_less_mult)
  have m: "byte a mod 4 < 4" "byte b mod 16 < 16" "byte c mod 64 < 64" by simp_all
  show "sextet0 a < 64" "sextet1 a b < 64" "sextet2 b c < 64" "sextet3 c < 64"
    unfolding sextet0_def sextet1_def sextet2_def sextet3_def using q m by linarith+
qed

lemma octet_sextet [simp]:
  "octet0 (sextet0 a) (sextet1 a b) = a"
  "octet1 (sextet1 a b) (sextet2 b c) = b"
  "octet2 (sextet2 b c) (sextet3 c) = c"
proof -
  have "byte b div 16 < 16" "byte c div 64 < 4"
    by (simp_all add: div_less_iff_less_mult)
  note p = pack_div_mod [OF this(1), of "byte a mod 4"] pack_div_mod [OF this(2), of "byte b mod 16"]
  show "octet0 (sextet0 a) (sextet1 a b) = a"
    "octet1 (sextet1 a b) (sextet2 b c) = b"
    "octet2 (sextet2 b c) (sextet3 c) = c"
    unfolding octet0_def octet1_def octet2_def sextet0_def sextet1_def sextet2_def sextet3_def
    by (simp_all only: p div_mult_mod_eq char_of_byte)
qed

lemma b64_sextets_bound: "\<forall>n \<in> set (b64_sextets s). n < 64"
  by (induction s rule: b64_sextets.induct) auto

lemma b64_encode_bytes:
  "c \<in> set (b64_encode e s) \<Longrightarrow> b64_alphabet c \<or> c = CHR ''=''"
  using b64_sextets_bound [of s]
  by (auto simp: b64_encode_def b64_padding_def b64_char_alphabet split: if_splits)

lemma b64_encode_no_dot [simp]: "CHR ''.'' \<notin> set (b64_encode e s)"
  using b64_encode_bytes [of "CHR ''.''" e s]
  by (auto simp: b64_alphabet_def is_alnum_def is_lower_def is_upper_def is_digit_def byte_in_def)

subsection \<open>Decoding\<close>

fun b64_quanta :: "b64_encoding \<Rightarrow> string \<Rightarrow> string option" where
  "b64_quanta e [] = Some []"
| "b64_quanta e [a] = None"
| "b64_quanta e [a, b] =
     (if b64_padded e then None
      else case (b64_val (b64_url e) a, b64_val (b64_url e) b) of
        (Some v0, Some v1) \<Rightarrow> Some [octet0 v0 v1]
      | _ \<Rightarrow> None)"
| "b64_quanta e [a, b, c] =
     (if b64_padded e then None
      else case (b64_val (b64_url e) a, b64_val (b64_url e) b, b64_val (b64_url e) c) of
        (Some v0, Some v1, Some v2) \<Rightarrow>
          Some [octet0 v0 v1, octet1 v1 v2]
      | _ \<Rightarrow> None)"
| "b64_quanta e (a # b # c # d # s) =
     (case (b64_val (b64_url e) a, b64_val (b64_url e) b) of
        (Some v0, Some v1) \<Rightarrow>
          (case b64_val (b64_url e) c of
             Some v2 \<Rightarrow>
               (case b64_val (b64_url e) d of
                  Some v3 \<Rightarrow>
                    map_option (\<lambda>t. [octet0 v0 v1, octet1 v1 v2,
                       octet2 v2 v3] @ t) (b64_quanta e s)
                | None \<Rightarrow>
                    if b64_padded e \<and> d = CHR ''='' \<and> s = []
                    then Some [octet0 v0 v1, octet1 v1 v2]
                    else None)
           | None \<Rightarrow>
               if b64_padded e \<and> c = CHR ''='' \<and> d = CHR ''='' \<and> s = []
               then Some [octet0 v0 v1]
               else None)
      | _ \<Rightarrow> None)"

definition is_crlf :: "char \<Rightarrow> bool" where
  "is_crlf c \<longleftrightarrow> c = CHR 0x0A \<or> c = CHR 0x0D"

definition b64_decode :: "b64_encoding \<Rightarrow> string \<Rightarrow> string option" where
  "b64_decode e s = b64_quanta e (filter (\<lambda>c. \<not> is_crlf c) s)"

lemma b64_pad_None [simp]: "b64_val url CHR ''='' = None"
  by (simp add: b64_val_def is_lower_def is_upper_def is_digit_def byte_in_def)

lemma b64_padding_3 [simp]: "b64_padding (a # b # c # s) = b64_padding s"
proof -
  have "length (a # b # c # s) mod 3 = length s mod 3" by simp
  then show ?thesis by (simp only: b64_padding_def)
qed

lemma b64_quanta_encode: "b64_quanta e (b64_encode e s) = Some s"
proof (induction s rule: b64_sextets.induct)
  case (4 a b c s)
  then show ?case by (cases "b64_padded e") (simp_all add: b64_encode_def)
qed (simp_all add: b64_encode_def b64_padding_def)

lemma b64_encode_no_crlf: "filter (\<lambda>c. \<not> is_crlf c) (b64_encode e s) = b64_encode e s"
proof (rule filter_id, rule ballI)
  fix c
  assume "c \<in> set (b64_encode e s)"
  then show "\<not> is_crlf c"
    using b64_encode_bytes b64_alphabet_crlf by (fastforce simp: is_crlf_def)
qed

theorem b64_decode_encode [simp]: "b64_decode e (b64_encode e s) = Some s"
  by (simp add: b64_decode_def b64_encode_no_crlf b64_quanta_encode)

lemma b64_encode_inject: "b64_encode e s = b64_encode e t \<longleftrightarrow> s = t"
  by (metis b64_decode_encode option.inject)

subsection \<open>Hexadecimal\<close>

definition hex_digit :: "nat \<Rightarrow> char" where
  "hex_digit n = (if n < 10 then char_of (48 + n) else char_of (87 + n))"

definition hex_encode :: "string \<Rightarrow> string" where
  "hex_encode s = concat (map (\<lambda>c. [hex_digit (byte c div 16), hex_digit (byte c mod 16)]) s)"

definition is_hex_lower :: "char \<Rightarrow> bool" where
  "is_hex_lower c \<longleftrightarrow> is_digit c \<or> byte_in 97 102 c"

lemma hex_digit_inject:
  assumes "m < 16" "n < 16" "hex_digit m = hex_digit n"
  shows "m = n"
proof -
  have b: "byte (hex_digit k) = (if k < 10 then 48 + k else 87 + k)" if "k < 16" for k
    using that by (simp add: hex_digit_def)
  from assms(3) have "byte (hex_digit m) = byte (hex_digit n)" by (rule arg_cong)
  then show ?thesis using assms(1,2) by (simp only: b split: if_splits)
qed

lemma hex_digit_lower: "n < 16 \<Longrightarrow> is_hex_lower (hex_digit n)"
  by (simp add: hex_digit_def is_hex_lower_def is_digit_def byte_in_def)

lemma hex_encode_length [simp]: "length (hex_encode s) = 2 * length s"
  by (induction s) (simp_all add: hex_encode_def)

lemma byte_div_16: "byte c div 16 < 16"
  by (simp add: div_less_iff_less_mult)

lemma hex_encode_lower: "\<forall>c \<in> set (hex_encode s). is_hex_lower c"
  by (auto simp: hex_encode_def hex_digit_lower byte_div_16)

lemma hex_encode_inject: "hex_encode s = hex_encode t \<longleftrightarrow> s = t"
proof
  show "hex_encode s = hex_encode t \<Longrightarrow> s = t"
  proof (induction s t rule: list_induct2')
    case (4 x xs y ys)
    then have "hex_digit (byte x div 16) = hex_digit (byte y div 16)"
      "hex_digit (byte x mod 16) = hex_digit (byte y mod 16)" and t: "hex_encode xs = hex_encode ys"
      by (simp_all add: hex_encode_def)
    then have "byte x div 16 = byte y div 16 \<and> byte x mod 16 = byte y mod 16"
      by (simp add: hex_digit_inject byte_div_16)
    then have "byte x = byte y" by (metis div_mult_mod_eq)
    with 4 t show ?case by simp
  qed (simp_all add: hex_encode_def)
qed simp

end
