(* ===== verification/Go_Url.thy ===== *)
theory Go_Url
  imports Go_Encoding "HOL-Library.Monad_Syntax" "HOL-Library.List_Lexorder"
begin

section \<open>The functions of Go's \<open>net/url\<close> and \<open>path\<close> packages the gateway calls\<close>

text \<open>
  Percent-encoding in each of the modes of \<open>net/url\<close>, the \<open>URL\<close> struct with \<open>Parse\<close>,
  \<open>EscapedPath\<close>, \<open>RequestURI\<close> and \<open>String\<close>, query parsing and printing, and \<open>path.Clean\<close>.
  The lemmas: decoding inverts encoding, what bytes an encoded component can contain, and
  the shape of a cleaned rooted path.
\<close>

subsection \<open>Percent-encoding\<close>

datatype url_mode = EncPath | EncPathSegment | EncHost | EncUserPassword | EncQueryComponent | EncFragment

definition unreserved_marks :: string where "unreserved_marks = ''-_.~''"
definition reserved_marks :: string where "reserved_marks = ''$&+,/:;=?@''"
definition host_marks :: string where "host_marks = ''!$&()*+,;=:[]<>'' @ [CHR 0x27, CHR 0x22]"

definition should_escape :: "url_mode \<Rightarrow> char \<Rightarrow> bool" where
  "should_escape m c =
     (if is_alnum c then False
      else if m = EncHost \<and> c \<in> set host_marks then False
      else if c \<in> set unreserved_marks then False
      else if c \<in> set reserved_marks \<and> m \<noteq> EncHost then
        (case m of
           EncPath \<Rightarrow> c = CHR ''?''
         | EncPathSegment \<Rightarrow> c \<in> set ''/;,?''
         | EncUserPassword \<Rightarrow> c \<in> set ''@/?:''
         | EncQueryComponent \<Rightarrow> True
         | _ \<Rightarrow> False)
      else if m = EncFragment \<and> c \<in> set ''!()*'' then False
      else True)"

definition upper_hex :: "nat \<Rightarrow> char" where
  "upper_hex n = (if n < 10 then char_of (48 + n) else char_of (55 + n))"

definition url_is_hex :: "char \<Rightarrow> bool" where
  "url_is_hex c \<longleftrightarrow> is_digit c \<or> byte_in 97 102 c \<or> byte_in 65 70 c"

definition url_unhex :: "char \<Rightarrow> nat" where
  "url_unhex c = (if is_digit c then byte c - 48 else if byte_in 97 102 c then byte c - 87 else byte c - 55)"

definition escape_char :: "url_mode \<Rightarrow> char \<Rightarrow> string" where
  "escape_char m c =
     (if should_escape m c then
        (if c = CHR '' '' \<and> m = EncQueryComponent then ''+''
         else [CHR ''%'', upper_hex (byte c div 16), upper_hex (byte c mod 16)])
      else [c])"

definition url_escape :: "url_mode \<Rightarrow> string \<Rightarrow> string" where
  "url_escape m s = concat (map (escape_char m) s)"

fun url_unescape :: "url_mode \<Rightarrow> string \<Rightarrow> string option" where
  "url_unescape m [] = Some []"
| "url_unescape m (c # s) =
     (if c = CHR ''%'' then
        (case s of
           x # y # r \<Rightarrow>
             if url_is_hex x \<and> url_is_hex y
                \<and> \<not> (m = EncHost \<and> url_unhex x < 8 \<and> \<not> (x = CHR ''2'' \<and> y = CHR ''5''))
             then map_option ((#) (char_of (16 * url_unhex x + url_unhex y))) (url_unescape m r)
             else None
         | _ \<Rightarrow> None)
      else if c = CHR ''+'' \<and> m = EncQueryComponent then map_option ((#) (CHR '' '')) (url_unescape m s)
      else if m = EncHost \<and> byte c < 128 \<and> should_escape m c then None
      else map_option ((#) c) (url_unescape m s))"

declare url_unescape.simps(2) [simp del]

definition path_escape :: "string \<Rightarrow> string" where
  "path_escape = url_escape EncPathSegment"

definition query_escape :: "string \<Rightarrow> string" where
  "query_escape = url_escape EncQueryComponent"

definition valid_encoded_marks :: string where
  "valid_encoded_marks = ''!$&()*+,;=:@[]%'' @ [CHR 0x27]"

definition valid_encoded :: "url_mode \<Rightarrow> string \<Rightarrow> bool" where
  "valid_encoded m s \<longleftrightarrow> list_all (\<lambda>c. c \<in> set valid_encoded_marks \<or> \<not> should_escape m c) s"

subsection \<open>Decoding inverts encoding\<close>

lemma upper_hex_hex: "n < 16 \<Longrightarrow> url_is_hex (upper_hex n) \<and> url_unhex (upper_hex n) = n"
  by (auto simp: upper_hex_def url_is_hex_def url_unhex_def is_digit_def byte_in_def)

lemma escape_marks: "\<not> should_escape m c \<Longrightarrow> c \<noteq> CHR ''%''"
  by (auto simp: should_escape_def host_marks_def unreserved_marks_def reserved_marks_def is_alnum_def
      is_lower_def is_upper_def is_digit_def byte_in_def)

lemma query_keeps_no_plus: "\<not> should_escape EncQueryComponent c \<Longrightarrow> c \<noteq> CHR ''+''"
  by (auto simp: should_escape_def unreserved_marks_def reserved_marks_def is_alnum_def
      is_lower_def is_upper_def is_digit_def byte_in_def)

lemma unescape_escape_char:
  assumes "m \<noteq> EncHost"
  shows "url_unescape m (escape_char m c @ s) = map_option ((#) c) (url_unescape m s)"
proof -
  have h: "url_is_hex (upper_hex (byte c div 16))" "url_is_hex (upper_hex (byte c mod 16))"
    "16 * url_unhex (upper_hex (byte c div 16)) + url_unhex (upper_hex (byte c mod 16)) = byte c"
    using upper_hex_hex [of "byte c div 16"] upper_hex_hex [of "byte c mod 16"] byte_div_16 [of c] by simp_all
  have "char_of (43 :: nat) = CHR ''+''" using char_of_byte [of "CHR ''+''"] by simp
  with assms h show ?thesis
    using escape_marks [of m c] query_keeps_no_plus [of c]
    by (auto simp: escape_char_def url_unescape.simps(2))
qed

lemma unescape_escape [simp]: "m \<noteq> EncHost \<Longrightarrow> url_unescape m (url_escape m s) = Some s"
  by (induction s) (simp_all add: url_escape_def unescape_escape_char)

lemma url_escape_append: "url_escape m (s @ t) = url_escape m s @ url_escape m t"
  by (simp add: url_escape_def)

lemma url_escape_Nil [simp]: "url_escape m [] = []"
  by (simp add: url_escape_def)

lemma url_escape_Cons: "url_escape m (c # s) = escape_char m c @ url_escape m s"
  by (simp add: url_escape_def)

lemma escape_char_nonempty [simp]: "escape_char m c \<noteq> []"
  by (simp add: escape_char_def)

lemma url_escape_inject: "m \<noteq> EncHost \<Longrightarrow> url_escape m s = url_escape m t \<longleftrightarrow> s = t"
  by (metis option.inject unescape_escape)

lemma upper_hex_alnum: "n < 16 \<Longrightarrow> is_alnum (upper_hex n)"
  by (auto simp: upper_hex_def is_alnum_def is_digit_def is_upper_def byte_in_def)

lemma escape_char_bytes:
  "x \<in> set (escape_char m c) \<Longrightarrow> x = CHR ''%'' \<or> is_alnum x \<or> (x = CHR ''+'' \<and> m = EncQueryComponent) \<or> \<not> should_escape m x"
  by (auto simp: escape_char_def upper_hex_alnum byte_div_16 split: if_splits)

lemma url_escape_bytes:
  "x \<in> set (url_escape m s) \<Longrightarrow> x = CHR ''%'' \<or> is_alnum x \<or> (x = CHR ''+'' \<and> m = EncQueryComponent) \<or> \<not> should_escape m x"
  by (auto simp: url_escape_def dest: escape_char_bytes)

lemma alnum_unescaped: "is_alnum c \<Longrightarrow> \<not> should_escape m c"
  by (simp add: should_escape_def)

lemma url_escape_valid: "m \<noteq> EncQueryComponent \<Longrightarrow> valid_encoded m (url_escape m s)"
  using alnum_unescaped
  by (auto simp: valid_encoded_def list_all_iff valid_encoded_marks_def dest!: url_escape_bytes)

text \<open>A path segment cannot leave its place in a path, a query component cannot leave its place in a query.\<close>

lemma ctl_no_marks:
  "is_ctl c \<Longrightarrow> c \<notin> set unreserved_marks \<and> c \<notin> set reserved_marks \<and> c \<notin> set host_marks
     \<and> c \<notin> set ''!()*'' \<and> \<not> is_alnum c \<and> c \<noteq> CHR ''%'' \<and> c \<noteq> CHR ''+''"
  by (auto simp: is_ctl_def unreserved_marks_def reserved_marks_def host_marks_def is_alnum_def
      is_lower_def is_upper_def is_digit_def byte_in_def)

lemma ctl_escaped: "is_ctl c \<Longrightarrow> should_escape m c"
  using ctl_no_marks [of c] by (auto simp: should_escape_def)

lemma url_escape_no_ctl: "c \<in> set (url_escape m s) \<Longrightarrow> \<not> is_ctl c"
  using ctl_no_marks ctl_escaped by (blast dest: url_escape_bytes)

definition segment_delims :: string where "segment_delims = ''/?#;, '' @ [CHR 0x5C]"
definition query_delims :: string where "query_delims = ''/?#;,&= '' @ [CHR 0x5C]"

lemma delims_no_marks: "c \<in> set query_delims \<Longrightarrow> c \<noteq> CHR ''%'' \<and> c \<noteq> CHR ''+'' \<and> \<not> is_alnum c \<and> c \<notin> set unreserved_marks"
  unfolding query_delims_def set_append list.set
  by (elim UnE insertE emptyE) (simp_all add: is_alnum_def is_lower_def is_upper_def is_digit_def byte_in_def unreserved_marks_def)

lemma segment_delims_query: "c \<in> set segment_delims \<Longrightarrow> c \<in> set query_delims"
  by (auto simp: segment_delims_def query_delims_def)

lemma query_delims_escaped: "c \<in> set query_delims \<Longrightarrow> should_escape EncQueryComponent c"
  using delims_no_marks [of c] by (simp add: should_escape_def)

lemma segment_delims_escaped: "c \<in> set segment_delims \<Longrightarrow> should_escape EncPathSegment c"
  using delims_no_marks [OF segment_delims_query, of c]
  by (auto simp: should_escape_def segment_delims_def reserved_marks_def)

lemma path_escape_no_delims: "c \<in> set (path_escape s) \<Longrightarrow> c \<notin> set segment_delims"
  unfolding path_escape_def
  using delims_no_marks [OF segment_delims_query] segment_delims_escaped by (blast dest: url_escape_bytes)

lemma query_escape_no_delims: "c \<in> set (query_escape s) \<Longrightarrow> c \<notin> set query_delims"
  unfolding query_escape_def
  using delims_no_marks query_delims_escaped by (blast dest: url_escape_bytes)

subsection \<open>The URL struct and its parser\<close>

record url =
  u_scheme :: string
  u_opaque :: string
  u_user :: "(string \<times> string option) option"
  u_host :: string
  u_path :: string
  u_raw_path :: string
  u_omit_host :: bool
  u_force_query :: bool
  u_raw_query :: string
  u_fragment :: string
  u_raw_fragment :: string

definition empty_url :: url where
  "empty_url = \<lparr> u_scheme = [], u_opaque = [], u_user = None, u_host = [], u_path = [], u_raw_path = [],
     u_omit_host = False, u_force_query = False, u_raw_query = [], u_fragment = [],
     u_raw_fragment = [] \<rparr>"

definition is_abs :: "url \<Rightarrow> bool" where
  "is_abs u \<longleftrightarrow> u_scheme u \<noteq> []"

definition scheme_char :: "char \<Rightarrow> bool" where
  "scheme_char c \<longleftrightarrow> is_alnum c \<or> c \<in> set ''+-.''"

text \<open>
  \<open>getScheme\<close>: the scheme, if any, and the rest.  The error is a missing scheme before a colon.
\<close>

definition get_scheme :: "string \<Rightarrow> (string \<times> string) option" where
  "get_scheme s =
     (let a = takeWhile scheme_char s; r = dropWhile scheme_char s
      in if r \<noteq> [] \<and> hd r = CHR '':''
         then (if a = [] then None
               else if is_lower (hd a) \<or> is_upper (hd a) then Some (a, tl r) else Some ([], s))
         else Some ([], s))"

definition last_index :: "char \<Rightarrow> string \<Rightarrow> nat option" where
  "last_index c s = (if c \<in> set s then Some (length s - 1 - length (takeWhile (\<lambda>x. x \<noteq> c) (rev s))) else None)"

definition valid_optional_port :: "string \<Rightarrow> bool" where
  "valid_optional_port s = (case s of [] \<Rightarrow> True | c # r \<Rightarrow> c = CHR '':'' \<and> list_all is_digit r)"

text \<open>The textual form of an IPv6 address without a zone.\<close>

definition dotted_quad :: "string \<Rightarrow> bool" where
  "dotted_quad s =
     (let ps = split_on (CHR ''.'') s
      in length ps = 4 \<and> list_all (\<lambda>q. q \<noteq> [] \<and> list_all is_digit q \<and> length q \<le> 3 \<and> read_nat 0 q < 256
           \<and> (length q = 1 \<or> hd q \<noteq> CHR ''0'')) ps)"

definition hextet :: "string \<Rightarrow> bool" where
  "hextet s \<longleftrightarrow> s \<noteq> [] \<and> length s \<le> 4 \<and> list_all url_is_hex s"

definition ipv6_groups :: "string \<Rightarrow> nat option" where
  "ipv6_groups s =
     (if s = [] then Some 0
      else let gs = split_on (CHR '':'') s
           in if list_all hextet gs then Some (length gs)
              else if list_all hextet (butlast gs) \<and> dotted_quad (last gs) then Some (length gs + 1) else None)"

definition ipv6_text :: "string \<Rightarrow> bool" where
  "ipv6_text s = (case cut s ''::'' of
      (a, b, True) \<Rightarrow> (case (ipv6_groups a, ipv6_groups b) of
          (Some m, Some n) \<Rightarrow> m + n < 8 \<and> (a = [] \<or> list_all hextet (split_on (CHR '':'') a)) | _ \<Rightarrow> False)
    | (a, b, False) \<Rightarrow> ipv6_groups a = Some 8)"

text \<open>\<open>parseHost\<close>: a colon in an \<open>http\<close> or \<open>https\<close> host may only start the port.\<close>

definition parse_host :: "string \<Rightarrow> string \<Rightarrow> string option" where
  "parse_host scheme h =
     (case last_index (CHR ''['') h of
        Some i \<Rightarrow>
          if i \<noteq> 0 then None
          else (case last_index (CHR '']'') h of
              None \<Rightarrow> None
            | Some j \<Rightarrow>
                if valid_optional_port (drop (j + 1) h) \<and> ipv6_text (take (j - 1) (tl h)) then Some h else None)
      | None \<Rightarrow>
          (let i = (if scheme = ''http'' \<or> scheme = ''https'' then index_of h '':'' else last_index (CHR '':'') h)
           in case i of
                Some k \<Rightarrow> if valid_optional_port (drop k h) then url_unescape EncHost h else None
              | None \<Rightarrow> url_unescape EncHost h))"

definition valid_userinfo :: "string \<Rightarrow> bool" where
  "valid_userinfo s = list_all (\<lambda>c. is_alnum c \<or> c \<in> set ''-._:~!$&()*+,;=%@'' \<or> c = CHR 0x27) s"

definition parse_userinfo :: "string \<Rightarrow> (string \<times> string option) option" where
  "parse_userinfo s =
     (if \<not> valid_userinfo s then None
      else if CHR '':'' \<notin> set s then map_option (\<lambda>u. (u, None)) (url_unescape EncUserPassword s)
      else (let (n, p, _) = cut s '':''
            in do {
              n' \<leftarrow> url_unescape EncUserPassword n;
              p' \<leftarrow> url_unescape EncUserPassword p;
              Some (n', Some p')
            }))"

definition parse_authority :: "string \<Rightarrow> string \<Rightarrow> ((string \<times> string option) option \<times> string) option" where
  "parse_authority scheme a =
     (case last_index (CHR ''@'') a of
        None \<Rightarrow> map_option (\<lambda>h. (None, h)) (parse_host scheme a)
      | Some i \<Rightarrow> do {
          h \<leftarrow> parse_host scheme (drop (i + 1) a);
          u \<leftarrow> parse_userinfo (take i a);
          Some (Some u, h)
        })"

definition set_path :: "string \<Rightarrow> url \<Rightarrow> url option" where
  "set_path p u = map_option
     (\<lambda>path. u\<lparr> u_path := path, u_raw_path := (if p = url_escape EncPath path then [] else p) \<rparr>)
     (url_unescape EncPath p)"

text \<open>The query of a rest: a lone trailing question mark only sets \<open>ForceQuery\<close>.\<close>

definition split_query :: "string \<Rightarrow> string \<times> string \<times> bool" where
  "split_query rest =
     (if has_suffix rest ''?'' \<and> count_list rest (CHR ''?'') = 1 then (butlast rest, [], True)
      else (let (p, q, _) = cut rest ''?'' in (p, q, False)))"

definition parse_absolute_or_path :: "url \<Rightarrow> string \<Rightarrow> url option" where
  "parse_absolute_or_path u rest =
     (if has_prefix rest ''//'' \<and> (is_abs u \<or> \<not> has_prefix rest ''///'')
      then (let a = takeWhile (\<lambda>c. c \<noteq> CHR ''/'') (drop 2 rest); r = dropWhile (\<lambda>c. c \<noteq> CHR ''/'') (drop 2 rest)
            in case parse_authority (u_scheme u) a of
                 None \<Rightarrow> None
               | Some (usr, h) \<Rightarrow> set_path r (u\<lparr> u_user := usr, u_host := h \<rparr>))
      else set_path rest (u\<lparr> u_omit_host := is_abs u \<and> has_prefix rest ''/'' \<rparr>))"

definition parse_no_fragment :: "string \<Rightarrow> url option" where
  "parse_no_fragment raw =
     (if list_ex is_ctl raw then None
      else if raw = ''*'' then Some (empty_url\<lparr> u_path := ''*'' \<rparr>)
      else (case get_scheme raw of
          None \<Rightarrow> None
        | Some (sch, rest0) \<Rightarrow>
            (let (rest, q, fq) = split_query rest0;
                 u = empty_url\<lparr> u_scheme := map ascii_lower sch, u_raw_query := q, u_force_query := fq \<rparr>
             in if \<not> has_prefix rest ''/'' \<and> sch \<noteq> [] then Some (u\<lparr> u_opaque := rest \<rparr>)
                else if \<not> has_prefix rest ''/'' \<and> CHR '':'' \<in> set (takeWhile (\<lambda>c. c \<noteq> CHR ''/'') rest) then None
                else parse_absolute_or_path u rest)))"

definition url_parse :: "string \<Rightarrow> url option" where
  "url_parse raw =
     (let (body, frag, _) = cut raw ''#''
      in case parse_no_fragment body of
           None \<Rightarrow> None
         | Some u \<Rightarrow> if frag = [] then Some u
                     else map_option (\<lambda>f. u\<lparr> u_fragment := f,
                       u_raw_fragment := (if frag = url_escape EncFragment f then [] else frag) \<rparr>)
                     (url_unescape EncFragment frag))"

definition escaped_path :: "url \<Rightarrow> string" where
  "escaped_path u =
     (if u_raw_path u \<noteq> [] \<and> valid_encoded EncPath (u_raw_path u)
         \<and> url_unescape EncPath (u_raw_path u) = Some (u_path u)
      then u_raw_path u
      else if u_path u = ''*'' then ''*''
      else url_escape EncPath (u_path u))"

definition request_uri :: "url \<Rightarrow> string" where
  "request_uri u =
     (if u_opaque u = [] then (if escaped_path u = [] then ''/'' else escaped_path u)
      else if has_prefix (u_opaque u) ''//'' then u_scheme u @ '':'' @ u_opaque u
      else u_opaque u)
     @ (if u_force_query u \<or> u_raw_query u \<noteq> [] then CHR ''?'' # u_raw_query u else [])"

definition escaped_fragment :: "url \<Rightarrow> string" where
  "escaped_fragment u =
     (if u_raw_fragment u \<noteq> [] \<and> valid_encoded EncFragment (u_raw_fragment u)
         \<and> url_unescape EncFragment (u_raw_fragment u) = Some (u_fragment u)
      then u_raw_fragment u else url_escape EncFragment (u_fragment u))"

definition userinfo_string :: "string \<times> string option \<Rightarrow> string" where
  "userinfo_string ui = url_escape EncUserPassword (fst ui)
     @ (case snd ui of None \<Rightarrow> [] | Some p \<Rightarrow> '':'' @ url_escape EncUserPassword p)"

text \<open>\<open>URL.String\<close>.\<close>

definition authority_string :: "url \<Rightarrow> string" where
  "authority_string u =
     (if (u_scheme u \<noteq> [] \<or> u_host u \<noteq> [] \<or> u_user u \<noteq> None)
         \<and> \<not> (u_omit_host u \<and> u_host u = [] \<and> u_user u = None)
      then (if u_host u \<noteq> [] \<or> u_path u \<noteq> [] \<or> u_user u \<noteq> None then ''//'' else [])
           @ (case u_user u of None \<Rightarrow> [] | Some ui \<Rightarrow> userinfo_string ui @ ''@'')
           @ url_escape EncHost (u_host u)
      else [])"

definition url_string :: "url \<Rightarrow> string" where
  "url_string u =
     (let start = (if u_scheme u \<noteq> [] then u_scheme u @ '':'' else []);
          path = escaped_path u;
          body = (if u_opaque u \<noteq> [] then start @ u_opaque u
            else (let front = start @ authority_string u
                        @ (if path \<noteq> [] \<and> hd path \<noteq> CHR ''/'' \<and> u_host u \<noteq> [] then ''/'' else [])
                  in front
                     @ (if front = [] \<and> CHR '':'' \<in> set (takeWhile (\<lambda>c. c \<noteq> CHR ''/'') path) then ''./'' else [])
                     @ path))
      in body
         @ (if u_force_query u \<or> u_raw_query u \<noteq> [] then CHR ''?'' # u_raw_query u else [])
         @ (if u_fragment u \<noteq> [] then CHR ''#'' # escaped_fragment u else []))"

subsection \<open>Query strings\<close>

text \<open>\<open>ParseQuery\<close>, keeping what it can: a pair with a semicolon or a bad escape is dropped.\<close>

definition parse_pair :: "string \<Rightarrow> (string \<times> string) option" where
  "parse_pair s =
     (if CHR '';'' \<in> set s \<or> s = [] then None
      else (let (k, v, _) = cut s ''=''
            in do {
              k' \<leftarrow> url_unescape EncQueryComponent k;
              v' \<leftarrow> url_unescape EncQueryComponent v;
              Some (k', v')
            }))"

definition query_values :: "string \<Rightarrow> (string \<times> string) list" where
  "query_values q = List.map_filter parse_pair (split_on (CHR ''&'') q)"

definition query_get :: "string \<Rightarrow> string \<Rightarrow> string" where
  "query_get q k = (case map_of (query_values q) k of None \<Rightarrow> [] | Some v \<Rightarrow> v)"

text \<open>\<open>Values.Encode\<close>: pairs in the order of their keys.\<close>

definition encode_pair :: "string \<times> string \<Rightarrow> string" where
  "encode_pair p = query_escape (fst p) @ ''='' @ query_escape (snd p)"

definition encode_values :: "(string \<times> string) list \<Rightarrow> string" where
  "encode_values ps = join (map encode_pair (sort_key (\<lambda>p. map (of_char :: char \<Rightarrow> nat) (fst p)) ps)) ''&''"

lemma parse_encode_pair: "parse_pair (encode_pair p) = Some p"
proof -
  obtain k v where p: "p = (k, v)" by (cases p)
  have d: "CHR ''='' \<notin> set (query_escape k)" "CHR '';'' \<notin> set (query_escape k)" "CHR '';'' \<notin> set (query_escape v)"
    using query_escape_no_delims [of _ k] query_escape_no_delims [of _ v] by (auto simp: query_delims_def)
  have "cut (query_escape k @ CHR ''='' # query_escape v) ''='' = (query_escape k, query_escape v, True)"
    using d by (intro cut_single_append)
  with d show ?thesis
    by (simp add: p parse_pair_def encode_pair_def) (simp add: query_escape_def)
qed

lemma encode_pair_no_amp: "CHR ''&'' \<notin> set (encode_pair p)"
  using query_escape_no_delims by (fastforce simp: encode_pair_def query_delims_def)

lemma split_join_absent:
  "ts \<noteq> [] \<Longrightarrow> \<forall>t \<in> set ts. c \<notin> set t \<Longrightarrow> split_on c (join ts [c]) = ts"
proof (induction ts)
  case (Cons t ts)
  then show ?case by (cases ts) (simp_all add: split_on_absent split_on_append)
qed simp

lemma map_filter_all: "\<forall>x \<in> set xs. f x = Some (g x) \<Longrightarrow> List.map_filter f xs = map g xs"
  by (induction xs) (auto simp: List.map_filter_def)

theorem query_values_join:
  assumes "ps \<noteq> []"
  shows "query_values (join (map encode_pair ps) ''&'') = ps"
proof -
  have "split_on (CHR ''&'') (join (map encode_pair ps) ''&'') = map encode_pair ps"
    using assms encode_pair_no_amp by (intro split_join_absent) auto
  then show ?thesis
    using map_filter_all [of "map encode_pair ps" parse_pair "the \<circ> parse_pair"]
    by (simp add: query_values_def parse_encode_pair comp_def)
qed

subsection \<open>\<open>path.Clean\<close>\<close>

text \<open>
  The elements of the path are kept on a stack: empty and dot elements vanish, a dot-dot
  element removes the one before it, or at the root vanishes.
\<close>

fun clean_elements :: "bool \<Rightarrow> string list \<Rightarrow> string list \<Rightarrow> string list" where
  "clean_elements rooted st [] = rev st"
| "clean_elements rooted st (e # es) =
     (if e = [] \<or> e = ''.'' then clean_elements rooted st es
      else if e = ''..'' then
        (case st of
           [] \<Rightarrow> clean_elements rooted (if rooted then [] else [e]) es
         | t # ts \<Rightarrow> if t = ''..'' then clean_elements rooted (e # st) es else clean_elements rooted ts es)
      else clean_elements rooted (e # st) es)"

definition path_clean :: "string \<Rightarrow> string" where
  "path_clean p =
     (let rooted = has_prefix p ''/'';
          body = join (clean_elements rooted [] (split_on (CHR ''/'') p)) ''/''
      in if rooted then CHR ''/'' # body else if body = [] then ''.'' else body)"

definition clean_element :: "string \<Rightarrow> bool" where
  "clean_element e \<longleftrightarrow> e \<noteq> [] \<and> e \<noteq> ''.'' \<and> e \<noteq> ''..'' \<and> CHR ''/'' \<notin> set e"

lemma clean_elements_rooted:
  assumes "\<forall>e \<in> set es. CHR ''/'' \<notin> set e" "list_all clean_element st"
  shows "list_all clean_element (clean_elements True st es)"
  using assms
proof (induction True st es rule: clean_elements.induct)
  case (2 st e es)
  then show ?case by (cases st) (auto simp: clean_element_def)
qed (simp add: list_all_iff)

lemma path_clean_rooted:
  assumes "has_prefix p ''/''"
  shows "\<exists>es. path_clean p = CHR ''/'' # join es ''/'' \<and> list_all clean_element es"
proof -
  have "list_all clean_element (clean_elements True [] (split_on (CHR ''/'') p))"
    using split_on_no_sep by (intro clean_elements_rooted) auto
  with assms show ?thesis by (auto simp: path_clean_def Let_def)
qed

lemma join_head: "es \<noteq> [] \<Longrightarrow> hd es \<noteq> [] \<Longrightarrow> join es sep \<noteq> [] \<and> hd (join es sep) = hd (hd es)"
  by (cases es; cases "tl es") auto

text \<open>A cleaned rooted path is not a network-path reference.\<close>

lemma path_clean_second:
  assumes "has_prefix p ''/''"
  shows "\<exists>r. path_clean p = CHR ''/'' # r \<and> (r = [] \<or> hd r \<noteq> CHR ''/'')"
proof -
  obtain es where es: "path_clean p = CHR ''/'' # join es ''/''" "list_all clean_element es"
    using path_clean_rooted [OF assms] by blast
  have "join es ''/'' = [] \<or> hd (join es ''/'') \<noteq> CHR ''/''"
  proof (cases es)
    case (Cons e fs)
    with es(2) have e: "e \<noteq> []" "CHR ''/'' \<notin> set e" by (auto simp: clean_element_def)
    with Cons join_head [of es "''/''"] show ?thesis by (auto dest: hd_in_set)
  qed simp
  with es(1) show ?thesis by blast
qed

lemma clean_elements_set: "set (clean_elements r st es) \<subseteq> set st \<union> set es"
proof (induction r st es rule: clean_elements.induct)
  case (2 r st e es)
  then show ?case by (cases st) (auto split: if_splits)
qed simp

lemma path_clean_set: "set (path_clean p) \<subseteq> set p \<union> {CHR ''/'', CHR ''.''}"
proof -
  have "set (join (clean_elements r [] (split_on (CHR ''/'') p)) ''/'') \<subseteq> set p \<union> {CHR ''/''}" for r
    using set_join [of "clean_elements r [] (split_on (CHR ''/'') p)" "''/''"]
      clean_elements_set [of r "[]" "split_on (CHR ''/'') p"] split_on_subset [of _ "CHR ''/''" p] by fastforce
  then show ?thesis unfolding path_clean_def Let_def by (auto split: if_splits)
qed

end
