(* ===== verification/Go_Json_Text.thy ===== *)
theory Go_Json_Text
  imports Go_Encoding "HOL-Library.Monad_Syntax"
begin

section \<open>UTF-8 and JSON string literals\<close>

text \<open>
  The string half of Go's \<open>encoding/json\<close>: \<open>json_escape\<close> is the text the encoder puts
  between quotes (HTML-sensitive bytes, control characters, U+2028 and U+2029 escaped,
  invalid UTF-8 replaced), \<open>scan_string\<close> is the scanner that finds the end of a string
  literal, and \<open>unquote\<close> the decoder of its contents.  The main lemmas: on valid UTF-8 the
  decoder inverts the encoder, and an escaped string contains no quote, no control character
  and no angle bracket.
\<close>

subsection \<open>UTF-8\<close>

text \<open>The length of the valid UTF-8 sequence at the head of a string, 0 if there is none.\<close>

definition utf8_tail :: "char \<Rightarrow> bool" where
  "utf8_tail c = byte_in 0x80 0xBF c"

definition utf8_seq2 :: "char \<Rightarrow> char \<Rightarrow> bool" where
  "utf8_seq2 a b \<longleftrightarrow> byte_in 0xC2 0xDF a \<and> utf8_tail b"

definition utf8_seq3 :: "char \<Rightarrow> char \<Rightarrow> char \<Rightarrow> bool" where
  "utf8_seq3 a b c \<longleftrightarrow> byte_in 0xE0 0xEF a \<and> utf8_tail b \<and> utf8_tail c
     \<and> (byte a = 0xE0 \<longrightarrow> 0xA0 \<le> byte b) \<and> (byte a = 0xED \<longrightarrow> byte b \<le> 0x9F)"

definition utf8_seq4 :: "char \<Rightarrow> char \<Rightarrow> char \<Rightarrow> char \<Rightarrow> bool" where
  "utf8_seq4 a b c d \<longleftrightarrow> byte_in 0xF0 0xF4 a \<and> utf8_tail b \<and> utf8_tail c \<and> utf8_tail d
     \<and> (byte a = 0xF0 \<longrightarrow> 0x90 \<le> byte b) \<and> (byte a = 0xF4 \<longrightarrow> byte b \<le> 0x8F)"

fun utf8_len :: "string \<Rightarrow> nat" where
  "utf8_len [] = 0"
| "utf8_len (a # s) =
     (if byte a < 128 then 1
      else case s of
        [] \<Rightarrow> 0
      | b # r \<Rightarrow>
          if utf8_seq2 a b then 2
          else (case r of
              [] \<Rightarrow> 0
            | c # q \<Rightarrow>
                if utf8_seq3 a b c then 3
                else (case q of [] \<Rightarrow> 0 | d # _ \<Rightarrow> if utf8_seq4 a b c d then 4 else 0)))"

lemma utf8_cases:
  assumes "utf8_len s \<noteq> 0"
  obtains (one) a r where "s = a # r" "byte a < 128" "utf8_len s = 1"
  | (two) a b r where "s = a # b # r" "\<not> byte a < 128" "utf8_seq2 a b" "utf8_len s = 2"
  | (three) a b c r where "s = a # b # c # r" "\<not> byte a < 128" "\<not> utf8_seq2 a b" "utf8_seq3 a b c" "utf8_len s = 3"
  | (four) a b c d r where "s = a # b # c # d # r" "\<not> byte a < 128" "\<not> utf8_seq2 a b" "\<not> utf8_seq3 a b c"
      "utf8_seq4 a b c d" "utf8_len s = 4"
  using assms by (cases s rule: utf8_len.cases) (auto split: list.splits if_splits)

lemma utf8_len_le: "utf8_len s \<le> length s"
  by (cases "utf8_len s = 0", simp) (erule utf8_cases; simp)

lemma utf8_len_append: "utf8_len s \<noteq> 0 \<Longrightarrow> utf8_len (s @ t) = utf8_len s"
  by (elim utf8_cases) simp_all

lemma utf8_len_take: "utf8_len s \<noteq> 0 \<Longrightarrow> utf8_len (take (utf8_len s) s @ t) = utf8_len s"
  by (elim utf8_cases) (simp_all add: numeral_2_eq_2 numeral_3_eq_3)

lemma utf8_tail_high: "utf8_tail c \<Longrightarrow> 128 \<le> byte c"
  by (simp add: utf8_tail_def byte_in_def)

lemma utf8_len_high: "utf8_len s \<noteq> 0 \<Longrightarrow> \<not> byte (hd s) < 128 \<Longrightarrow> \<forall>c \<in> set (take (utf8_len s) s). 128 \<le> byte c"
  by (elim utf8_cases)
    (simp_all add: numeral_2_eq_2 numeral_3_eq_3 utf8_seq2_def utf8_seq3_def utf8_seq4_def utf8_tail_high)

function valid_utf8 :: "string \<Rightarrow> bool" where
  "valid_utf8 s = (if utf8_len s = 0 then s = [] else valid_utf8 (drop (utf8_len s) s))"
  by pat_completeness auto
termination
  by (relation "measure length") (rule wf_measure, (erule utf8_cases; simp))

declare valid_utf8.simps [simp del]

lemma valid_utf8_Nil [simp]: "valid_utf8 []"
  by (subst valid_utf8.simps) simp

lemma valid_utf8_ascii [simp]: "byte c < 128 \<Longrightarrow> valid_utf8 (c # s) \<longleftrightarrow> valid_utf8 s"
  by (subst valid_utf8.simps) simp

lemma valid_utf8_ascii_string: "\<forall>c \<in> set s. byte c < 128 \<Longrightarrow> valid_utf8 s"
  by (induction s) auto

declare utf8_len.simps(2) [simp del]

text \<open>The encoding of a code point, \<open>utf8.EncodeRune\<close>.\<close>

definition encode_rune :: "nat \<Rightarrow> string" where
  "encode_rune r =
     (let r = (if 0x10FFFF < r \<or> (0xD800 \<le> r \<and> r \<le> 0xDFFF) then 0xFFFD else r)
      in if r < 0x80 then [char_of r]
         else if r < 0x800 then [char_of (0xC0 + r div 64), char_of (0x80 + r mod 64)]
         else if r < 0x10000 then
           [char_of (0xE0 + r div 4096), char_of (0x80 + r div 64 mod 64), char_of (0x80 + r mod 64)]
         else [char_of (0xF0 + r div 262144), char_of (0x80 + r div 4096 mod 64),
               char_of (0x80 + r div 64 mod 64), char_of (0x80 + r mod 64)])"

definition replacement :: string where
  "replacement = map char_of [0xEF :: nat, 0xBF, 0xBD]"

subsection \<open>Escaping\<close>

definition line_sep :: string where "line_sep = map char_of [0xE2 :: nat, 0x80, 0xA8]"
definition para_sep :: string where "para_sep = map char_of [0xE2 :: nat, 0x80, 0xA9]"

definition json_safe :: "char \<Rightarrow> bool" where
  "json_safe c \<longleftrightarrow> 32 \<le> byte c \<and> byte c < 128 \<and> c \<notin> set [CHR 0x22, CHR 0x5C, CHR ''<'', CHR ''>'', CHR ''&'']"

definition short_escapes :: "(char \<times> char) list" where
  "short_escapes =
     [(CHR 0x22, CHR 0x22), (CHR 0x5C, CHR 0x5C), (CHR 0x08, CHR ''b''), (CHR 0x0C, CHR ''f''),
      (CHR 0x0A, CHR ''n''), (CHR 0x0D, CHR ''r''), (CHR 0x09, CHR ''t'')]"

definition escape_byte :: "char \<Rightarrow> string" where
  "escape_byte c =
     (if json_safe c then [c]
      else (case map_of short_escapes c of
          Some e \<Rightarrow> [CHR 0x5C, e]
        | None \<Rightarrow> [CHR 0x5C, CHR ''u'', CHR ''0'', CHR ''0'', hex_digit (byte c div 16), hex_digit (byte c mod 16)]))"

function json_escape :: "string \<Rightarrow> string" where
  "json_escape [] = []"
| "json_escape (c # s) =
     (if byte c < 128 then escape_byte c @ json_escape s
      else if utf8_len (c # s) = 0 then [CHR 0x5C] @ ''ufffd'' @ json_escape s
      else (let q = take (utf8_len (c # s)) (c # s)
            in (if q = line_sep then [CHR 0x5C] @ ''u2028'' else if q = para_sep then [CHR 0x5C] @ ''u2029'' else q)
               @ json_escape (drop (utf8_len (c # s)) (c # s))))"
  by pat_completeness auto
termination
  by (relation "measure length") (auto simp: Suc_le_eq)

declare json_escape.simps(2) [simp del]

subsection \<open>Scanning and unquoting\<close>

definition is_hex :: "char \<Rightarrow> bool" where
  "is_hex c \<longleftrightarrow> is_digit c \<or> byte_in 97 102 c \<or> byte_in 65 70 c"

definition hex_val :: "char \<Rightarrow> nat" where
  "hex_val c = (if is_digit c then byte c - 48 else if byte_in 97 102 c then byte c - 87 else byte c - 55)"

definition simple_escapes :: "(char \<times> char) list" where
  "simple_escapes =
     [(CHR 0x22, CHR 0x22), (CHR 0x5C, CHR 0x5C), (CHR ''/'', CHR ''/''), (CHR ''b'', CHR 0x08),
      (CHR ''f'', CHR 0x0C), (CHR ''n'', CHR 0x0A), (CHR ''r'', CHR 0x0D), (CHR ''t'', CHR 0x09)]"

definition prepend :: "string \<Rightarrow> (string \<times> string) option \<Rightarrow> (string \<times> string) option" where
  "prepend p = map_option (\<lambda>(r, t). (p @ r, t))"

fun scan_string :: "string \<Rightarrow> (string \<times> string) option" where
  "scan_string [] = None"
| "scan_string (c # s) =
     (if c = CHR 0x22 then Some ([], s)
      else if byte c < 32 then None
      else if c = CHR 0x5C then
        (case s of
           [] \<Rightarrow> None
         | e # s' \<Rightarrow>
             if e = CHR ''u'' then
               (case s' of
                  w # x # y # z # s'' \<Rightarrow>
                    if is_hex w \<and> is_hex x \<and> is_hex y \<and> is_hex z
                    then prepend [c, e, w, x, y, z] (scan_string s'') else None
                | _ \<Rightarrow> None)
             else if map_of simple_escapes e \<noteq> None then prepend [c, e] (scan_string s')
             else None)
      else prepend [c] (scan_string s))"

definition hex4 :: "char \<Rightarrow> char \<Rightarrow> char \<Rightarrow> char \<Rightarrow> nat" where
  "hex4 w x y z = ((hex_val w * 16 + hex_val x) * 16 + hex_val y) * 16 + hex_val z"

text \<open>A \<open>\u\<close> escape at the head of the string, as \<open>getu4\<close> reads it.\<close>

definition get_u4 :: "string \<Rightarrow> nat option" where
  "get_u4 s = (case s of
      b # u # w # x # y # z # _ \<Rightarrow>
        if b = CHR 0x5C \<and> u = CHR ''u'' \<and> is_hex w \<and> is_hex x \<and> is_hex y \<and> is_hex z
        then Some (hex4 w x y z) else None
    | _ \<Rightarrow> None)"

definition surrogate_pair :: "nat \<Rightarrow> nat \<Rightarrow> nat option" where
  "surrogate_pair a b =
     (if 0xD800 \<le> a \<and> a < 0xDC00 \<and> 0xDC00 \<le> b \<and> b < 0xE000
      then Some ((a - 0xD800) * 1024 + (b - 0xDC00) + 0x10000) else None)"

function unquote :: "string \<Rightarrow> string option" where
  "unquote [] = Some []"
| "unquote (c # s) =
     (if c = CHR 0x5C then
        (case get_u4 (c # s) of
           Some r \<Rightarrow>
             (case (if 0xD800 \<le> r \<and> r < 0xE000 then Option.bind (get_u4 (drop 5 s)) (surrogate_pair r) else None) of
                Some p \<Rightarrow> map_option ((@) (encode_rune p)) (unquote (drop 11 s))
              | None \<Rightarrow> map_option ((@) (encode_rune r)) (unquote (drop 5 s)))
         | None \<Rightarrow>
             (case s of
                e # s' \<Rightarrow> (case map_of simple_escapes e of
                    Some b \<Rightarrow> map_option ((#) b) (unquote s')
                  | None \<Rightarrow> None)
              | [] \<Rightarrow> None))
      else if c = CHR 0x22 \<or> byte c < 32 then None
      else if byte c < 128 then map_option ((#) c) (unquote s)
      else if utf8_len (c # s) = 0 then map_option ((@) replacement) (unquote s)
      else map_option ((@) (take (utf8_len (c # s)) (c # s))) (unquote (drop (utf8_len (c # s)) (c # s))))"
  by pat_completeness auto
termination
  by (relation "measure length") (auto simp: Suc_le_eq)

declare unquote.simps(2) [simp del]

subsection \<open>The decoder inverts the encoder\<close>

text \<open>
  A chunk is what the encoder emits for one code point.  Scanning and unquoting a chunk
  followed by more text is scanning and unquoting the rest, with the chunk in front.
\<close>

definition chunk :: "string \<Rightarrow> string \<Rightarrow> bool" where
  "chunk q p \<longleftrightarrow>
     (\<forall>t. scan_string (q @ t) = prepend q (scan_string t)) \<and>
     (\<forall>t. unquote (q @ t) = map_option ((@) p) (unquote t))"

lemma hex_digit_is_hex: "n < 16 \<Longrightarrow> is_hex (hex_digit n) \<and> hex_val (hex_digit n) = n"
  by (auto simp: hex_digit_def is_hex_def hex_val_def is_digit_def byte_in_def)

lemma surrogate_small: "r < 0xD800 \<Longrightarrow> \<not> (0xD800 \<le> r \<and> r < (0xE000 :: nat))"
  by simp

lemma chunk_u:
  assumes "is_hex w" "is_hex x" "is_hex y" "is_hex z" "hex4 w x y z < 0xD800"
  shows "chunk [CHR 0x5C, CHR ''u'', w, x, y, z] (encode_rune (hex4 w x y z))"
  using assms by (simp add: chunk_def prepend_def get_u4_def unquote.simps(2))

lemma map_option_Cons: "map_option ((#) b) x = map_option ((@) [b]) x"
  by (cases x) auto

lemma chunk_simple:
  assumes "map_of simple_escapes e = Some b" "e \<noteq> CHR ''u''"
  shows "chunk [CHR 0x5C, e] [b]"
proof -
  have "get_u4 (CHR 0x5C # e # t) = None" for t
    using assms(2) by (simp add: get_u4_def split: list.splits)
  with assms show ?thesis
    by (auto simp: chunk_def prepend_def unquote.simps(2) map_option_Cons)
qed

lemma chunk_plain:
  assumes "32 \<le> byte c" "byte c < 128" "c \<noteq> CHR 0x22" "c \<noteq> CHR 0x5C"
  shows "chunk [c] [c]"
  using assms by (simp add: chunk_def prepend_def unquote.simps(2) map_option_Cons)

lemma short_escapes_simple:
  assumes "map_of short_escapes c = Some e"
  shows "map_of simple_escapes e = Some c \<and> e \<noteq> CHR ''u''"
proof -
  from assms have "(c, e) \<in> set short_escapes" by (rule map_of_SomeD)
  then show ?thesis unfolding short_escapes_def simple_escapes_def by (simp, elim disjE) simp_all
qed

lemma chunk_escape_byte:
  assumes "byte c < 128"
  shows "chunk (escape_byte c) [c]"
proof (cases "json_safe c")
  case True
  then show ?thesis by (simp add: escape_byte_def json_safe_def chunk_plain)
next
  case unsafe: False
  show ?thesis
  proof (cases "map_of short_escapes c")
    case (Some e)
    with unsafe short_escapes_simple chunk_simple show ?thesis by (simp add: escape_byte_def)
  next
    case None
    let ?w = "hex_digit (byte c div 16)" and ?x = "hex_digit (byte c mod 16)"
    have z: "is_hex (CHR ''0'')" "hex_val (CHR ''0'') = 0"
      by (simp_all add: is_hex_def hex_val_def is_digit_def byte_in_def)
    have w: "is_hex ?w" "hex_val ?w = byte c div 16" and x: "is_hex ?x" "hex_val ?x = byte c mod 16"
      using hex_digit_is_hex byte_div_16 by simp_all
    have v: "hex4 (CHR ''0'') (CHR ''0'') ?w ?x = byte c"
      unfolding hex4_def z(2) w(2) x(2) by simp
    moreover have "encode_rune (byte c) = [c]" using assms by (simp add: encode_rune_def)
    ultimately have "chunk [CHR 0x5C, CHR ''u'', CHR ''0'', CHR ''0'', ?w, ?x] [c]"
      using chunk_u [OF z(1) z(1) w(1) x(1)] assms by simp
    with unsafe None show ?thesis by (simp add: escape_byte_def)
  qed
qed

lemma scan_high:
  "\<forall>c \<in> set q. 128 \<le> byte c \<Longrightarrow> scan_string (q @ t) = prepend q (scan_string t)"
proof (induction q)
  case Nil
  then show ?case by (cases "scan_string t") (simp_all add: prepend_def)
next
  case (Cons c q)
  from Cons.prems have "c \<noteq> CHR 0x22" "c \<noteq> CHR 0x5C" "\<not> byte c < 32" by auto
  with Cons show ?case
    by (cases "scan_string t") (auto simp: prepend_def)
qed

lemma chunk_utf8:
  assumes "utf8_len s \<noteq> 0" "\<not> byte (hd s) < 128"
  shows "chunk (take (utf8_len s) s) (take (utf8_len s) s)"
proof -
  let ?q = "take (utf8_len s) s"
  have q: "?q \<noteq> []" using assms(1) by (cases s) auto
  then obtain c q' where cq: "?q = c # q'" by (cases ?q) auto
  have high: "\<forall>c \<in> set ?q. 128 \<le> byte c" using utf8_len_high [OF assms] .
  have n: "length ?q = utf8_len s" using utf8_len_le [of s] by simp
  have "unquote (?q @ t) = map_option ((@) ?q) (unquote t)" for t
  proof -
    have l: "utf8_len (c # (q' @ t)) = length (c # q')"
      using utf8_len_take [OF assms(1), of t] n cq by simp
    have "128 \<le> byte c" using high cq by simp
    then have "c \<noteq> CHR 0x22" "c \<noteq> CHR 0x5C" "\<not> byte c < 32" "\<not> byte c < 128" by auto
    then have "unquote (c # (q' @ t)) = map_option ((@) (take (length (c # q')) (c # (q' @ t))))
        (unquote (drop (length (c # q')) (c # (q' @ t))))"
      by (simp only: unquote.simps(2) l if_False simp_thms) simp
    then show ?thesis unfolding cq by simp
  qed
  with scan_high [OF high] show ?thesis by (simp add: chunk_def)
qed

lemma chunk_separators:
  "chunk ([CHR 0x5C] @ ''u2028'') line_sep" "chunk ([CHR 0x5C] @ ''u2029'') para_sep"
proof -
  have h: "is_hex (CHR ''0'')" "is_hex (CHR ''2'')" "is_hex (CHR ''8'')" "is_hex (CHR ''9'')"
    by (simp_all add: is_hex_def is_digit_def byte_in_def)
  have v: "hex4 (CHR ''2'') (CHR ''0'') (CHR ''2'') (CHR ''8'') = 0x2028"
    "hex4 (CHR ''2'') (CHR ''0'') (CHR ''2'') (CHR ''9'') = 0x2029"
    by (simp_all add: hex4_def hex_val_def is_digit_def byte_in_def)
  have e: "encode_rune 0x2028 = line_sep" "encode_rune 0x2029 = para_sep"
    by (simp_all add: encode_rune_def line_sep_def para_sep_def)
  show "chunk ([CHR 0x5C] @ ''u2028'') line_sep" "chunk ([CHR 0x5C] @ ''u2029'') para_sep"
    using chunk_u [OF h(2) h(1) h(2) h(3)] chunk_u [OF h(2) h(1) h(2) h(4)] v e by simp_all
qed

lemma json_escape_scan_unquote:
  assumes "valid_utf8 s"
  shows "scan_string (json_escape s @ CHR 0x22 # t) = Some (json_escape s, t)
    \<and> unquote (json_escape s) = Some s"
  using assms
proof (induction s rule: json_escape.induct)
  case (2 c s)
  have step: ?case
    if e: "json_escape (c # s) = q @ json_escape r" and "chunk q p" and s: "c # s = p @ r"
      and IH: "scan_string (json_escape r @ CHR 0x22 # t) = Some (json_escape r, t) \<and> unquote (json_escape r) = Some r"
    for q p r
    using that unfolding e s by (simp add: chunk_def prepend_def)
  show ?case
  proof (cases "byte c < 128")
    case True
    with 2 show ?thesis
      by (intro step [of "escape_byte c" s "[c]"]) (simp_all add: json_escape.simps(2) chunk_escape_byte)
  next
    case False
    let ?n = "utf8_len (c # s)"
    let ?q = "take ?n (c # s)" and ?r = "drop ?n (c # s)"
    from 2(4) have v: "?n \<noteq> 0" "valid_utf8 ?r" 
      using False by (simp_all add: valid_utf8.simps [of "c # s"] split: if_splits)
    have IH: "scan_string (json_escape ?r @ CHR 0x22 # t) = Some (json_escape ?r, t) \<and> unquote (json_escape ?r) = Some ?r"
      by (rule 2(3) [OF False v(1) refl v(2)])
    have eq: "json_escape (c # s) =
        (if ?q = line_sep then [CHR 0x5C] @ ''u2028'' else if ?q = para_sep then [CHR 0x5C] @ ''u2029'' else ?q)
        @ json_escape ?r"
      using False v(1) by (simp only: json_escape.simps(2) if_False Let_def)
    have "chunk (if ?q = line_sep then [CHR 0x5C] @ ''u2028''
        else if ?q = para_sep then [CHR 0x5C] @ ''u2029'' else ?q) ?q"
      using chunk_separators chunk_utf8 [OF v(1)] False by simp
    from step [OF eq this _ IH] show ?thesis by simp
  qed
qed simp

lemma scan_json_escape: "valid_utf8 s \<Longrightarrow> scan_string (json_escape s @ CHR 0x22 # t) = Some (json_escape s, t)"
  using json_escape_scan_unquote by blast

theorem unquote_json_escape: "valid_utf8 s \<Longrightarrow> unquote (json_escape s) = Some s"
  using json_escape_scan_unquote by blast

text \<open>The encoder's string literal lexes back, whatever the bytes were.\<close>

lemma scan_json_escape_any: "scan_string (json_escape s @ CHR 0x22 # t) = Some (json_escape s, t)"
proof (induction s rule: json_escape.induct)
  case (2 c s)
  have step: ?case
    if "json_escape (c # s) = q @ json_escape r" "scan_string (q @ json_escape r @ CHR 0x22 # t) = prepend q (scan_string (json_escape r @ CHR 0x22 # t))"
      "scan_string (json_escape r @ CHR 0x22 # t) = Some (json_escape r, t)" for q r
    using that(2) unfolding that(1) that(3) by (simp add: prepend_def)
  have scan: "scan_string (q @ u) = prepend q (scan_string u)" if "chunk q p" for q p u
    using that by (simp add: chunk_def)
  show ?case
  proof (cases "byte c < 128")
    case True
    have "json_escape (c # s) = escape_byte c @ json_escape s" using True by (simp add: json_escape.simps(2))
    from step [OF this scan [OF chunk_escape_byte [OF True]] 2(1) [OF True]] show ?thesis .
  next
    case False
    show ?thesis
    proof (cases "utf8_len (c # s) = 0")
      case True
      have h: "is_hex (CHR ''f'')" "is_hex (CHR ''d'')" by code_simp+
      have eq: "json_escape (c # s) = ([CHR 0x5C] @ ''ufffd'') @ json_escape s"
        using True False by (simp add: json_escape.simps(2))
      have "scan_string (([CHR 0x5C] @ ''ufffd'') @ u) = prepend ([CHR 0x5C] @ ''ufffd'') (scan_string u)" for u
        using h by (simp add: prepend_def)
      from step [OF eq this 2(2) [OF False True]] show ?thesis .
    next
      case n: False
      let ?q = "take (utf8_len (c # s)) (c # s)"
      let ?e = "if ?q = line_sep then [CHR 0x5C] @ ''u2028'' else if ?q = para_sep then [CHR 0x5C] @ ''u2029'' else ?q"
      have "chunk ?e ?q" using chunk_separators chunk_utf8 [OF n] False by simp
      note k = scan [OF this]
      have eq: "json_escape (c # s) = ?e @ json_escape (drop (utf8_len (c # s)) (c # s))"
        using False n by (simp only: json_escape.simps(2) if_False Let_def)
      from step [OF eq k 2(3) [OF False n refl]] show ?thesis .
    qed
  qed
qed simp

subsection \<open>What an escaped string cannot contain\<close>

definition html_inert :: "char \<Rightarrow> bool" where
  "html_inert c \<longleftrightarrow> c \<noteq> CHR ''<'' \<and> c \<noteq> CHR ''>'' \<and> c \<noteq> CHR ''&'' \<and> 32 \<le> byte c"

lemma is_hex_inert: "is_hex c \<Longrightarrow> html_inert c"
  by (auto simp: html_inert_def is_hex_def is_digit_def byte_in_def)

lemma hex_digit_inert: "n < 16 \<Longrightarrow> html_inert (hex_digit n)"
  by (simp add: is_hex_inert hex_digit_is_hex)

lemma escape_byte_inert: "\<forall>x \<in> set (escape_byte c). html_inert x"
proof (cases "json_safe c")
  case True
  then show ?thesis by (simp add: escape_byte_def json_safe_def html_inert_def)
next
  case unsafe: False
  show ?thesis
  proof (cases "map_of short_escapes c")
    case None
    with unsafe show ?thesis
      by (simp add: escape_byte_def hex_digit_inert byte_div_16) (simp add: html_inert_def)
  next
    case (Some e)
    then have "(c, e) \<in> set short_escapes" by (rule map_of_SomeD)
    then have "html_inert e" unfolding short_escapes_def by (simp, elim disjE) (simp_all add: html_inert_def)
    with Some unsafe show ?thesis by (simp add: escape_byte_def) (simp add: html_inert_def)
  qed
qed

lemma utf8_high_inert: "\<forall>c \<in> set q. 128 \<le> byte c \<Longrightarrow> \<forall>c \<in> set q. html_inert c"
  by (auto simp: html_inert_def)

lemma json_escape_inert: "\<forall>x \<in> set (json_escape s). html_inert x"
proof (induction s rule: json_escape.induct)
  case (2 c s)
  show ?case
  proof (cases "byte c < 128 \<or> utf8_len (c # s) = 0")
    case True
    with 2 escape_byte_inert show ?thesis
      by (auto simp: json_escape.simps(2)) (auto simp: html_inert_def)
  next
    case False
    let ?q = "take (utf8_len (c # s)) (c # s)"
    have "\<forall>x \<in> set ?q. html_inert x"
      using utf8_len_high [of "c # s"] False by (intro utf8_high_inert) simp
    moreover have "\<forall>x \<in> set ([CHR 0x5C] @ ''u2028''). html_inert x"
      "\<forall>x \<in> set ([CHR 0x5C] @ ''u2029''). html_inert x"
      by (simp_all add: html_inert_def)
    moreover have "\<forall>x \<in> set (json_escape (drop (utf8_len (c # s)) (c # s))). html_inert x"
      using 2(3) False by blast
    ultimately show ?thesis using False
      by (simp only: json_escape.simps(2) Let_def if_False de_Morgan_disj) auto
  qed
qed simp

end
