(* ===== verification/Go_Json.thy ===== *)
theory Go_Json
  imports Go_Json_Text
begin

section \<open>JSON documents: printing, lexing, parsing and decoding into structs\<close>

text \<open>
  A JSON value keeps the raw text of its string and number literals, as \<open>encoding/json\<close>
  decodes them only when it knows the target type.  A document is printed as the
  concatenation of its tokens.  Reading is a lexer over bytes followed by a stack machine
  over tokens with the decoder's nesting limit.  Decoding into a struct matches field names
  exactly or under case folding, ignores unknown fields, lets a later duplicate win and
  fails if any field has the wrong type.
\<close>

datatype json =
    JNull
  | JBool bool
  | JNum string
  | JStr string
  | JArr "json list"
  | JObj "(string \<times> json) list"

datatype token =
    TLBrace | TRBrace | TLBrack | TRBrack | TColon | TComma
  | TStr string | TNum string | TTrue | TFalse | TNull

subsection \<open>Printing\<close>

fun token_text :: "token \<Rightarrow> string" where
  "token_text TLBrace = ''{''"
| "token_text TRBrace = ''}''"
| "token_text TLBrack = ''[''"
| "token_text TRBrack = '']''"
| "token_text TColon = '':''"
| "token_text TComma = '',''"
| "token_text (TStr s) = [CHR 0x22] @ s @ [CHR 0x22]"
| "token_text (TNum s) = s"
| "token_text TTrue = ''true''"
| "token_text TFalse = ''false''"
| "token_text TNull = ''null''"

text \<open>Lists of values or of members, with commas between them.\<close>

fun sep_commas :: "token list list \<Rightarrow> token list" where
  "sep_commas [] = []"
| "sep_commas [t] = t"
| "sep_commas (t # u # us) = t @ [TComma] @ sep_commas (u # us)"

fun tokens_of :: "json \<Rightarrow> token list" where
  "tokens_of JNull = [TNull]"
| "tokens_of (JBool b) = [if b then TTrue else TFalse]"
| "tokens_of (JNum n) = [TNum n]"
| "tokens_of (JStr s) = [TStr s]"
| "tokens_of (JArr vs) = [TLBrack] @ sep_commas (map tokens_of vs) @ [TRBrack]"
| "tokens_of (JObj kvs) = [TLBrace] @ sep_commas (map (\<lambda>(k, v). [TStr k, TColon] @ tokens_of v) kvs) @ [TRBrace]"

definition print_json :: "json \<Rightarrow> string" where
  "print_json v = concat (map token_text (tokens_of v))"

text \<open>The encoder's strings and integers.\<close>

definition jstring :: "string \<Rightarrow> json" where
  "jstring s = JStr (json_escape s)"

definition jint :: "int \<Rightarrow> json" where
  "jint i = JNum (itoa i)"

definition jobject :: "(string \<times> json) list \<Rightarrow> json" where
  "jobject kvs = JObj (map (\<lambda>(k, v). (json_escape k, v)) kvs)"

subsection \<open>Lexing\<close>

definition is_json_space :: "char \<Rightarrow> bool" where
  "is_json_space c \<longleftrightarrow> c = CHR '' '' \<or> c = CHR 0x09 \<or> c = CHR 0x0A \<or> c = CHR 0x0D"

text \<open>The four parts of a number literal; each returns what it took and what is left.\<close>

definition lex_int :: "string \<Rightarrow> (string \<times> string) option" where
  "lex_int s = (case s of
      c # r \<Rightarrow>
        if c = CHR ''0'' then Some ([c], r)
        else if is_digit c then Some (takeWhile is_digit s, dropWhile is_digit s)
        else None
    | [] \<Rightarrow> None)"

definition lex_digits :: "string \<Rightarrow> (string \<times> string) option" where
  "lex_digits s =
     (if takeWhile is_digit s = [] then None else Some (takeWhile is_digit s, dropWhile is_digit s))"

definition lex_frac :: "string \<Rightarrow> (string \<times> string) option" where
  "lex_frac s = (case s of
      c # r \<Rightarrow> if c = CHR ''.'' then prepend [c] (lex_digits r) else Some ([], s)
    | [] \<Rightarrow> Some ([], s))"

definition lex_exp :: "string \<Rightarrow> (string \<times> string) option" where
  "lex_exp s = (case s of
      c # r \<Rightarrow>
        if c = CHR ''e'' \<or> c = CHR ''E'' then
          (case r of
             d # q \<Rightarrow> if d = CHR ''+'' \<or> d = CHR ''-'' then prepend [c, d] (lex_digits q)
                      else prepend [c] (lex_digits r)
           | [] \<Rightarrow> None)
        else Some ([], s)
    | [] \<Rightarrow> Some ([], s))"

definition lex_unsigned :: "string \<Rightarrow> (string \<times> string) option" where
  "lex_unsigned s = do {
     (a, s1) \<leftarrow> lex_int s;
     (b, s2) \<leftarrow> lex_frac s1;
     (c, s3) \<leftarrow> lex_exp s2;
     Some (a @ b @ c, s3)
   }"

definition lex_number :: "string \<Rightarrow> (string \<times> string) option" where
  "lex_number s = (case s of
      c # r \<Rightarrow> if c = CHR ''-'' then prepend [c] (lex_unsigned r) else lex_unsigned s
    | [] \<Rightarrow> None)"

definition lex_punct :: "(char \<times> token) list" where
  "lex_punct =
     [(CHR ''{'', TLBrace), (CHR ''}'', TRBrace), (CHR ''['', TLBrack), (CHR '']'', TRBrack),
      (CHR '':'', TColon), (CHR '','', TComma)]"

text \<open>One token at the head of a string that does not start with white space.\<close>

definition lex_token :: "string \<Rightarrow> (token \<times> string) option" where
  "lex_token s = (case s of
      [] \<Rightarrow> None
    | c # r \<Rightarrow>
        (case map_of lex_punct c of
           Some t \<Rightarrow> Some (t, r)
         | None \<Rightarrow>
             if c = CHR 0x22 then map_option (\<lambda>(a, q). (TStr a, q)) (scan_string r)
             else if has_prefix s ''true'' then Some (TTrue, drop 4 s)
             else if has_prefix s ''false'' then Some (TFalse, drop 5 s)
             else if has_prefix s ''null'' then Some (TNull, drop 4 s)
             else map_option (\<lambda>(a, q). (TNum a, q)) (lex_number s)))"

lemma prepend_Some: "prepend p x = Some (a, b) \<longleftrightarrow> (\<exists>r. x = Some (r, b) \<and> a = p @ r)"
  by (cases x) (auto simp: prepend_def)

lemma scan_string_length: "scan_string s = Some (a, r) \<Longrightarrow> length r < length s"
  by (induction s arbitrary: a r rule: scan_string.induct)
    (force simp: prepend_Some split: if_splits list.splits)+

lemma dropWhile_shorter: "s \<noteq> [] \<Longrightarrow> P (hd s) \<Longrightarrow> length (dropWhile P s) < length s"
  by (cases s) (auto simp: less_Suc_eq_le length_dropWhile_le)

lemma lex_parts_length:
  "lex_int s = Some (a, r) \<Longrightarrow> length r < length s"
  "lex_digits s = Some (a, r) \<Longrightarrow> length r < length s"
proof -
  show "lex_int s = Some (a, r) \<Longrightarrow> length r < length s"
    by (cases s) (auto simp: lex_int_def less_Suc_eq_le length_dropWhile_le split: if_splits)
  show "lex_digits s = Some (a, r) \<Longrightarrow> length r < length s"
    by (cases s) (auto simp: lex_digits_def less_Suc_eq_le length_dropWhile_le split: if_splits)
qed

lemma lex_tail_length:
  "lex_frac s = Some (a, r) \<Longrightarrow> length r \<le> length s"
  "lex_exp s = Some (a, r) \<Longrightarrow> length r \<le> length s"
  by (auto simp: lex_frac_def lex_exp_def prepend_Some dest!: lex_parts_length(2)
      split: list.splits if_splits)

lemma lex_unsigned_length: "lex_unsigned s = Some (a, r) \<Longrightarrow> length r < length s"
  by (fastforce simp: lex_unsigned_def bind_eq_Some_conv split: prod.splits
      dest: lex_parts_length(1) lex_tail_length)

lemma lex_number_length: "lex_number s = Some (a, r) \<Longrightarrow> length r < length s"
  by (auto simp: lex_number_def prepend_Some dest!: lex_unsigned_length split: list.splits if_splits)

lemma lex_token_length: "lex_token s = Some (t, r) \<Longrightarrow> length r < length s"
  by (auto simp: lex_token_def split: list.splits option.splits if_splits
      dest!: lex_number_length scan_string_length)

function lex :: "string \<Rightarrow> token list option" where
  "lex s =
     (case s of
        [] \<Rightarrow> Some []
      | c # r \<Rightarrow>
          if is_json_space c then lex r
          else (case lex_token s of
              None \<Rightarrow> None
            | Some (t, q) \<Rightarrow> map_option ((#) t) (lex q)))"
  by pat_completeness auto
termination
  by (relation "measure length") (auto dest: lex_token_length)

declare lex.simps [simp del]

subsection \<open>Parsing\<close>

text \<open>
  The stack holds the open arrays and objects; a value that is complete is delivered to the
  innermost one.  \<open>PDone\<close> is the state after the top-level value.
\<close>

datatype frame = FArr "json list" | FObj "(string \<times> json) list" | FKey "(string \<times> json) list" string
datatype pmode = PVal | PValOrEnd | PKeyOrEnd | PKey | PColon | PAfter | PDone json | PBad

definition max_nesting :: nat where "max_nesting = 10000"

fun deliver :: "json \<Rightarrow> frame list \<Rightarrow> pmode \<times> frame list" where
  "deliver v [] = (PDone v, [])"
| "deliver v (FArr vs # st) = (PAfter, FArr (v # vs) # st)"
| "deliver v (FKey kvs k # st) = (PAfter, FObj ((k, v) # kvs) # st)"
| "deliver v (FObj kvs # st) = (PBad, [])"

definition push_frame :: "pmode \<Rightarrow> frame \<Rightarrow> frame list \<Rightarrow> pmode \<times> frame list" where
  "push_frame m f st = (if length st < max_nesting then (m, f # st) else (PBad, []))"

fun value_token :: "token \<Rightarrow> frame list \<Rightarrow> pmode \<times> frame list" where
  "value_token TNull st = deliver JNull st"
| "value_token TTrue st = deliver (JBool True) st"
| "value_token TFalse st = deliver (JBool False) st"
| "value_token (TStr s) st = deliver (JStr s) st"
| "value_token (TNum n) st = deliver (JNum n) st"
| "value_token TLBrack st = push_frame PValOrEnd (FArr []) st"
| "value_token TLBrace st = push_frame PKeyOrEnd (FObj []) st"
| "value_token _ st = (PBad, [])"

definition bad_state :: "pmode \<times> frame list" where
  "bad_state = (PBad, [])"

fun close_array :: "frame list \<Rightarrow> pmode \<times> frame list" where
  "close_array (FArr vs # st) = deliver (JArr (rev vs)) st"
| "close_array _ = bad_state"

fun close_object :: "frame list \<Rightarrow> pmode \<times> frame list" where
  "close_object (FObj kvs # st) = deliver (JObj (rev kvs)) st"
| "close_object _ = bad_state"

fun next_item :: "frame list \<Rightarrow> pmode \<times> frame list" where
  "next_item (FArr vs # st) = (PVal, FArr vs # st)"
| "next_item (FObj kvs # st) = (PKey, FObj kvs # st)"
| "next_item _ = bad_state"

fun key_token :: "token \<Rightarrow> frame list \<Rightarrow> pmode \<times> frame list" where
  "key_token (TStr k) (FObj kvs # st) = (PColon, FKey kvs k # st)"
| "key_token _ _ = bad_state"

definition parse_step :: "pmode \<Rightarrow> frame list \<Rightarrow> token \<Rightarrow> pmode \<times> frame list" where
  "parse_step m st t = (case m of
      PVal \<Rightarrow> value_token t st
    | PValOrEnd \<Rightarrow> if t = TRBrack then close_array st else value_token t st
    | PKeyOrEnd \<Rightarrow> if t = TRBrace then close_object st else key_token t st
    | PKey \<Rightarrow> key_token t st
    | PColon \<Rightarrow> if t = TColon then (PVal, st) else bad_state
    | PAfter \<Rightarrow>
        if t = TComma then next_item st
        else if t = TRBrack then close_array st
        else if t = TRBrace then close_object st
        else bad_state
    | PDone v \<Rightarrow> bad_state
    | PBad \<Rightarrow> bad_state)"

fun parse_run :: "pmode \<times> frame list \<Rightarrow> token list \<Rightarrow> json option" where
  "parse_run (m, st) [] = (case m of PDone v \<Rightarrow> Some v | _ \<Rightarrow> None)"
| "parse_run (m, st) (t # ts) = parse_run (parse_step m st t) ts"

definition parse_json :: "string \<Rightarrow> json option" where
  "parse_json s = Option.bind (lex s) (parse_run (PVal, []))"

subsection \<open>Parsing inverts printing\<close>

text \<open>
  Literals the lexer takes back exactly: a string literal ends at its closing quote, a number
  literal at any byte that cannot extend a number.
\<close>

definition string_literal :: "string \<Rightarrow> bool" where
  "string_literal s \<longleftrightarrow> (\<forall>t. scan_string (s @ CHR 0x22 # t) = Some (s, t))"

definition number_byte :: "char \<Rightarrow> bool" where
  "number_byte c \<longleftrightarrow> is_digit c \<or> c \<in> set ''+-.eE''"

definition number_literal :: "string \<Rightarrow> bool" where
  "number_literal s \<longleftrightarrow> s \<noteq> [] \<and> (is_digit (hd s) \<or> hd s = CHR ''-'') \<and>
     (\<forall>t. (t = [] \<or> \<not> number_byte (hd t)) \<longrightarrow> lex_number (s @ t) = Some (s, t))"

fun good_token :: "token \<Rightarrow> bool" where
  "good_token (TStr s) = string_literal s"
| "good_token (TNum s) = number_literal s"
| "good_token _ = True"

fun is_num_token :: "token \<Rightarrow> bool" where
  "is_num_token (TNum s) = True"
| "is_num_token _ = False"

text \<open>Tokens that print and lex back: every literal is good, and no number follows a number.\<close>

fun good_tokens :: "token list \<Rightarrow> bool" where
  "good_tokens [] = True"
| "good_tokens [t] = good_token t"
| "good_tokens (t # u # ts) = (good_token t \<and> (is_num_token t \<longrightarrow> \<not> is_num_token u) \<and> good_tokens (u # ts))"

lemma number_head:
  assumes "number_literal s"
  shows "\<exists>c r. s = c # r \<and> map_of lex_punct c = None \<and> c \<noteq> CHR 0x22 \<and> c \<noteq> CHR ''t'' \<and> c \<noteq> CHR ''f''
    \<and> c \<noteq> CHR ''n'' \<and> \<not> is_json_space c"
proof -
  from assms obtain c r where s: "s = c # r" "is_digit c \<or> c = CHR ''-''"
    by (cases s) (auto simp: number_literal_def)
  then have "c \<notin> set ''{}[]:,tfn '' \<and> c \<noteq> CHR 0x22 \<and> c \<noteq> CHR 0x09 \<and> c \<noteq> CHR 0x0A \<and> c \<noteq> CHR 0x0D"
    by (auto simp: is_digit_def byte_in_def)
  with s show ?thesis by (simp add: lex_punct_def is_json_space_def)
qed

lemma token_text_head:
  "good_token t \<Longrightarrow> \<not> is_num_token t \<Longrightarrow> token_text t \<noteq> [] \<and> \<not> number_byte (hd (token_text t))"
  by (cases t) (auto simp: number_byte_def is_digit_def byte_in_def)

lemma lex_token_text:
  assumes "good_token t" "is_num_token t \<longrightarrow> r = [] \<or> \<not> number_byte (hd r)"
  shows "lex_token (token_text t @ r) = Some (t, r)"
proof (cases t)
  case (TNum s)
  with assms obtain c q where c: "s = c # q" "map_of lex_punct c = None" "c \<noteq> CHR 0x22" "c \<noteq> CHR ''t''"
    "c \<noteq> CHR ''f''" "c \<noteq> CHR ''n''" using number_head by force
  have "lex_number (c # q @ r) = Some (c # q, r)"
    using assms TNum c(1) by (auto simp: number_literal_def)
  with TNum c show ?thesis by (simp add: lex_token_def)
qed (use assms in \<open>simp_all add: lex_token_def lex_punct_def string_literal_def\<close>)

lemma token_text_start: "good_token t \<Longrightarrow> \<exists>c q. token_text t = c # q \<and> \<not> is_json_space c"
  by (cases t) (auto simp: is_json_space_def dest!: number_head)

text \<open>The text of tokens lexes back, also before white space.\<close>

lemma lex_token_texts_then:
  assumes "good_tokens ts" "lex r = Some []" "r = [] \<or> \<not> number_byte (hd r)"
  shows "lex (concat (map token_text ts) @ r) = Some ts"
  using assms(1)
proof (induction ts rule: good_tokens.induct)
  case 1
  show ?case by (simp add: assms(2))
next
  case (2 t)
  then have "good_token t" by simp
  then obtain c q where c: "token_text t = c # q" "\<not> is_json_space c" using token_text_start by blast
  have "lex_token (token_text t @ r) = Some (t, r)" using \<open>good_token t\<close> assms(3) by (intro lex_token_text) auto
  with c show ?case by (simp add: lex.simps [of "c # q @ r"] assms(2))
next
  case (3 t u ts)
  let ?r = "concat (map token_text (u # ts)) @ r"
  have "good_token t" using 3 by simp
  then obtain c q where c: "token_text t = c # q" "\<not> is_json_space c" using token_text_start by blast
  have "good_token u" using 3 by (cases ts) auto
  then have "is_num_token t \<longrightarrow> ?r = [] \<or> \<not> number_byte (hd ?r)" using 3 token_text_head [of u] by auto
  with 3 have "lex_token (token_text t @ ?r) = Some (t, ?r)" by (intro lex_token_text) auto
  moreover have "lex ?r = Some (u # ts)" using 3 by simp
  ultimately have "lex (token_text t @ ?r) = Some (t # u # ts)"
    using c by (simp only: c(1) append_Cons lex.simps [of "c # (q @ ?r)"]) simp
  then show ?case by simp
qed

lemma good_tokens_mid:
  "\<not> is_num_token p \<Longrightarrow> good_tokens (a @ p # b) \<longleftrightarrow> good_tokens a \<and> good_token p \<and> good_tokens b"
proof (induction a rule: good_tokens.induct)
  case 1
  then show ?case by (cases b) auto
next
  case (2 t)
  then show ?case by (cases b) auto
qed auto

lemma good_tokens_sep:
  "(\<forall>t \<in> set tss. good_tokens t) \<Longrightarrow> good_tokens (sep_commas tss)"
  by (induction tss rule: sep_commas.induct) (auto simp: good_tokens_mid)

fun good_json :: "json \<Rightarrow> bool" where
  "good_json (JStr s) = string_literal s"
| "good_json (JNum n) = number_literal n"
| "good_json (JArr vs) = (\<forall>v \<in> set vs. good_json v)"
| "good_json (JObj kvs) = (\<forall>(k, v) \<in> set kvs. string_literal k \<and> good_json v)"
| "good_json _ = True"

fun json_depth :: "json \<Rightarrow> nat" where
  "json_depth (JArr vs) = Suc (foldr max (map json_depth vs) 0)"
| "json_depth (JObj kvs) = Suc (foldr max (map (\<lambda>(k, v). json_depth v) kvs) 0)"
| "json_depth _ = 0"

lemma foldr_max_ge: "x \<in> set xs \<Longrightarrow> x \<le> foldr max xs (0 :: nat)"
  by (induction xs) auto

lemma good_tokens_of: "good_json v \<Longrightarrow> good_tokens (tokens_of v)"
proof (induction v)
  case (JArr vs)
  then have "good_tokens (sep_commas (map tokens_of vs))" by (intro good_tokens_sep) auto
  then show ?case
    using good_tokens_mid [of TLBrack "[]"] good_tokens_mid [of TRBrack _ "[]"] by simp
next
  case (JObj kvs)
  have "good_tokens ([TStr k, TColon] @ tokens_of v)" if "(k, v) \<in> set kvs" for k v
    using that JObj good_tokens_mid [of TColon "[TStr k]" "tokens_of v"] by fastforce
  then have "good_tokens (sep_commas (map (\<lambda>(k, v). [TStr k, TColon] @ tokens_of v) kvs))"
    by (intro good_tokens_sep) auto
  then show ?case
    using good_tokens_mid [of TLBrace "[]"] good_tokens_mid [of TRBrace _ "[]"] by simp
qed auto

lemma tokens_of_start: "\<exists>t ts. tokens_of v = t # ts \<and> t \<noteq> TRBrack \<and> t \<noteq> TRBrace"
  by (cases v) auto

definition reads :: "json \<Rightarrow> bool" where
  "reads v \<longleftrightarrow> (\<forall>st ts. length st + json_depth v \<le> max_nesting \<longrightarrow>
     parse_run (PVal, st) (tokens_of v @ ts) = parse_run (deliver v st) ts)"

lemma parse_elements:
  assumes "\<forall>v \<in> set (v # vs). reads v \<and> Suc (length st) + json_depth v \<le> max_nesting"
  shows "parse_run (PVal, FArr acc # st) (sep_commas (map tokens_of (v # vs)) @ TRBrack # ts)
    = parse_run (deliver (JArr (rev acc @ v # vs)) st) ts"
  using assms
proof (induction vs arbitrary: v acc)
  case Nil
  then show ?case by (simp add: reads_def parse_step_def)
next
  case (Cons u us)
  then have "parse_run (PVal, FArr acc # st) (tokens_of v @ TComma # sep_commas (map tokens_of (u # us)) @ TRBrack # ts)
      = parse_run (PAfter, FArr (v # acc) # st) (TComma # sep_commas (map tokens_of (u # us)) @ TRBrack # ts)"
    by (simp add: reads_def)
  also have "\<dots> = parse_run (PVal, FArr (v # acc) # st) (sep_commas (map tokens_of (u # us)) @ TRBrack # ts)"
    by (simp add: parse_step_def)
  also have "\<dots> = parse_run (deliver (JArr (rev (v # acc) @ u # us)) st) ts"
    using Cons.prems by (intro Cons.IH) simp
  finally show ?case by simp
qed

definition member_tokens :: "string \<times> json \<Rightarrow> token list" where
  "member_tokens kv = (case kv of (k, v) \<Rightarrow> [TStr k, TColon] @ tokens_of v)"

lemma parse_members:
  assumes "\<forall>(k, v) \<in> set (kv # kvs). reads v \<and> Suc (length st) + json_depth v \<le> max_nesting"
  shows "parse_run (PKey, FObj acc # st) (sep_commas (map member_tokens (kv # kvs)) @ TRBrace # ts)
    = parse_run (deliver (JObj (rev acc @ kv # kvs)) st) ts"
  using assms
proof (induction kvs arbitrary: kv acc)
  case Nil
  then show ?case by (cases kv) (simp add: reads_def parse_step_def member_tokens_def)
next
  case (Cons m ms)
  obtain k v where kv: "kv = (k, v)" by (cases kv)
  have "parse_run (PKey, FObj acc # st) (member_tokens kv @ TComma # sep_commas (map member_tokens (m # ms)) @ TRBrace # ts)
      = parse_run (PAfter, FObj (kv # acc) # st) (TComma # sep_commas (map member_tokens (m # ms)) @ TRBrace # ts)"
    using Cons.prems by (simp add: kv reads_def parse_step_def member_tokens_def)
  also have "\<dots> = parse_run (PKey, FObj (kv # acc) # st) (sep_commas (map member_tokens (m # ms)) @ TRBrace # ts)"
    by (simp add: parse_step_def)
  also have "\<dots> = parse_run (deliver (JObj (rev (kv # acc) @ m # ms)) st) ts"
    using Cons.prems by (intro Cons.IH) simp
  finally show ?case by simp
qed

lemma parse_value_or_end:
  assumes "tokens_of v @ ts = t # us"
  shows "parse_run (PValOrEnd, st) (t # us) = parse_run (PVal, st) (t # us)"
  using assms tokens_of_start [of v] by (auto simp: parse_step_def)

lemma reads_json: "reads v"
proof (induction v)
  case (JArr vs)
  show ?case
    unfolding reads_def
  proof (intro allI impI)
    fix st :: "frame list" and ts
    assume d: "length st + json_depth (JArr vs) \<le> max_nesting"
    have el: "\<forall>v \<in> set vs. reads v \<and> Suc (length st) + json_depth v \<le> max_nesting"
      using JArr d foldr_max_ge [of _ "map json_depth vs"] by fastforce
    show "parse_run (PVal, st) (tokens_of (JArr vs) @ ts) = parse_run (deliver (JArr vs) st) ts"
    proof (cases vs)
      case Nil
      with d show ?thesis by (simp add: parse_step_def push_frame_def)
    next
      case (Cons u us)
      let ?body = "sep_commas (map tokens_of (u # us)) @ TRBrack # ts"
      obtain t r where t: "?body = t # r" "t \<noteq> TRBrack"
        using tokens_of_start [of u] by (cases us) auto
      have "parse_run (PVal, st) (tokens_of (JArr vs) @ ts) = parse_run (PValOrEnd, FArr [] # st) ?body"
        using d Cons by (simp add: parse_step_def push_frame_def)
      also have "\<dots> = parse_run (PVal, FArr [] # st) ?body" unfolding t(1) using t(2) by (simp add: parse_step_def)
      also have "\<dots> = parse_run (deliver (JArr vs) st) ts"
        using parse_elements [of u us st "[]"] el Cons by simp
      finally show ?thesis .
    qed
  qed
next
  case (JObj kvs)
  show ?case
    unfolding reads_def
  proof (intro allI impI)
    fix st :: "frame list" and ts
    assume d: "length st + json_depth (JObj kvs) \<le> max_nesting"
    have el: "\<forall>(k, v) \<in> set kvs. reads v \<and> Suc (length st) + json_depth v \<le> max_nesting"
      using JObj d foldr_max_ge [of _ "map (\<lambda>(k, v). json_depth v) kvs"] by fastforce
    have mt: "map (\<lambda>(k, v). [TStr k, TColon] @ tokens_of v) kvs = map member_tokens kvs"
      by (simp add: member_tokens_def)
    show "parse_run (PVal, st) (tokens_of (JObj kvs) @ ts) = parse_run (deliver (JObj kvs) st) ts"
    proof (cases kvs)
      case Nil
      with d show ?thesis by (simp add: parse_step_def push_frame_def)
    next
      case (Cons m ms)
      let ?body = "sep_commas (map member_tokens (m # ms)) @ TRBrace # ts"
      obtain k r where t: "?body = TStr k # r" by (cases m; cases ms) (auto simp: member_tokens_def)
      have "parse_run (PVal, st) (tokens_of (JObj kvs) @ ts) = parse_run (PKeyOrEnd, FObj [] # st) ?body"
        using d Cons unfolding tokens_of.simps mt by (simp add: parse_step_def push_frame_def)
      also have "\<dots> = parse_run (PKey, FObj [] # st) ?body" unfolding t by (simp add: parse_step_def)
      also have "\<dots> = parse_run (deliver (JObj kvs) st) ts"
        using parse_members [of m ms st "[]"] el Cons by simp
      finally show ?thesis .
    qed
  qed
qed (simp_all add: reads_def parse_step_def)

theorem parse_print_json_then:
  assumes "good_json v" "json_depth v \<le> max_nesting" "lex r = Some []" "r = [] \<or> \<not> number_byte (hd r)"
  shows "parse_json (print_json v @ r) = Some v"
proof -
  have "lex (print_json v @ r) = Some (tokens_of v)"
    unfolding print_json_def using assms by (intro lex_token_texts_then good_tokens_of)
  moreover have "parse_run (PVal, []) (tokens_of v @ []) = parse_run (deliver v []) []"
    using reads_json [of v, unfolded reads_def, rule_format, of "[]" "[]"] assms(2) by simp
  ultimately show ?thesis by (simp add: parse_json_def)
qed

corollary parse_print_json: "good_json v \<Longrightarrow> json_depth v \<le> max_nesting \<Longrightarrow> parse_json (print_json v) = Some v"
  using parse_print_json_then [of v "[]"] by (simp add: lex.simps)

end
