(* ===== verification/Go_Http.thy ===== *)
theory Go_Http
  imports Go_Url Go_Json
begin

section \<open>Requests, responses, errors and log records\<close>

text \<open>
  The parts of Go's \<open>errors\<close>, \<open>log/slog\<close> and \<open>net/http\<close> packages the gateway calls.
  A handler is a function from a request and a response writer to the writer after it ran;
  the writer also collects the records the logger received, in order.  The first write
  commits the status, the headers and the cookies, and later header changes are lost, as in
  \<open>net/http\<close>.  The server's content sniffing and the framing of bodies are not modelled.
\<close>

subsection \<open>Errors\<close>

text \<open>
  \<open>Wrap pre e post\<close> is \<open>fmt.Errorf\<close> with \<open>%w\<close> between the texts; \<open>Plain\<close> is any error
  the code only prints.
\<close>

datatype go_error =
    Sentinel string
  | Plain string
  | Wrap string go_error string
  | MaxBytesError int

fun errors_is :: "go_error \<Rightarrow> go_error \<Rightarrow> bool" where
  "errors_is (Wrap a e b) t = (Wrap a e b = t \<or> errors_is e t)"
| "errors_is e t = (e = t)"

fun is_max_bytes :: "go_error \<Rightarrow> bool" where
  "is_max_bytes (MaxBytesError n) = True"
| "is_max_bytes (Wrap a e b) = is_max_bytes e"
| "is_max_bytes _ = False"

fun error_text :: "go_error \<Rightarrow> string" where
  "error_text (Sentinel s) = s"
| "error_text (Plain s) = s"
| "error_text (Wrap a e b) = a @ error_text e @ b"
| "error_text (MaxBytesError n) = ''http: request body too large''"

text \<open>The verb \<open>%q\<close>, for a text without bytes to escape.\<close>

definition quoted :: "string \<Rightarrow> string" where
  "quoted s = [CHR 0x22] @ s @ [CHR 0x22]"

subsection \<open>Log records\<close>

datatype log_value = LStr string | LInt int | LLevel int

record log_record =
  lg_level :: int
  lg_msg :: string
  lg_attrs :: "(string \<times> log_value) list"

definition level_debug :: int where "level_debug = -4"
definition level_info :: int where "level_info = 0"
definition level_warn :: int where "level_warn = 4"
definition level_error :: int where "level_error = 8"

definition attr_str :: "string \<Rightarrow> string \<Rightarrow> string \<times> log_value" where
  "attr_str k v = (k, LStr v)"

definition attr_err :: "go_error \<Rightarrow> string \<times> log_value" where
  "attr_err e = (''error'', LStr (error_text e))"

subsection \<open>Cookies\<close>

datatype same_site = SameSiteLax | SameSiteStrict | SameSiteNone

record cookie =
  ck_name :: string
  ck_value :: string
  ck_path :: string
  ck_max_age :: int
  ck_http_only :: bool
  ck_secure :: bool
  ck_same_site :: same_site

text \<open>The bytes of a value that \<open>http.SetCookie\<close> keeps; it drops the others.\<close>

definition cookie_value_byte :: "char \<Rightarrow> bool" where
  "cookie_value_byte c \<longleftrightarrow> 32 \<le> byte c \<and> byte c < 127 \<and> c \<noteq> CHR 0x22 \<and> c \<noteq> CHR '';'' \<and> c \<noteq> CHR 0x5C"

definition sanitize_cookie :: "cookie \<Rightarrow> cookie" where
  "sanitize_cookie c = c\<lparr> ck_value := filter cookie_value_byte (ck_value c) \<rparr>"

text \<open>The \<open>Set-Cookie\<close> line of a cookie.\<close>

definition cookie_line :: "cookie \<Rightarrow> string" where
  "cookie_line c =
     ck_name c @ ''=''
     @ (if CHR '' '' \<in> set (ck_value c) \<or> CHR '','' \<in> set (ck_value c)
        then [CHR 0x22] @ ck_value c @ [CHR 0x22] else ck_value c)
     @ (if ck_path c = [] then [] else ''; Path='' @ ck_path c)
     @ (if 0 < ck_max_age c then ''; Max-Age='' @ itoa (ck_max_age c)
        else if ck_max_age c < 0 then ''; Max-Age=0'' else [])
     @ (if ck_http_only c then ''; HttpOnly'' else [])
     @ (if ck_secure c then ''; Secure'' else [])
     @ (case ck_same_site c of SameSiteLax \<Rightarrow> ''; SameSite=Lax'' | SameSiteStrict \<Rightarrow> ''; SameSite=Strict''
         | SameSiteNone \<Rightarrow> ''; SameSite=None'')"

subsection \<open>Requests\<close>

text \<open>
  Header names are in canonical form and \<open>rq_headers\<close> is the first value of each.
  \<open>rq_cookies\<close> are the pairs of the \<open>Cookie\<close> header.  The body is the bytes that arrive
  and whether the connection then ends cleanly.
\<close>

record request =
  rq_method :: string
  rq_url :: url
  rq_host :: string
  rq_headers :: "string header_map"
  rq_cookies :: "(string \<times> string) list"
  rq_remote_addr :: string
  rq_content_length :: int
  rq_body :: string
  rq_body_error :: "go_error option"
  rq_path_values :: "string header_map"

definition header_get :: "string header_map \<Rightarrow> string \<Rightarrow> string" where
  "header_get h k = (case h k of None \<Rightarrow> [] | Some v \<Rightarrow> v)"

definition request_cookie :: "'a request_scheme \<Rightarrow> string \<Rightarrow> string option" where
  "request_cookie r n = map_of (rq_cookies r) n"

definition path_value :: "'a request_scheme \<Rightarrow> string \<Rightarrow> string" where
  "path_value r n = header_get (rq_path_values r) n"

definition url_query_get :: "'a request_scheme \<Rightarrow> string \<Rightarrow> string" where
  "url_query_get r k = query_get (u_raw_query (rq_url r)) k"

text \<open>A plain \<open>GET\<close> of a path, used in the examples.\<close>

definition get_request :: "string \<Rightarrow> request" where
  "get_request p =
     \<lparr> rq_method = ''GET'', rq_url = empty_url\<lparr> u_path := p \<rparr>, rq_host = ''gw.example'',
       rq_headers = Map.empty, rq_cookies = [], rq_remote_addr = ''192.0.2.1:4711'', rq_content_length = 0,
       rq_body = [], rq_body_error = None, rq_path_values = Map.empty \<rparr>"

subsection \<open>Requests to other servers\<close>

text \<open>
  A request of the HTTP client and its answer.  The body of a request is what its reader
  yields: bytes, and the error the reader ends with, if any.  \<open>rp_taken\<close> is how much of that
  body the client had read when it returned.
\<close>

record outgoing =
  og_method :: string
  og_url :: string
  og_header :: "string header_map"
  og_body :: string
  og_body_error :: "go_error option"
  og_timeout :: int

record reply =
  rp_status :: nat
  rp_header :: "string header_map"
  rp_content_length :: int
  rp_body :: string
  rp_body_error :: "go_error option"
  rp_taken :: nat

subsection \<open>Response writers\<close>

text \<open>
  The writer of a reply, with the records the logger received and the requests the process
  sent to other servers while it handled the request.
\<close>

record committed =
  cm_status :: nat
  cm_header :: "string header_map"
  cm_cookies :: "cookie list"

record writer =
  w_header :: "string header_map"
  w_cookies :: "cookie list"
  w_committed :: "committed option"
  w_body :: string
  w_log :: "log_record list"
  w_sent :: "outgoing list"

definition new_writer :: writer where
  "new_writer = \<lparr> w_header = Map.empty, w_cookies = [], w_committed = None, w_body = [], w_log = [], w_sent = [] \<rparr>"

lemma new_writer_parts [writer_simps]:
  "w_header new_writer = Map.empty" "w_cookies new_writer = []" "w_committed new_writer = None"
  "w_body new_writer = []" "w_log new_writer = []" "w_sent new_writer = []"
  by (simp_all add: new_writer_def)

definition w_set :: "string \<Rightarrow> string \<Rightarrow> writer \<Rightarrow> writer" where
  "w_set k v w = w\<lparr> w_header := (w_header w)(k \<mapsto> v) \<rparr>"

definition w_del :: "string \<Rightarrow> writer \<Rightarrow> writer" where
  "w_del k w = w\<lparr> w_header := (w_header w)(k := None) \<rparr>"

definition set_cookie :: "cookie \<Rightarrow> writer \<Rightarrow> writer" where
  "set_cookie c w = w\<lparr> w_cookies := w_cookies w @ [sanitize_cookie c] \<rparr>"

definition write_header :: "nat \<Rightarrow> writer \<Rightarrow> writer" where
  "write_header code w = (case w_committed w of
      Some _ \<Rightarrow> w
    | None \<Rightarrow> w\<lparr> w_committed := Some \<lparr> cm_status = code, cm_header = w_header w, cm_cookies = w_cookies w \<rparr> \<rparr>)"

definition write_body :: "string \<Rightarrow> writer \<Rightarrow> writer" where
  "write_body s w = (let v = write_header 200 w in v\<lparr> w_body := w_body v @ s \<rparr>)"

definition log_to :: "log_record \<Rightarrow> writer \<Rightarrow> writer" where
  "log_to e w = w\<lparr> w_log := w_log w @ [e] \<rparr>"

definition record_sent :: "outgoing \<Rightarrow> writer \<Rightarrow> writer" where
  "record_sent q w = w\<lparr> w_sent := w_sent w @ [q] \<rparr>"

text \<open>The only trace a call of a client leaves on the writer: requests sent.\<close>

definition only_sends :: "writer \<Rightarrow> writer \<Rightarrow> bool" where
  "only_sends w v \<longleftrightarrow> (\<exists>qs. v = w\<lparr> w_sent := w_sent w @ qs \<rparr>)"

lemma only_sends_refl [simp]: "only_sends w w"
  by (auto simp: only_sends_def intro!: exI [of _ "[]"])

lemma only_sends_record: "only_sends w (record_sent q w)"
  by (auto simp: only_sends_def record_sent_def)

lemma only_sends_parts:
  "only_sends w v \<Longrightarrow> w_header v = w_header w" "only_sends w v \<Longrightarrow> w_cookies v = w_cookies w"
  "only_sends w v \<Longrightarrow> w_committed v = w_committed w" "only_sends w v \<Longrightarrow> w_body v = w_body w"
  "only_sends w v \<Longrightarrow> w_log v = w_log w"
  by (auto simp: only_sends_def)

definition log_plain :: "int \<Rightarrow> string \<Rightarrow> (string \<times> log_value) list \<Rightarrow> writer \<Rightarrow> writer" where
  "log_plain lvl msg attrs = log_to \<lparr> lg_level = lvl, lg_msg = msg, lg_attrs = attrs \<rparr>"

text \<open>A handler that returns without writing answers 200 with the headers it set.\<close>

definition finish :: "writer \<Rightarrow> writer" where
  "finish w = write_header 200 w"

definition status_of :: "writer \<Rightarrow> nat" where
  "status_of w = (case w_committed (finish w) of Some c \<Rightarrow> cm_status c | None \<Rightarrow> 0)"

definition header_of :: "writer \<Rightarrow> string header_map" where
  "header_of w = (case w_committed (finish w) of Some c \<Rightarrow> cm_header c | None \<Rightarrow> Map.empty)"

definition cookies_of :: "writer \<Rightarrow> cookie list" where
  "cookies_of w = (case w_committed (finish w) of Some c \<Rightarrow> cm_cookies c | None \<Rightarrow> [])"

lemma writer_parts [writer_simps]:
  "w_header (w_set k v w) = (w_header w)(k \<mapsto> v)" "w_cookies (w_set k v w) = w_cookies w"
  "w_committed (w_set k v w) = w_committed w" "w_body (w_set k v w) = w_body w" "w_log (w_set k v w) = w_log w"
  "w_header (w_del k w) = (w_header w)(k := None)" "w_cookies (w_del k w) = w_cookies w"
  "w_committed (w_del k w) = w_committed w" "w_body (w_del k w) = w_body w" "w_log (w_del k w) = w_log w"
  "w_header (set_cookie c w) = w_header w" "w_cookies (set_cookie c w) = w_cookies w @ [sanitize_cookie c]"
  "w_committed (set_cookie c w) = w_committed w" "w_body (set_cookie c w) = w_body w" "w_log (set_cookie c w) = w_log w"
  "w_header (log_to e w) = w_header w" "w_cookies (log_to e w) = w_cookies w"
  "w_committed (log_to e w) = w_committed w" "w_body (log_to e w) = w_body w" "w_log (log_to e w) = w_log w @ [e]"
  "w_header (record_sent q w) = w_header w" "w_cookies (record_sent q w) = w_cookies w"
  "w_committed (record_sent q w) = w_committed w" "w_body (record_sent q w) = w_body w" "w_log (record_sent q w) = w_log w"
  "w_sent (w_set k v w) = w_sent w" "w_sent (w_del k w) = w_sent w" "w_sent (set_cookie c w) = w_sent w"
  "w_sent (log_to e w) = w_sent w" "w_sent (record_sent q w) = w_sent w @ [q]"
  by (simp_all add: w_set_def w_del_def set_cookie_def log_to_def record_sent_def)

lemma write_header_parts [writer_simps]:
  "w_header (write_header n w) = w_header w" "w_cookies (write_header n w) = w_cookies w"
  "w_body (write_header n w) = w_body w" "w_log (write_header n w) = w_log w" "w_sent (write_header n w) = w_sent w"
  "w_committed w = None \<Longrightarrow> w_committed (write_header n w) =
     Some \<lparr> cm_status = n, cm_header = w_header w, cm_cookies = w_cookies w \<rparr>"
  "w_committed w = Some c \<Longrightarrow> write_header n w = w"
  by (auto simp: write_header_def split: option.splits)

lemma write_body_parts [writer_simps]:
  "w_header (write_body s w) = w_header w" "w_cookies (write_body s w) = w_cookies w"
  "w_body (write_body s w) = w_body w @ s" "w_log (write_body s w) = w_log w" "w_sent (write_body s w) = w_sent w"
  "w_committed (write_body s w) = w_committed (write_header 200 w)"
  by (simp_all add: write_body_def Let_def writer_simps)

lemma log_plain_parts [writer_simps]:
  "w_header (log_plain l m a w) = w_header w" "w_cookies (log_plain l m a w) = w_cookies w"
  "w_committed (log_plain l m a w) = w_committed w" "w_body (log_plain l m a w) = w_body w"
  "w_sent (log_plain l m a w) = w_sent w"
  "w_log (log_plain l m a w) = w_log w @ [\<lparr> lg_level = l, lg_msg = m, lg_attrs = a \<rparr>]"
  by (simp_all add: log_plain_def writer_simps)

subsection \<open>Whole replies\<close>

definition status_text :: "nat \<Rightarrow> string" where
  "status_text n = (case map_of
     [(200, ''OK''), (201, ''Created''), (204, ''No Content''), (301, ''Moved Permanently''), (302, ''Found''),
      (303, ''See Other''), (307, ''Temporary Redirect''), (400, ''Bad Request''), (401, ''Unauthorized''), (403, ''Forbidden''), (404, ''Not Found''),
      (405, ''Method Not Allowed''), (410, ''Gone''), (413, ''Request Entity Too Large''),
      (500, ''Internal Server Error''), (502, ''Bad Gateway''), (503, ''Service Unavailable'')] n of
     Some s \<Rightarrow> s | None \<Rightarrow> [])"

definition newline :: string where "newline = [CHR 0x0A]"

definition http_error :: "string \<Rightarrow> nat \<Rightarrow> writer \<Rightarrow> writer" where
  "http_error msg code w =
     write_body (msg @ newline)
       (write_header code
         (w_set ''X-Content-Type-Options'' ''nosniff''
           (w_set ''Content-Type'' ''text/plain; charset=utf-8'' (w_del ''Content-Length'' w))))"

definition json_content_type :: string where
  "json_content_type = ''application/json; charset=utf-8''"

text \<open>\<open>json.NewEncoder(w).Encode(v)\<close>.\<close>

definition encode_json :: "json \<Rightarrow> writer \<Rightarrow> writer" where
  "encode_json v w = write_body (print_json v @ newline) w"

definition hex_escape_non_ascii :: "string \<Rightarrow> string" where
  "hex_escape_non_ascii s =
     concat (map (\<lambda>c. if 128 \<le> byte c then [CHR ''%'', hex_digit (byte c div 16), hex_digit (byte c mod 16)] else [c]) s)"

definition html_escape_char :: "char \<Rightarrow> string" where
  "html_escape_char c =
     (if c = CHR ''&'' then ''&amp;'' else if c = CHR ''<'' then ''&lt;'' else if c = CHR ''>'' then ''&gt;''
      else if c = CHR 0x22 then ''&#34;'' else if c = CHR 0x27 then ''&#39;'' else [c])"

definition html_escape :: "string \<Rightarrow> string" where
  "html_escape s = concat (map html_escape_char s)"

definition path_dir :: "string \<Rightarrow> string" where
  "path_dir p = rev (dropWhile (\<lambda>c. c \<noteq> CHR ''/'') (rev p))"

text \<open>The target of \<open>http.Redirect\<close>: a relative reference is made absolute and cleaned.\<close>

definition redirect_target :: "'a request_scheme \<Rightarrow> string \<Rightarrow> string" where
  "redirect_target r target =
     (case url_parse target of
        Some u \<Rightarrow>
          if u_scheme u = [] \<and> u_host u = [] then
            (let old = (if u_path (rq_url r) = [] then ''/'' else u_path (rq_url r));
                 t = (if target = [] \<or> hd target \<noteq> CHR ''/'' then path_dir old @ target else target);
                 p = takeWhile (\<lambda>c. c \<noteq> CHR ''?'') t;
                 q = dropWhile (\<lambda>c. c \<noteq> CHR ''?'') t;
                 cp = path_clean p
             in (if has_suffix p ''/'' \<and> \<not> has_suffix cp ''/'' then cp @ ''/'' else cp) @ q)
          else target
      | None \<Rightarrow> target)"

definition redirect_body :: "string \<Rightarrow> nat \<Rightarrow> string" where
  "redirect_body target code =
     ''<a href='' @ [CHR 0x22] @ html_escape target @ [CHR 0x22] @ ''>'' @ status_text code @ ''</a>.''
     @ newline @ newline"

definition http_redirect :: "'a request_scheme \<Rightarrow> string \<Rightarrow> nat \<Rightarrow> writer \<Rightarrow> writer" where
  "http_redirect r target code w =
     (let t = redirect_target r target;
          had = w_header w ''Content-Type'' \<noteq> None;
          w1 = w_set ''Location'' (hex_escape_non_ascii t) w;
          w2 = (if \<not> had \<and> (rq_method r = ''GET'' \<or> rq_method r = ''HEAD'')
                then w_set ''Content-Type'' ''text/html; charset=utf-8'' w1 else w1);
          w3 = write_header code w2
      in if \<not> had \<and> rq_method r = ''GET'' then write_body (redirect_body t code) w3 else w3)"

subsection \<open>What the client receives\<close>

text \<open>The parts of a finished reply, from a writer nothing was written to.\<close>

lemma reply_uncommitted:
  "w_committed w = None \<Longrightarrow> status_of w = 200 \<and> header_of w = w_header w \<and> cookies_of w = w_cookies w"
  by (simp add: status_of_def header_of_def cookies_of_def finish_def writer_simps)

lemma reply_committed:
  "w_committed w = Some c \<Longrightarrow> status_of w = cm_status c \<and> header_of w = cm_header c \<and> cookies_of w = cm_cookies c"
  by (simp add: status_of_def header_of_def cookies_of_def finish_def writer_simps)

lemma http_error_reply:
  assumes "w_committed w = None"
  shows "status_of (http_error m n w) = n" "cookies_of (http_error m n w) = w_cookies w"
    "w_body (http_error m n w) = w_body w @ m @ newline" "w_log (http_error m n w) = w_log w"
    "header_of (http_error m n w) =
       (w_header w)(''Content-Length'' := None, ''Content-Type'' \<mapsto> ''text/plain; charset=utf-8'',
         ''X-Content-Type-Options'' \<mapsto> ''nosniff'')"
    "w_committed (http_error m n w) \<noteq> None" "w_sent (http_error m n w) = w_sent w"
  using assms
  by (simp_all add: http_error_def status_of_def cookies_of_def header_of_def finish_def writer_simps
      write_header_def write_body_def Let_def)

lemma http_redirect_reply:
  assumes "w_committed w = None"
  shows "status_of (http_redirect r t n w) = n" "cookies_of (http_redirect r t n w) = w_cookies w"
    "header_of (http_redirect r t n w) ''Location'' = Some (hex_escape_non_ascii (redirect_target r t))"
    "w_log (http_redirect r t n w) = w_log w" "w_committed (http_redirect r t n w) \<noteq> None"
    "w_sent (http_redirect r t n w) = w_sent w"
    "k \<noteq> ''Location'' \<Longrightarrow> k \<noteq> ''Content-Type'' \<Longrightarrow> header_of (http_redirect r t n w) k = w_header w k"
  using assms
  by (simp_all add: http_redirect_def status_of_def cookies_of_def header_of_def finish_def writer_simps
      write_header_def write_body_def Let_def)

lemma write_header_status:
  "w_committed w = None \<Longrightarrow> status_of (write_header n w) = n"
  "w_committed w = None \<Longrightarrow> cookies_of (write_header n w) = w_cookies w"
  "w_committed w = None \<Longrightarrow> header_of (write_header n w) = w_header w"
  by (simp_all add: status_of_def cookies_of_def header_of_def finish_def writer_simps write_header_def)

lemma write_body_reply:
  "status_of (write_body s w) = status_of w" "cookies_of (write_body s w) = cookies_of w"
  "header_of (write_body s w) = header_of w"
  by (auto simp: status_of_def cookies_of_def header_of_def finish_def write_body_def write_header_def Let_def
      split: option.splits)

lemma filter_cookie_id: "\<forall>c \<in> set s. cookie_value_byte c \<Longrightarrow> filter cookie_value_byte s = s"
  by (rule filter_id)

end
