(* ===== verification/Go_Crypto.thy ===== *)
theory Go_Crypto
  imports Go_Encoding
begin

unbundle bit_operations_syntax

section \<open>SHA-256 and HMAC-SHA256\<close>

text \<open>
  The two primitives the gateway takes from Go's \<open>crypto\<close> packages: SHA-256 (FIPS 180-4) on
  32-bit words with wrap-around addition, and HMAC (RFC 2104) over it.  Both are executable;
  nothing is assumed of them beyond what the definitions give.  In particular no collision
  resistance is assumed: where a property depends on two digests being different, that is a
  hypothesis on those digests.
\<close>

type_synonym word32 = "32 word"
type_synonym hash_state = "word32 \<times> word32 \<times> word32 \<times> word32 \<times> word32 \<times> word32 \<times> word32 \<times> word32"

definition rotr32 :: "nat \<Rightarrow> word32 \<Rightarrow> word32" where
  "rotr32 n x = drop_bit n x OR push_bit (32 - n) x"

definition sha_ch :: "word32 \<Rightarrow> word32 \<Rightarrow> word32 \<Rightarrow> word32" where
  "sha_ch x y z = (x AND y) XOR (NOT x AND z)"

definition sha_maj :: "word32 \<Rightarrow> word32 \<Rightarrow> word32 \<Rightarrow> word32" where
  "sha_maj x y z = (x AND y) XOR (x AND z) XOR (y AND z)"

definition big_sigma0 :: "word32 \<Rightarrow> word32" where
  "big_sigma0 x = rotr32 2 x XOR rotr32 13 x XOR rotr32 22 x"
definition big_sigma1 :: "word32 \<Rightarrow> word32" where
  "big_sigma1 x = rotr32 6 x XOR rotr32 11 x XOR rotr32 25 x"
definition small_sigma0 :: "word32 \<Rightarrow> word32" where
  "small_sigma0 x = rotr32 7 x XOR rotr32 18 x XOR drop_bit 3 x"
definition small_sigma1 :: "word32 \<Rightarrow> word32" where
  "small_sigma1 x = rotr32 17 x XOR rotr32 19 x XOR drop_bit 10 x"

text \<open>
  The constants are the first 32 bits of the fractional parts of the cube roots of the first
  64 primes, the initial state those of the square roots of the first eight, computed as
  integer roots bit by bit.
\<close>

primrec root_bits :: "nat \<Rightarrow> nat \<Rightarrow> int \<Rightarrow> int \<Rightarrow> int" where
  "root_bits 0 e n r = r"
| "root_bits (Suc b) e n r = root_bits b e n (if (r + 2 ^ b) ^ e \<le> n then r + 2 ^ b else r)"

definition small_primes :: "nat list" where
  "small_primes = filter (\<lambda>p. list_all (\<lambda>d. p mod d \<noteq> 0) [2..<p]) [2..<312]"

definition root_word :: "nat \<Rightarrow> nat \<Rightarrow> word32" where
  "root_word e p = word_of_int (root_bits 40 e (int p * 2 ^ (32 * e)) 0)"

definition sha_k :: "word32 list" where
  "sha_k = map (root_word 3) small_primes"

fun state_of :: "word32 list \<Rightarrow> hash_state" where
  "state_of [a, b, c, d, e, f, g, h] = (a, b, c, d, e, f, g, h)"
| "state_of _ = (0, 0, 0, 0, 0, 0, 0, 0)"

definition sha_init :: hash_state where
  "sha_init = state_of (map (root_word 2) (take 8 small_primes))"

subsection \<open>Padding and message words\<close>

primrec be_bytes :: "nat \<Rightarrow> int \<Rightarrow> string" where
  "be_bytes 0 n = []"
| "be_bytes (Suc k) n = be_bytes k (n div 256) @ [char_of n]"

definition sha_pad :: "string \<Rightarrow> string" where
  "sha_pad m = m @ [CHR 0x80] @ replicate ((119 - length m mod 64) mod 64) (CHR 0x00)
     @ be_bytes 8 (8 * int (length m))"

definition be_word :: "char \<Rightarrow> char \<Rightarrow> char \<Rightarrow> char \<Rightarrow> word32" where
  "be_word a b c d = word_of_int (((of_char a * 256 + of_char b) * 256 + of_char c) * 256 + of_char d)"

fun be_words :: "string \<Rightarrow> word32 list" where
  "be_words (a # b # c # d # s) = be_word a b c d # be_words s"
| "be_words _ = []"

text \<open>The schedule, most recent word first.\<close>

definition sched_step :: "word32 list \<Rightarrow> word32 list" where
  "sched_step ws = (small_sigma1 (ws ! 1) + ws ! 6 + small_sigma0 (ws ! 14) + ws ! 15) # ws"

definition sha_schedule :: "word32 list \<Rightarrow> word32 list" where
  "sha_schedule ws = rev ((sched_step ^^ 48) (rev ws))"

subsection \<open>Compression\<close>

fun sha_round :: "hash_state \<Rightarrow> word32 \<times> word32 \<Rightarrow> hash_state" where
  "sha_round (a, b, c, d, e, f, g, h) (k, w) =
     (let t1 = h + big_sigma1 e + sha_ch e f g + k + w;
          t2 = big_sigma0 a + sha_maj a b c
      in (t1 + t2, a, b, c, d + t1, e, f, g))"

fun sha_add :: "hash_state \<Rightarrow> hash_state \<Rightarrow> hash_state" where
  "sha_add (a, b, c, d, e, f, g, h) (a', b', c', d', e', f', g', h') =
     (a + a', b + b', c + c', d + d', e + e', f + f', g + g', h + h')"

definition sha_block :: "hash_state \<Rightarrow> word32 list \<Rightarrow> hash_state" where
  "sha_block s ws = sha_add s (foldl sha_round s (zip sha_k (sha_schedule ws)))"

function sha_blocks :: "hash_state \<Rightarrow> word32 list \<Rightarrow> hash_state" where
  "sha_blocks s ws = (if ws = [] then s else sha_blocks (sha_block s (take 16 ws)) (drop 16 ws))"
  by pat_completeness auto
termination
  by (relation "measure (\<lambda>(s, ws). length ws)") auto

declare sha_blocks.simps [simp del]

definition word_bytes :: "word32 \<Rightarrow> string" where
  "word_bytes w = be_bytes 4 (uint w)"

definition sha256 :: "string \<Rightarrow> string" where
  "sha256 m = (case sha_blocks sha_init (be_words (sha_pad m)) of
     (a, b, c, d, e, f, g, h) \<Rightarrow> concat (map word_bytes [a, b, c, d, e, f, g, h]))"

lemma be_bytes_length [simp]: "length (be_bytes k n) = k"
  by (induction k arbitrary: n) simp_all

lemma sha256_length [simp]: "length (sha256 m) = 32"
  by (simp add: sha256_def word_bytes_def split: prod.split)

subsection \<open>HMAC\<close>

definition hmac_block_key :: "string \<Rightarrow> string" where
  "hmac_block_key key =
     (let k = (if 64 < length key then sha256 key else key) in k @ replicate (64 - length k) (CHR 0x00))"

definition xor_bytes :: "nat \<Rightarrow> string \<Rightarrow> string" where
  "xor_bytes n s = map (\<lambda>c. char_of (byte c XOR n)) s"

definition hmac_sha256 :: "string \<Rightarrow> string \<Rightarrow> string" where
  "hmac_sha256 key m =
     (let k = hmac_block_key key
      in sha256 (xor_bytes 0x5c k @ sha256 (xor_bytes 0x36 k @ m)))"

lemma hmac_sha256_length [simp]: "length (hmac_sha256 key m) = 32"
  by (simp add: hmac_sha256_def Let_def)

end
