(* ===== verification/Signed_Cookie.thy ===== *)
theory Signed_Cookie
  imports Go_Http Go_Crypto
begin

section \<open>Signed cookie values (\<open>internal/signedcookie\<close>)\<close>

text \<open>
  \<open>Seal\<close> and \<open>Open\<close>, over the executable HMAC-SHA256 and base64 of the libraries.  The
  contract the two cookie components (session and consent) rely on is the locale
  \<open>envelope\<close>; \<open>sealed_codec\<close> extends it with a payload codec and gives the round trip of
  a sealed value once for both.  Nothing here assumes that HMAC is unforgeable: the lemmas
  say exactly which tokens are accepted, namely those that carry the HMAC of their payload.
\<close>

subsection \<open>The operations\<close>

definition err_invalid :: go_error where
  "err_invalid = Sentinel ''invalid signed cookie''"

definition sc_mac :: "string \<Rightarrow> string \<Rightarrow> string" where
  "sc_mac key payload = hmac_sha256 key payload"

definition seal :: "string \<Rightarrow> string \<Rightarrow> string" where
  "seal key payload =
     b64_encode RawURLEncoding payload @ ''.'' @ b64_encode RawURLEncoding (sc_mac key payload)"

definition open_token :: "string \<Rightarrow> string \<Rightarrow> go_error + string" where
  "open_token key token =
     (let (payload_part, sig_part, ok) = cut token ''.''
      in if \<not> ok then Inl err_invalid
         else (case b64_decode RawURLEncoding payload_part of
             None \<Rightarrow> Inl err_invalid
           | Some payload \<Rightarrow>
               (case b64_decode RawURLEncoding sig_part of
                  None \<Rightarrow> Inl err_invalid
                | Some sig \<Rightarrow> if sig \<noteq> sc_mac key payload then Inl err_invalid else Inr payload)))"

subsection \<open>The contract\<close>

locale envelope =
  fixes seal_op :: "'k \<Rightarrow> string \<Rightarrow> string"
    and open_op :: "'k \<Rightarrow> string \<Rightarrow> 'e + string"
  assumes open_seal: "open_op k (seal_op k p) = Inr p"
    and open_agree: "open_op k t = Inr p \<Longrightarrow> open_op k' t = Inr p' \<Longrightarrow> p = p'"
begin

lemma seal_inject: "seal_op k p = seal_op k' p' \<Longrightarrow> p = p'"
  using open_seal open_agree by metis

lemma open_sealed_elsewhere: "open_op k (seal_op k' p) = Inr q \<Longrightarrow> q = p"
  using open_seal open_agree by metis

end

locale sealed_codec = envelope seal_op open_op
  for seal_op :: "'k \<Rightarrow> string \<Rightarrow> string" and open_op :: "'k \<Rightarrow> string \<Rightarrow> 'e + string" +
  fixes enc :: "'z \<Rightarrow> 'd \<Rightarrow> string option"
    and dec :: "string \<Rightarrow> 'd option"
    and good :: "'d \<Rightarrow> bool"
  assumes dec_enc: "good d \<Longrightarrow> enc z d = Some b \<Longrightarrow> dec b = Some d"
begin

lemma open_encoded:
  assumes "good d" "map_option (seal_op k) (enc z d) = Some t"
  shows "\<exists>b. open_op k t = Inr b \<and> dec b = Some d"
  using assms open_seal dec_enc by fastforce

text \<open>A token is never the encoding of two different values, under any keys.\<close>

lemma token_determines:
  assumes "good d" "good d'" "map_option (seal_op k) (enc z d) = Some t"
    "map_option (seal_op k') (enc z' d') = Some t"
  shows "d = d'"
proof -
  obtain b b' where b: "enc z d = Some b" "enc z' d' = Some b'" "seal_op k b = seal_op k' b'"
    using assms(3,4) by auto
  then have "b = b'" using seal_inject by blast
  then show ?thesis using dec_enc [OF assms(1) b(1)] dec_enc [OF assms(2) b(2)] by simp
qed

end

subsection \<open>The code keeps the contract\<close>

lemma seal_parts:
  "cut (seal key payload) ''.'' = (b64_encode RawURLEncoding payload, b64_encode RawURLEncoding (sc_mac key payload), True)"
  using cut_single_append [OF b64_encode_no_dot] by (simp add: seal_def)

lemma open_token_eq:
  "open_token key token = Inr payload \<longleftrightarrow>
     (\<exists>p s. token = p @ ''.'' @ s \<and> CHR ''.'' \<notin> set p \<and> b64_decode RawURLEncoding p = Some payload
        \<and> b64_decode RawURLEncoding s = Some (sc_mac key payload))"
proof
  assume o: "open_token key token = Inr payload"
  obtain p s ok where c: "cut token ''.'' = (p, s, ok)" by (cases "cut token ''.''") auto
  from o c have "ok" by (auto simp: open_token_def split: if_splits)
  with cut_single_parts [OF c] have "token = p @ ''.'' @ s" "CHR ''.'' \<notin> set p" by simp_all
  with o c show "\<exists>p s. token = p @ ''.'' @ s \<and> CHR ''.'' \<notin> set p \<and> b64_decode RawURLEncoding p = Some payload
      \<and> b64_decode RawURLEncoding s = Some (sc_mac key payload)"
    by (auto simp: open_token_def split: if_splits option.splits)
next
  assume "\<exists>p s. token = p @ ''.'' @ s \<and> CHR ''.'' \<notin> set p \<and> b64_decode RawURLEncoding p = Some payload
      \<and> b64_decode RawURLEncoding s = Some (sc_mac key payload)"
  then show "open_token key token = Inr payload"
    by (auto simp: open_token_def cut_single_append)
qed

lemma open_token_Inl: "open_token key token = Inl e \<Longrightarrow> e = err_invalid"
  by (auto simp: open_token_def split: prod.splits if_splits option.splits)

interpretation cookie_envelope: envelope seal open_token
proof
  show "open_token k (seal k p) = Inr p" for k p
    by (simp add: open_token_def seal_parts)
  show "p = p'" if "open_token k t = Inr p" "open_token k' t = Inr p'" for k t p k' p'
    using that by (auto simp: open_token_def split: prod.splits if_splits option.splits)
qed

lemma seal_bytes: "c \<in> set (seal key payload) \<Longrightarrow> cookie_value_byte c"
proof -
  assume "c \<in> set (seal key payload)"
  then have "c = CHR ''.'' \<or> c = CHR ''='' \<or> b64_alphabet c"
    using b64_encode_bytes by (fastforce simp: seal_def)
  then show ?thesis
    by (auto simp: cookie_value_byte_def b64_alphabet_def is_alnum_def is_lower_def is_upper_def is_digit_def byte_in_def)
qed

subsection \<open>Properties\<close>

text \<open>\<open>Open\<close> under the signing key returns exactly the payload that was sealed, and the
  token survives the cookie syntax: no byte of it is dropped by \<open>http.SetCookie\<close>.\<close>

theorem open_seal_roundtrip:
  "open_token key (filter cookie_value_byte (seal key payload)) = Inr payload"
proof -
  have "filter cookie_value_byte (seal key payload) = seal key payload"
    using seal_bytes by (intro filter_cookie_id) blast
  then show ?thesis by (simp add: cookie_envelope.open_seal)
qed

text \<open>C23: \<open>Open\<close> accepts a token only if it is a payload part, a dot and a signature part whose
  decoded signature is the HMAC-SHA256 of the decoded payload under that key; on every other
  token it returns \<open>ErrInvalid\<close> and no payload.\<close>

theorem open_token_authentic:
  "(\<exists>payload. open_token key token = Inr payload \<and>
      (\<exists>p s. token = p @ ''.'' @ s \<and> b64_decode RawURLEncoding p = Some payload
         \<and> b64_decode RawURLEncoding s = Some (hmac_sha256 key payload)))
   \<or> open_token key token = Inl err_invalid"
proof (cases "open_token key token")
  case (Inl e)
  then show ?thesis using open_token_Inl by blast
next
  case (Inr payload)
  then show ?thesis unfolding open_token_eq sc_mac_def by blast
qed

text \<open>A value sealed under one key opens under another key only if the two keys give the
  payload the same HMAC, and then to the same payload.\<close>

theorem open_other_key:
  "open_token key' (seal key payload) =
     (if hmac_sha256 key payload = hmac_sha256 key' payload then Inr payload else Inl err_invalid)"
  by (simp add: open_token_def seal_parts sc_mac_def)

end
