(* ===== verification/Audit_Trail.thy ===== *)
theory Audit_Trail
  imports Go_Http Go_Crypto
begin

section \<open>The audit trail (\<open>internal/audit\<close>)\<close>

text \<open>
  The catalog of audit and operational events, \<open>Log\<close> with the attributes every
  request-scoped record carries, and the logger \<open>New\<close> builds: a level floor and the
  \<open>ReplaceAttr\<close> hook that pseudonymizes emails and names the audit level.  A handler only
  queues records on its writer; \<open>emit\<close> is what the logger then prints for one.

  Unicode normalization comes from \<open>golang.org/x/text\<close> and is an argument of the model
  (\<open>nfkc\<close>), and so is lower-casing of strings that are not ASCII (\<open>ulower\<close>).
\<close>

subsection \<open>Events\<close>

definition level_audit :: int where
  "level_audit = level_error + 4"

definition event_login :: string where "event_login = ''login''"
definition event_login_failed :: string where "event_login_failed = ''login-failed''"
definition event_accept_tos :: string where "event_accept_tos = ''accept-tos''"
definition event_download_start :: string where "event_download_start = ''download-start''"
definition event_upload_start :: string where "event_upload_start = ''upload-start''"
definition event_access_denied :: string where "event_access_denied = ''access-denied''"
definition event_share_expired :: string where "event_share_expired = ''share-expired''"

definition event_logout :: string where "event_logout = ''logout''"
definition event_session_idle :: string where "event_session_idle = ''session-idle''"
definition event_list_shares :: string where "event_list_shares = ''list-shares''"
definition event_list_folder :: string where "event_list_folder = ''list-folder''"
definition event_download_complete :: string where "event_download_complete = ''download-complete''"
definition event_upload_complete :: string where "event_upload_complete = ''upload-complete''"

definition audit_events :: "string list" where
  "audit_events = [event_login, event_login_failed, event_accept_tos, event_download_start,
     event_upload_start, event_access_denied, event_share_expired]"

lemmas event_defs =
  event_login_def event_login_failed_def event_accept_tos_def event_download_start_def
  event_upload_start_def event_access_denied_def event_share_expired_def event_logout_def
  event_session_idle_def event_list_shares_def event_list_folder_def
  event_download_complete_def event_upload_complete_def

subsection \<open>Request-scoped records\<close>

text \<open>The host of \<open>net.SplitHostPort\<close>, if the address is well formed.\<close>

definition split_host :: "string \<Rightarrow> string option" where
  "split_host hp =
     (case last_index (CHR '':'') hp of
        None \<Rightarrow> None
      | Some i \<Rightarrow>
          if hp \<noteq> [] \<and> hd hp = CHR ''['' then
            (if CHR '']'' \<notin> set hp then None
             else let e = length (takeWhile (\<lambda>c. c \<noteq> CHR '']'') hp)
                  in if e + 1 \<noteq> i then None
                     else if CHR ''['' \<in> set (tl hp) \<or> CHR '']'' \<in> set (drop (e + 1) hp) then None
                     else Some (take (e - 1) (tl hp)))
          else if CHR '':'' \<in> set (take i hp) \<or> CHR ''['' \<in> set hp \<or> CHR '']'' \<in> set hp then None
          else Some (take i hp))"

definition remote_ip :: "string \<Rightarrow> string" where
  "remote_ip addr = (case split_host addr of Some h \<Rightarrow> h | None \<Rightarrow> addr)"

definition request_attrs :: "'a request_scheme \<Rightarrow> (string \<times> log_value) list" where
  "request_attrs r =
     (let xff = header_get (rq_headers r) ''X-Forwarded-For'';
          ua = header_get (rq_headers r) ''User-Agent''
      in [attr_str ''ip'' (remote_ip (rq_remote_addr r))]
         @ (if xff \<noteq> [] then [attr_str ''xff'' xff] else [])
         @ (if ua \<noteq> [] then [attr_str ''user_agent'' ua] else []))"

definition audit_record :: "'a request_scheme \<Rightarrow> int \<Rightarrow> string \<Rightarrow> (string \<times> log_value) list \<Rightarrow> log_record" where
  "audit_record r level event extra =
     \<lparr> lg_level = level, lg_msg = event, lg_attrs = request_attrs r @ extra \<rparr>"

definition audit_log :: "'a request_scheme \<Rightarrow> int \<Rightarrow> string \<Rightarrow> (string \<times> log_value) list \<Rightarrow> writer \<Rightarrow> writer" where
  "audit_log r level event extra = log_to (audit_record r level event extra)"

lemma audit_log_parts [writer_simps]:
  "w_header (audit_log r l e x w) = w_header w" "w_cookies (audit_log r l e x w) = w_cookies w"
  "w_committed (audit_log r l e x w) = w_committed w" "w_body (audit_log r l e x w) = w_body w"
  "w_sent (audit_log r l e x w) = w_sent w"
  "w_log (audit_log r l e x w) = w_log w @ [audit_record r l e x]"
  by (simp_all add: audit_log_def writer_simps)

subsection \<open>Pseudonyms\<close>

definition hash_len :: nat where "hash_len = 16"

text \<open>\<open>strings.ToLower\<close>: ASCII letters itself, the Unicode tables through \<open>ulower\<close>.\<close>

definition to_lower :: "(string \<Rightarrow> string) \<Rightarrow> string \<Rightarrow> string" where
  "to_lower ulower s = (if list_all is_ascii s then map ascii_lower s else ulower s)"

record unicode_ops =
  un_nfkc :: "string \<Rightarrow> string"
  un_lower :: "string \<Rightarrow> string"

definition canonical :: "unicode_ops \<Rightarrow> string \<Rightarrow> string" where
  "canonical un email = to_lower (un_lower un) (un_nfkc un email)"

definition audit_hash_email :: "unicode_ops \<Rightarrow> string \<Rightarrow> string \<Rightarrow> string" where
  "audit_hash_email un salt email =
     (if email = [] then [] else take hash_len (hex_encode (sha256 (salt @ canonical un email))))"

lemma audit_hash_email_shape:
  "audit_hash_email un salt email = [] \<and> email = []
   \<or> length (audit_hash_email un salt email) = 16 \<and> (\<forall>c \<in> set (audit_hash_email un salt email). is_hex_lower c)"
  using hex_encode_lower by (auto simp: audit_hash_email_def hash_len_def dest: in_set_takeD)

subsection \<open>The logger\<close>

record audit_logger =
  al_floor :: int
  al_salt :: string
  al_pseudonymize :: bool

definition audit_new :: "int \<Rightarrow> string \<Rightarrow> bool \<Rightarrow> audit_logger" where
  "audit_new floor salt pseudonymize = \<lparr> al_floor = floor, al_salt = salt, al_pseudonymize = pseudonymize \<rparr>"

text \<open>\<open>slog.Level.String\<close> and \<open>slog.Value.String\<close>.\<close>

definition level_offset :: "string \<Rightarrow> int \<Rightarrow> string" where
  "level_offset base d = (if d = 0 then base else if d < 0 then base @ itoa d else base @ ''+'' @ itoa d)"

definition level_name :: "int \<Rightarrow> string" where
  "level_name l =
     (if l < level_info then level_offset ''DEBUG'' (l - level_debug)
      else if l < level_warn then level_offset ''INFO'' (l - level_info)
      else if l < level_error then level_offset ''WARN'' (l - level_warn)
      else level_offset ''ERROR'' (l - level_error))"

fun value_text :: "log_value \<Rightarrow> string" where
  "value_text (LStr s) = s"
| "value_text (LInt i) = itoa i"
| "value_text (LLevel l) = level_name l"

definition level_key :: string where "level_key = ''level''"
definition email_key :: string where "email_key = ''email''"

definition replace_attr :: "unicode_ops \<Rightarrow> string \<Rightarrow> bool \<Rightarrow> string list \<Rightarrow> string \<times> log_value \<Rightarrow> string \<times> log_value" where
  "replace_attr un salt pseudonymize groups a =
     (if fst a = level_key then
        (if snd a = LLevel level_audit then (fst a, LStr ''AUDIT'') else a)
      else if pseudonymize \<and> groups = [] \<and> fst a = email_key
      then (fst a, LStr (audit_hash_email un salt (value_text (snd a))))
      else a)"

text \<open>The attributes of the line the logger prints for a record, or nothing below the floor.\<close>

definition emit :: "unicode_ops \<Rightarrow> audit_logger \<Rightarrow> log_record \<Rightarrow> (string \<times> log_value) list option" where
  "emit un lg e =
     (if lg_level e < al_floor lg then None
      else Some (map (replace_attr un (al_salt lg) (al_pseudonymize lg) [])
        ([(level_key, LLevel (lg_level e)), (''msg'', LStr (lg_msg e))] @ lg_attrs e)))"

lemma replace_attr_key [simp]: "fst (replace_attr un salt p gs a) = fst a"
  by (simp add: replace_attr_def)

lemma email_not_level [simp]: "email_key \<noteq> level_key" "''msg'' \<noteq> level_key" "''msg'' \<noteq> email_key"
  by (simp_all add: email_key_def level_key_def)

lemma replace_attr_email:
  "replace_attr un salt True [] (email_key, v) = (email_key, LStr (audit_hash_email un salt (value_text v)))"
  by (simp add: replace_attr_def)



text \<open>An audit record passes every floor the configuration can set (up to \<open>ERROR\<close> and the
  audit level itself), is printed with the level name \<open>AUDIT\<close>, and no other level is printed so.\<close>

theorem audit_records_always_emitted:
  assumes "al_floor lg \<le> level_audit"
  shows "lg_level e = level_audit \<longleftrightarrow> (\<exists>line. emit un lg e = Some ((level_key, LStr ''AUDIT'') # line))"
  using assms by (auto simp: emit_def replace_attr_def split: if_splits)

lemma audit_records_always_emitted_witness:
  "\<exists>line. emit \<lparr> un_nfkc = id, un_lower = id \<rparr> (audit_new level_error [] True)
     \<lparr> lg_level = level_audit, lg_msg = event_login, lg_attrs = [] \<rparr> = Some ((level_key, LStr ''AUDIT'') # line)"
proof -
  have "al_floor (audit_new level_error [] True) \<le> level_audit" by (simp add: audit_new_def level_audit_def)
  from audit_records_always_emitted [OF this] show ?thesis by (simp flip: ex_simps)
qed

text \<open>Addresses that differ only in ASCII case share a pseudonym, when normalization keeps ASCII.\<close>

lemma canonical_ascii_case:
  assumes "\<forall>s. list_all is_ascii s \<longrightarrow> un_nfkc un s = s" "list_all is_ascii a" "list_all is_ascii b"
    "map ascii_lower a = map ascii_lower b"
  shows "canonical un a = canonical un b"
  using assms by (simp add: canonical_def to_lower_def)

end
