(* ===== verification/Go_Rfc3339.thy ===== *)
theory Go_Rfc3339
  imports Go_Time "HOL-Library.Monad_Syntax"
begin

section \<open>RFC 3339 text of an instant, as \<open>encoding/json\<close> writes and reads it\<close>

text \<open>
  \<open>marshal_time\<close> is the text \<open>time.Time.MarshalJSON\<close> puts between the quotes: nanosecond
  precision with trailing zeros removed, \<open>Z\<close> or the zone offset, and an error when the year
  does not have four digits or the offset reaches 24 hours.  \<open>parse_rfc3339\<close> accepts what
  \<open>UnmarshalJSON\<close> accepts, its lenient fallback included: a one-digit hour, a comma before
  the fraction, zone offsets up to \<open>24:60\<close>.
\<close>

subsection \<open>Fixed-width decimal fields\<close>

primrec fixed_digits :: "nat \<Rightarrow> nat \<Rightarrow> string" where
  "fixed_digits 0 n = []"
| "fixed_digits (Suc k) n = fixed_digits k (n div 10) @ [digit_char (n mod 10)]"

lemma fixed_digits_length [simp]: "length (fixed_digits k n) = k"
  by (induction k arbitrary: n) simp_all

lemma fixed_digits_are_digits: "\<forall>c \<in> set (fixed_digits k n). is_digit c"
  by (induction k arbitrary: n) auto

lemma read_fixed_digits: "n < 10 ^ k \<Longrightarrow> read_nat 0 (fixed_digits k n) = n"
proof (induction k arbitrary: n)
  case (Suc k)
  then have "n div 10 < 10 ^ k" by (simp add: less_mult_imp_div_less mult.commute)
  with Suc.IH show ?case by (simp add: read_nat_append)
qed simp

subsection \<open>Formatting\<close>

definition frac_text :: "nat \<Rightarrow> string" where
  "frac_text ns =
     (if ns = 0 then [] else CHR ''.'' # rev (dropWhile (\<lambda>c. c = CHR ''0'') (rev (fixed_digits 9 ns))))"

definition zone_text :: "int \<Rightarrow> string" where
  "zone_text z =
     (if z = 0 then ''Z''
      else (if z < 0 then CHR ''-'' else CHR ''+'')
        # fixed_digits 2 (nat \<bar>z\<bar> div 60) @ '':'' @ fixed_digits 2 (nat \<bar>z\<bar> mod 60))"

definition marshal_time :: "int \<Rightarrow> instant \<Rightarrow> string option" where
  "marshal_time zone t =
     (let l = t + zone * minute; secs = l div second; ns = nat (l mod second);
          sod = nat (secs mod 86400); (y, m, d) = civil_from_days (secs div 86400)
      in if y < 0 \<or> 9999 < y \<or> 24 * 60 \<le> \<bar>zone\<bar> then None
         else Some (fixed_digits 4 (nat y) @ ''-'' @ fixed_digits 2 (nat m) @ ''-'' @ fixed_digits 2 (nat d)
           @ ''T'' @ fixed_digits 2 (sod div 3600) @ '':'' @ fixed_digits 2 (sod div 60 mod 60)
           @ '':'' @ fixed_digits 2 (sod mod 60) @ frac_text ns @ zone_text zone))"

subsection \<open>Parsing\<close>

type_synonym 'a scanner = "string \<Rightarrow> ('a \<times> string) option"

fun expect :: "char \<Rightarrow> string \<Rightarrow> string option" where
  "expect c (x # xs) = (if x = c then Some xs else None)"
| "expect c [] = None"

definition get_digits :: "nat \<Rightarrow> nat scanner" where
  "get_digits k s =
     (if k \<le> length s \<and> list_all is_digit (take k s) then Some (read_nat 0 (take k s), drop k s) else None)"

definition get_hour :: "nat scanner" where
  "get_hour s =
     (case get_digits 2 s of Some r \<Rightarrow> Some r | None \<Rightarrow> get_digits 1 s)"

text \<open>A digit string as nanoseconds: nine digits count, missing ones are zero.\<close>

definition frac_value :: "string \<Rightarrow> nat" where
  "frac_value ds = read_nat 0 (take 9 (ds @ replicate 9 (CHR ''0'')))"

definition get_fraction :: "string \<Rightarrow> nat \<times> string" where
  "get_fraction s =
     (case s of
        c # d # r \<Rightarrow>
          if (c = CHR ''.'' \<or> c = CHR '','') \<and> is_digit d
          then (frac_value (takeWhile is_digit (d # r)), dropWhile is_digit (d # r))
          else (0, s)
      | _ \<Rightarrow> (0, s))"

definition get_zone :: "string \<Rightarrow> int option" where
  "get_zone s =
     (if s = ''Z'' then Some 0
      else do {
        sgn \<leftarrow> (case s of c # _ \<Rightarrow> if c = CHR ''+'' then Some 1 else if c = CHR ''-'' then Some (-1) else None
                | [] \<Rightarrow> None);
        (h, s1) \<leftarrow> get_digits 2 (tl s);
        s2 \<leftarrow> expect (CHR '':'') s1;
        (m, s3) \<leftarrow> get_digits 2 s2;
        if s3 = [] \<and> h \<le> 24 \<and> m \<le> 60 then Some (sgn * (int h * 60 + int m)) else None
      })"

definition parse_rfc3339 :: "string \<Rightarrow> instant option" where
  "parse_rfc3339 s0 = do {
     (y, s1) \<leftarrow> get_digits 4 s0;
     s2 \<leftarrow> expect (CHR ''-'') s1;
     (mo, s3) \<leftarrow> get_digits 2 s2;
     s4 \<leftarrow> expect (CHR ''-'') s3;
     (d, s5) \<leftarrow> get_digits 2 s4;
     s6 \<leftarrow> expect (CHR ''T'') s5;
     (h, s7) \<leftarrow> get_hour s6;
     s8 \<leftarrow> expect (CHR '':'') s7;
     (mi, s9) \<leftarrow> get_digits 2 s8;
     s10 \<leftarrow> expect (CHR '':'') s9;
     (se, s11) \<leftarrow> get_digits 2 s10;
     let (ns, s12) = get_fraction s11;
     z \<leftarrow> get_zone s12;
     if 1 \<le> mo \<and> mo \<le> 12 \<and> 1 \<le> d \<and> int d \<le> days_in_month (int y) (int mo) \<and> h < 24 \<and> mi < 60 \<and> se < 60
     then Some ((days_from_civil (int y) (int mo) (int d) * 86400
                 + int h * 3600 + int mi * 60 + int se) * second + int ns - z * minute)
     else None
   }"

subsection \<open>Parsing inverts formatting\<close>

lemma get_digits_fixed:
  "n < 10 ^ k \<Longrightarrow> get_digits k (fixed_digits k n @ r) = Some (n, r)"
  using fixed_digits_are_digits [of k n]
  by (simp add: get_digits_def read_fixed_digits list_all_iff)

lemma get_two_digits:
  assumes "n < 100"
  shows "get_digits 2 (fixed_digits 2 n @ r) = Some (n, r)"
    and "get_digits 2 (fixed_digits 2 n) = Some (n, [])"
  using get_digits_fixed [of n 2 r] get_digits_fixed [of n 2 "[]"] assms by simp_all

lemma get_hour_fixed: "n < 100 \<Longrightarrow> get_hour (fixed_digits 2 n @ r) = Some (n, r)"
  by (simp add: get_hour_def get_digits_fixed)

lemma is_digit_0: "is_digit (CHR ''0'')"
  by (simp add: is_digit_def byte_in_def)

lemma zone_text_no_digit: "zone_text z \<noteq> [] \<and> \<not> is_digit (hd (zone_text z)) \<and> hd (zone_text z) \<noteq> CHR ''.''
    \<and> hd (zone_text z) \<noteq> CHR '',''"
  by (simp add: zone_text_def is_digit_def byte_in_def)

lemma strip_zeros:
  "\<exists>k. ds = rev (dropWhile (\<lambda>c. c = CHR ''0'') (rev ds)) @ replicate k (CHR ''0'')"
proof -
  let ?z = "takeWhile (\<lambda>c. c = CHR ''0'') (rev ds)"
  have "ds = rev (dropWhile (\<lambda>c. c = CHR ''0'') (rev ds)) @ rev ?z"
    by (metis rev_append rev_rev_ident takeWhile_dropWhile_id)
  moreover have "rev ?z = replicate (length ?z) (CHR ''0'')"
    by (rule replicate_eqI) (auto dest: set_takeWhileD)
  ultimately show ?thesis by metis
qed

lemma get_fraction_text:
  assumes "ns < 10 ^ 9" "r \<noteq> []" "\<not> is_digit (hd r)" "hd r \<noteq> CHR ''.''" "hd r \<noteq> CHR '',''"
  shows "get_fraction (frac_text ns @ r) = (ns, r)"
proof (cases "ns = 0")
  case True
  with assms show ?thesis
    by (cases r) (auto simp: frac_text_def get_fraction_def split: list.splits)
next
  case False
  let ?ds = "fixed_digits 9 ns"
  obtain k where k: "?ds = rev (dropWhile (\<lambda>c. c = CHR ''0'') (rev ?ds)) @ replicate k (CHR ''0'')"
    using strip_zeros by blast
  define us where "us = rev (dropWhile (\<lambda>c. c = CHR ''0'') (rev ?ds))"
  have ds: "?ds = us @ replicate k (CHR ''0'')" using k by (simp add: us_def)
  have read: "read_nat 0 ?ds = ns" using assms(1) by (rule read_fixed_digits)
  have "us \<noteq> []"
  proof
    assume "us = []"
    with ds have "?ds = replicate k (CHR ''0'')" by simp
    moreover have "read_nat 0 (replicate k (CHR ''0'')) = 0"
      by (induction k) (simp_all add: digit_val_def)
    ultimately show False using read False by simp
  qed
  then obtain d us' where us: "us = d # us'" by (cases us) auto
  have dig: "\<forall>c \<in> set us. is_digit c" using fixed_digits_are_digits [of 9 ns] ds by simp
  have tw: "takeWhile is_digit (us @ r) = us" "dropWhile is_digit (us @ r) = r"
    using dig assms(2,3) by (cases r; simp add: takeWhile_append dropWhile_append)+
  have "length us + k = 9" using ds by (metis fixed_digits_length length_append length_replicate)
  then have "take 9 (us @ replicate 9 (CHR ''0'')) = ?ds"
    using ds by (simp add: take_replicate min_def)
  with read have "frac_value us = ns" by (simp only: frac_value_def)
  with tw us dig False show ?thesis
    by (simp add: frac_text_def get_fraction_def flip: us_def)
qed

lemma get_zone_text: "\<bar>z\<bar> < 24 * 60 \<Longrightarrow> get_zone (zone_text z) = Some z"
proof (cases "z = 0")
  case False
  assume a: "\<bar>z\<bar> < 24 * 60"
  then have b: "nat \<bar>z\<bar> div 60 < 24" "nat \<bar>z\<bar> mod 60 < 60" by linarith+
  then have "nat \<bar>z\<bar> div 60 < 100" "nat \<bar>z\<bar> mod 60 < 100" by linarith+
  note two = get_two_digits(1) [OF this(1)] get_two_digits(2) [OF this(2)]
  have "int (nat \<bar>z\<bar> div 60) * 60 + int (nat \<bar>z\<bar> mod 60) = \<bar>z\<bar>"
    by (metis abs_ge_zero div_mult_mod_eq int_nat_eq of_nat_add of_nat_mult of_nat_numeral)
  then show ?thesis using two b False
    by (auto simp: get_zone_def zone_text_def)
qed (simp add: get_zone_def zone_text_def)

theorem parse_marshal_time:
  assumes "marshal_time zone t = Some s"
  shows "parse_rfc3339 s = Some t"
proof -
  define l where "l = t + zone * minute"
  define secs where "secs = l div second"
  define ns where "ns = nat (l mod second)"
  define sod where "sod = nat (secs mod 86400)"
  obtain y m d where ymd: "civil_from_days (secs div 86400) = (y, m, d)" by (metis prod_cases3)
  note civ = civil_from_days_valid [OF ymd]
  have y: "0 \<le> y" "y \<le> 9999" and zone: "\<bar>zone\<bar> < 24 * 60"
    and s: "s = fixed_digits 4 (nat y) @ ''-'' @ fixed_digits 2 (nat m) @ ''-'' @ fixed_digits 2 (nat d)
           @ ''T'' @ fixed_digits 2 (sod div 3600) @ '':'' @ fixed_digits 2 (sod div 60 mod 60)
           @ '':'' @ fixed_digits 2 (sod mod 60) @ frac_text ns @ zone_text zone"
    using assms ymd by (auto simp: marshal_time_def Let_def l_def secs_def ns_def sod_def split: if_splits)
  have "days_in_month y m \<le> 31" by (simp add: days_in_month_def)
  with civ have d: "nat d < 100" "nat m < 100" "int (nat d) = d" "int (nat m) = m" "1 \<le> nat d" "1 \<le> nat m"
    "nat m \<le> 12" by auto
  have sod: "sod < 86400" "int sod = secs mod 86400" by (simp_all add: sod_def nat_less_iff)
  then have hms: "sod div 3600 < 24" "sod div 60 mod 60 < 60" "sod mod 60 < 60"
    by (simp_all add: div_less_iff_less_mult)
  have ns: "ns < 10 ^ 9" "int ns = l mod second" by (simp_all add: ns_def second_def nat_less_iff)
  have frac: "get_fraction (frac_text ns @ zone_text zone) = (ns, zone_text zone)"
    using get_fraction_text [OF ns(1)] zone_text_no_digit by blast
  have "sod div 60 div 60 = sod div 3600" by (simp add: div_mult2_eq [symmetric])
  then have "sod = sod div 3600 * 3600 + sod div 60 mod 60 * 60 + sod mod 60"
    using div_mult_mod_eq [of sod 60] div_mult_mod_eq [of "sod div 60" 60] by linarith
  then have "int (sod div 3600) * 3600 + int (sod div 60 mod 60) * 60 + int (sod mod 60) = int sod"
    by (metis (no_types, opaque_lifting) of_nat_add of_nat_mult of_nat_numeral)
  then have "days_from_civil y m d * 86400 + int (sod div 3600) * 3600 + int (sod div 60 mod 60) * 60
      + int (sod mod 60) = secs"
    using civ(5) sod(2) by (metis add.assoc div_mult_mod_eq)
  then have val: "(days_from_civil y m d * 86400 + int (sod div 3600) * 3600 + int (sod div 60 mod 60) * 60
      + int (sod mod 60)) * second + int ns - zone * minute = t"
    using ns(2) by (simp add: secs_def l_def)
  have hour: "get_hour (fixed_digits 2 (sod div 3600) @ r) = Some (sod div 3600, r)" for r
    using hms by (simp add: get_hour_fixed)
  have yr: "get_digits 4 (fixed_digits 4 (nat y) @ r) = Some (nat y, r)" for r
    using y by (intro get_digits_fixed) simp
  have lt: "sod div 60 mod 60 < 100" "sod mod 60 < 100" using hms by linarith+
  note two = get_two_digits(1) [OF d(1)] get_two_digits(1) [OF d(2)]
    get_two_digits(1) [OF lt(1)] get_two_digits(1) [OF lt(2)]
  have "1 \<le> nat m \<and> nat m \<le> 12 \<and> 1 \<le> nat d \<and> int (nat d) \<le> days_in_month (int (nat y)) (int (nat m)) \<and>
      sod div 3600 < 24 \<and> sod div 60 mod 60 < 60 \<and> sod mod 60 < 60"
    using civ hms d y by simp
  moreover have "int (nat y) = y" using y by simp
  ultimately show ?thesis
    unfolding parse_rfc3339_def s
    by (simp only: append_Cons append_Nil append_assoc yr hour two frac get_zone_text [OF zone] expect.simps
        Option.bind.bind_lunit prod.case Let_def if_True simp_thms val d)
qed

lemma marshal_time_SomeI:
  assumes "fst (civil_from_days ((t + zone * minute) div second div 86400)) \<in> {0..9999}" "\<bar>zone\<bar> < 24 * 60"
  shows "\<exists>s. marshal_time zone t = Some s"
  using assms by (auto simp: marshal_time_def Let_def split: prod.splits)

end
