(* ===== verification/Go_Json_Decode.thy ===== *)
theory Go_Json_Decode
  imports Go_Json Go_Rfc3339
begin

section \<open>Decoding JSON documents into Go structs\<close>

text \<open>
  The struct decoder of \<open>encoding/json\<close> as the gateway uses it.  A struct type is a list of
  its tagged fields with the decoder of each; a member whose name is no field's (exactly,
  or under the decoder's case folding) is ignored, a repeated member overwrites, \<open>null\<close>
  leaves a field alone, and a value of the wrong type makes the whole decoding an error.
  Decoding a document that the encoder printed is a fold over its members.
\<close>

subsection \<open>The encoder's literals lex back\<close>

lemma string_literal_json_escape: "valid_utf8 s \<Longrightarrow> string_literal (json_escape s)"
  by (simp add: string_literal_def scan_json_escape)

lemma show_nat_no_leading_zero: "0 < n \<Longrightarrow> \<exists>c r. show_nat n = c # r \<and> c \<noteq> CHR ''0'' \<and> is_digit c"
proof (induction n rule: show_nat.induct)
  case (1 n)
  show ?case
  proof (cases "n < 10")
    case True
    have "digit_val (digit_char n) \<noteq> digit_val (CHR ''0'')"
      unfolding digit_char(2) [OF True] using 1(2) by (simp add: digit_val_def)
    then have "digit_char n \<noteq> CHR ''0''" by metis
    with True show ?thesis by (subst show_nat.simps) simp
  next
    case False
    then have "0 < n div 10" by (simp add: div_greater_zero_iff)
    with 1 False obtain c r where "show_nat (n div 10) = c # r" "c \<noteq> CHR ''0''" "is_digit c" by auto
    with False show ?thesis by (subst show_nat.simps) simp
  qed
qed

lemma lex_unsigned_show_nat:
  assumes t: "t = [] \<or> \<not> number_byte (hd t)"
  shows "lex_unsigned (show_nat n @ t) = Some (show_nat n, t)"
proof -
  have nd: "takeWhile is_digit t = [] \<and> dropWhile is_digit t = t"
    using t by (cases t) (auto simp: number_byte_def)
  have tw: "takeWhile is_digit (show_nat n @ t) = show_nat n" "dropWhile is_digit (show_nat n @ t) = t"
    using nd show_nat_digits [of n] by (simp_all add: takeWhile_append dropWhile_append)
  have i: "lex_int (show_nat n @ t) = Some (show_nat n, t)"
  proof (cases "n = 0")
    case True
    have "char_of (48 :: nat) = CHR ''0''" using char_of_byte [of "CHR ''0''"] by simp
    with True have "show_nat n = ''0''" by (subst show_nat.simps) (simp add: digit_char_def)
    then show ?thesis by (simp add: lex_int_def)
  next
    case False
    with show_nat_no_leading_zero obtain c r where c: "show_nat n = c # r" "c \<noteq> CHR ''0''" "is_digit c" by blast
    with tw show ?thesis by (simp add: lex_int_def)
  qed
  have "lex_frac t = Some ([], t)" "lex_exp t = Some ([], t)"
    using t by (auto simp: lex_frac_def lex_exp_def number_byte_def split: list.splits)
  with i show ?thesis by (simp add: lex_unsigned_def)
qed

lemma number_literal_itoa: "number_literal (itoa i)"
proof -
  have head: "show_nat n \<noteq> [] \<and> is_digit (hd (show_nat n))" for n
    using show_nat_digits [of n] by (simp add: hd_in_set)
  have minus: "\<not> is_digit (CHR ''-'')" by (simp add: is_digit_def byte_in_def)
  have "lex_number (show_nat n @ t) = Some (show_nat n, t)" if "t = [] \<or> \<not> number_byte (hd t)" for n t
  proof -
    obtain c r where c: "show_nat n = c # r" by (cases "show_nat n") auto
    with head [of n] minus have "c \<noteq> CHR ''-''" by auto
    with lex_unsigned_show_nat [OF that, of n] c show ?thesis by (simp add: lex_number_def)
  qed
  then have pos: "number_literal (show_nat n)" for n
    using head unfolding number_literal_def by blast
  have "lex_number ((CHR ''-'' # show_nat n) @ t) = Some (CHR ''-'' # show_nat n, t)"
    if "t = [] \<or> \<not> number_byte (hd t)" for n t
    using lex_unsigned_show_nat [OF that, of n] by (simp add: lex_number_def prepend_def)
  then have "number_literal (CHR ''-'' # show_nat n)" for n
    unfolding number_literal_def by simp
  with pos show ?thesis by (simp add: itoa_def)
qed

lemma string_literal_any: "string_literal (json_escape s)"
  by (simp add: string_literal_def scan_json_escape_any)

lemma good_jstring [simp]: "good_json (jstring s)" and depth_jstring [simp]: "json_depth (jstring s) = 0"
  by (simp_all add: jstring_def string_literal_any)

lemma good_jint [simp]: "good_json (jint i)" and depth_jint [simp]: "json_depth (jint i) = 0"
  by (simp_all add: jint_def number_literal_itoa)

lemma good_jobject [simp]:
  "good_json (jobject kvs) \<longleftrightarrow> (\<forall>(k, v) \<in> set kvs. string_literal (json_escape k) \<and> good_json v)"
  by (auto simp: jobject_def)

lemma depth_jobject_flat:
  assumes "\<forall>(k, v) \<in> set kvs. json_depth v = 0"
  shows "json_depth (jobject kvs) = Suc 0"
proof -
  have "foldr max (map (\<lambda>(k, v). json_depth v) (map (\<lambda>(k, v). (json_escape k, v)) kvs)) 0 = (0::nat)"
    using assms by (induction kvs) auto
  then show ?thesis by (simp add: jobject_def)
qed

lemma parse_print_flat_object:
  assumes "\<forall>(k, v) \<in> set kvs. valid_utf8 k \<and> good_json v \<and> json_depth v = 0"
  shows "parse_json (print_json (jobject kvs)) = Some (jobject kvs)"
proof (rule parse_print_json)
  show "good_json (jobject kvs)" using assms by (auto simp: string_literal_json_escape)
  have "json_depth (jobject kvs) = Suc 0" using assms by (intro depth_jobject_flat) auto
  then show "json_depth (jobject kvs) \<le> max_nesting" by (simp add: max_nesting_def)
qed

subsection \<open>Field names\<close>

text \<open>
  The decoder folds ASCII letters to upper case, U+017F to \<open>S\<close> and the Kelvin sign to \<open>K\<close>;
  no other code point folds to an ASCII letter, and every field name here is ASCII.
\<close>

definition ascii_upper :: "char \<Rightarrow> char" where
  "ascii_upper c = (if is_lower c then char_of (byte c - 32) else c)"

fun fold_name :: "string \<Rightarrow> string" where
  "fold_name [] = []"
| "fold_name [a] = [ascii_upper a]"
| "fold_name [a, b] =
     (if byte a = 0xC5 \<and> byte b = 0xBF then ''S'' else [ascii_upper a, ascii_upper b])"
| "fold_name (a # b # c # s) =
     (if byte a = 0xC5 \<and> byte b = 0xBF then CHR ''S'' # fold_name (c # s)
      else if byte a = 0xE2 \<and> byte b = 0x84 \<and> byte c = 0xAA then CHR ''K'' # fold_name s
      else ascii_upper a # fold_name (b # c # s))"

type_synonym 's field = "string \<times> (json \<Rightarrow> 's \<Rightarrow> 's option)"

definition find_field :: "'s field list \<Rightarrow> string \<Rightarrow> (json \<Rightarrow> 's \<Rightarrow> 's option) option" where
  "find_field fs k = (case map_of fs k of
      Some d \<Rightarrow> Some d
    | None \<Rightarrow> map_of (map (\<lambda>(n, d). (fold_name n, d)) fs) (fold_name k))"

lemma find_field_exact: "map_of fs k = Some d \<Longrightarrow> find_field fs k = Some d"
  by (simp add: find_field_def)

lemma find_field_None:
  assumes "fold_name k \<notin> set (map (\<lambda>f. fold_name (fst f)) fs)"
  shows "find_field fs k = None"
proof -
  have "map_of fs k = None" using assms by (force simp: map_of_eq_None_iff)
  moreover have "map_of (map (\<lambda>(n, d). (fold_name n, d)) fs) (fold_name k) = None"
    using assms by (force simp: map_of_eq_None_iff)
  ultimately show ?thesis by (simp add: find_field_def)
qed

fun decode_members :: "'s field list \<Rightarrow> (string \<times> json) list \<Rightarrow> 's \<Rightarrow> 's option" where
  "decode_members fs [] s = Some s"
| "decode_members fs ((k, v) # kvs) s =
     (case unquote k of
        None \<Rightarrow> None
      | Some n \<Rightarrow>
          (case find_field fs n of
             None \<Rightarrow> decode_members fs kvs s
           | Some d \<Rightarrow> Option.bind (d v s) (decode_members fs kvs)))"

definition decode_struct :: "'s field list \<Rightarrow> json \<Rightarrow> 's \<Rightarrow> 's option" where
  "decode_struct fs v s = (case v of
      JNull \<Rightarrow> Some s
    | JObj kvs \<Rightarrow> decode_members fs kvs s
    | _ \<Rightarrow> None)"

text \<open>\<open>json.Unmarshal\<close> of a document into a struct.\<close>

definition unmarshal :: "'s field list \<Rightarrow> string \<Rightarrow> 's \<Rightarrow> 's option" where
  "unmarshal fs doc s = Option.bind (parse_json doc) (\<lambda>v. decode_struct fs v s)"

subsection \<open>Reading the first value of a stream\<close>

text \<open>\<open>Decoder.Decode\<close> stops after one value; what follows it in the stream is not looked at.\<close>

fun verdict :: "pmode \<Rightarrow> json option option" where
  "verdict (PDone v) = Some (Some v)"
| "verdict PBad = Some None"
| "verdict _ = None"

function parse_stream :: "pmode \<times> frame list \<Rightarrow> string \<Rightarrow> json option" where
  "parse_stream ms s = (case verdict (fst ms) of
      Some r \<Rightarrow> r
    | None \<Rightarrow> (case s of
        [] \<Rightarrow> None
      | c # r \<Rightarrow>
          if is_json_space c then parse_stream ms r
          else (case lex_token s of
              None \<Rightarrow> None
            | Some (t, q) \<Rightarrow> parse_stream (parse_step (fst ms) (snd ms) t) q)))"
  by pat_completeness auto
termination
  by (relation "measure (\<lambda>(ms, s). length s)") (auto dest: lex_token_length)

declare parse_stream.simps [simp del]

definition decode_first :: "string \<Rightarrow> json option" where
  "decode_first s = parse_stream (PVal, []) s"

lemma parse_run_bad: "parse_run (PBad, st) ts = None"
  by (induction ts arbitrary: st) (simp_all add: parse_step_def bad_state_def)

lemma parse_run_done: "parse_run (PDone v, st) ts = Some w \<Longrightarrow> w = v"
  by (cases ts) (simp_all add: parse_step_def bad_state_def parse_run_bad)

lemma verdict_run:
  "verdict m = Some r \<Longrightarrow> parse_run (m, st) ts = Some v \<Longrightarrow> r = Some v"
  by (cases m) (auto simp: parse_run_bad dest: parse_run_done)

lemma verdict_None_Nil: "verdict m = None \<Longrightarrow> parse_run (m, st) [] = None"
  by (cases m) auto

lemma parse_stream_lex:
  "lex s = Some ts \<Longrightarrow> parse_run ms ts = Some v \<Longrightarrow> parse_stream ms s = Some v"
proof (induction ms s arbitrary: ts rule: parse_stream.induct)
  case (1 ms s)
  obtain m st where ms: "ms = (m, st)" by fastforce
  show ?case
  proof (cases "verdict m")
    case (Some r)
    with 1(4) verdict_run show ?thesis by (subst parse_stream.simps) (simp add: ms)
  next
    case None
    show ?thesis
    proof (cases s)
      case Nil
      with 1(3,4) None verdict_None_Nil show ?thesis by (simp add: ms lex.simps)
    next
      case (Cons c r)
      show ?thesis
      proof (cases "is_json_space c")
        case True
        with 1(3) Cons have "lex r = Some ts" by (simp add: lex.simps [of "c # r"])
        with 1(1) [OF _ Cons True] 1(4) None Cons True show ?thesis
          by (subst parse_stream.simps) (simp add: ms)
      next
        case False
        with 1(3) Cons obtain t q us where t: "lex_token s = Some (t, q)" "lex q = Some us" "ts = t # us"
          by (auto simp: lex.simps [of "c # r"] split: option.splits)
        with 1(4) have "parse_run (parse_step m st t) us = Some v" by (simp add: ms)
        with 1(2) [OF _ Cons False t(1) refl t(2)] None Cons False t show ?thesis
          by (subst parse_stream.simps) (simp add: ms)
      qed
    qed
  qed
qed

theorem decode_first_document: "parse_json s = Some v \<Longrightarrow> decode_first s = Some v"
  unfolding parse_json_def decode_first_def bind_eq_Some_conv using parse_stream_lex by blast

subsection \<open>Field decoders\<close>

definition dec_string :: "(string \<Rightarrow> 's \<Rightarrow> 's) \<Rightarrow> json \<Rightarrow> 's \<Rightarrow> 's option" where
  "dec_string put v s = (case v of
      JNull \<Rightarrow> Some s
    | JStr r \<Rightarrow> map_option (\<lambda>x. put x s) (unquote r)
    | _ \<Rightarrow> None)"

definition dec_bool :: "(bool \<Rightarrow> 's \<Rightarrow> 's) \<Rightarrow> json \<Rightarrow> 's \<Rightarrow> 's option" where
  "dec_bool put v s = (case v of
      JNull \<Rightarrow> Some s
    | JBool b \<Rightarrow> Some (put b s)
    | _ \<Rightarrow> None)"

text \<open>\<open>strconv.ParseInt\<close> in base 10 at 64 bits, on a JSON number literal.\<close>

definition parse_int64 :: "string \<Rightarrow> int option" where
  "parse_int64 s =
     (let (neg, d) = (case s of c # r \<Rightarrow> if c = CHR ''-'' then (True, r) else if c = CHR ''+'' then (False, r) else (False, s)
                              | [] \<Rightarrow> (False, []));
          i = (if neg then - int (read_nat 0 d) else int (read_nat 0 d))
      in if d = [] \<or> \<not> list_all is_digit d \<or> \<not> in_int64 i then None else Some i)"

lemma parse_int64_itoa: "in_int64 i \<Longrightarrow> parse_int64 (itoa i) = Some i"
proof -
  assume r: "in_int64 i"
  have d: "list_all is_digit (show_nat n)" for n using show_nat_digits by (simp add: list_all_iff)
  have h: "\<exists>c q. show_nat n = c # q \<and> c \<noteq> CHR ''-'' \<and> c \<noteq> CHR ''+''" for n
  proof -
    obtain c q where "show_nat n = c # q" by (cases "show_nat n") auto
    moreover with show_nat_digits [of n] have "is_digit c" by simp
    then have "c \<noteq> CHR ''-'' \<and> c \<noteq> CHR ''+''" by (auto simp: is_digit_def byte_in_def)
    ultimately show ?thesis by blast
  qed
  show ?thesis
  proof (cases "i < 0")
    case True
    with r d show ?thesis by (simp add: parse_int64_def itoa_def)
  next
    case False
    obtain c q where c: "show_nat (nat i) = c # q" "c \<noteq> CHR ''-''" "c \<noteq> CHR ''+''" using h by blast
    have "read_nat 0 (c # q) = nat i" "list_all is_digit (c # q)"
      unfolding c(1) [symmetric] using d by simp_all
    with False r c show ?thesis by (simp add: parse_int64_def itoa_def del: read_nat.simps)
  qed
qed

definition dec_int :: "(int \<Rightarrow> 's \<Rightarrow> 's) \<Rightarrow> json \<Rightarrow> 's \<Rightarrow> 's option" where
  "dec_int put v s = (case v of
      JNull \<Rightarrow> Some s
    | JNum n \<Rightarrow> map_option (\<lambda>x. put x s) (parse_int64 n)
    | _ \<Rightarrow> None)"

text \<open>\<open>time.Time\<close> decodes itself from the raw text of the string literal.\<close>

definition dec_time :: "(instant \<Rightarrow> 's \<Rightarrow> 's) \<Rightarrow> json \<Rightarrow> 's \<Rightarrow> 's option" where
  "dec_time put v s = (case v of
      JNull \<Rightarrow> Some s
    | JStr r \<Rightarrow> map_option (\<lambda>x. put x s) (parse_rfc3339 r)
    | _ \<Rightarrow> None)"

text \<open>The encoder's time: its text needs no escaping, so it is the literal itself.\<close>

definition json_time :: "int \<Rightarrow> instant \<Rightarrow> json option" where
  "json_time zone t = map_option JStr (marshal_time zone t)"

lemma json_safe_escape: "list_all json_safe s \<Longrightarrow> json_escape s = s"
proof (induction s)
  case (Cons c s)
  then have "byte c < 128" by (simp add: json_safe_def)
  with Cons show ?case by (simp add: json_escape.simps(2) escape_byte_def)
qed simp

lemma json_safe_valid: "list_all json_safe s \<Longrightarrow> valid_utf8 s"
  by (rule valid_utf8_ascii_string) (auto simp: list_all_iff json_safe_def)

lemma json_safe_literal: "list_all json_safe s \<Longrightarrow> string_literal s"
  using string_literal_json_escape [OF json_safe_valid] json_safe_escape by metis

lemma fixed_digits_safe: "list_all json_safe (fixed_digits k n)"
  using fixed_digits_are_digits [of k n] 
  by (auto simp: list_all_iff json_safe_def is_digit_def byte_in_def)

lemma marshal_time_safe:
  assumes "marshal_time zone t = Some s"
  shows "list_all json_safe s"
proof -
  have plain: "json_safe (CHR ''-'')" "json_safe (CHR '':'')" "json_safe (CHR ''T'')" "json_safe (CHR ''.'')"
    "json_safe (CHR ''Z'')" "json_safe (CHR ''+'')"
    by (simp_all add: json_safe_def)
  have trim: "list_all json_safe xs \<Longrightarrow> list_all json_safe (rev (dropWhile P (rev xs)))" for P xs
    by (fastforce simp: list_all_iff dest: set_dropWhileD)
  then have "list_all json_safe (frac_text n)" for n
    using plain fixed_digits_safe unfolding frac_text_def by simp
  moreover have "list_all json_safe (zone_text z)" for z
    using plain fixed_digits_safe by (simp add: zone_text_def)
  ultimately show ?thesis
    using assms plain fixed_digits_safe by (auto simp: marshal_time_def Let_def split: prod.splits if_splits)
qed

lemma json_time_good: "json_time zone t = Some v \<Longrightarrow> good_json v \<and> json_depth v = 0"
  using marshal_time_safe json_safe_literal by (auto simp: json_time_def)

lemma dec_time_json_time [simp]: "json_time zone t = Some v \<Longrightarrow> dec_time put v s = Some (put t s)"
  using parse_marshal_time by (auto simp: json_time_def dec_time_def)

text \<open>A pointer field: \<open>null\<close> is \<open>nil\<close>, anything else is decoded into a fresh value.\<close>

definition dec_bool_ptr :: "(bool option \<Rightarrow> 's \<Rightarrow> 's) \<Rightarrow> json \<Rightarrow> 's \<Rightarrow> 's option" where
  "dec_bool_ptr put v s = (case v of
      JNull \<Rightarrow> Some (put None s)
    | JBool b \<Rightarrow> Some (put (Some b) s)
    | _ \<Rightarrow> None)"

definition dec_ptr :: "(json \<Rightarrow> 'a option) \<Rightarrow> ('a option \<Rightarrow> 's \<Rightarrow> 's) \<Rightarrow> json \<Rightarrow> 's \<Rightarrow> 's option" where
  "dec_ptr inner put v s = (case v of
      JNull \<Rightarrow> Some (put None s)
    | _ \<Rightarrow> map_option (\<lambda>x. put (Some x) s) (inner v))"

definition int_value :: "json \<Rightarrow> int option" where
  "int_value v = (case v of JNum n \<Rightarrow> parse_int64 n | _ \<Rightarrow> None)"

definition time_value :: "json \<Rightarrow> instant option" where
  "time_value v = (case v of JStr r \<Rightarrow> parse_rfc3339 r | _ \<Rightarrow> None)"

text \<open>A pointer to a struct is decoded into what it points to already.\<close>

definition dec_struct_ptr ::
  "'a field list \<Rightarrow> 'a \<Rightarrow> ('s \<Rightarrow> 'a option) \<Rightarrow> ('a option \<Rightarrow> 's \<Rightarrow> 's) \<Rightarrow> json \<Rightarrow> 's \<Rightarrow> 's option" where
  "dec_struct_ptr fs zero get put v s = (case v of
      JNull \<Rightarrow> Some (put None s)
    | _ \<Rightarrow> map_option (\<lambda>x. put (Some x) s) (decode_struct fs v (case get s of None \<Rightarrow> zero | Some x \<Rightarrow> x)))"

text \<open>A slice of structs; \<open>null\<close> is the nil slice.\<close>

definition decode_list :: "'a field list \<Rightarrow> 'a \<Rightarrow> json \<Rightarrow> 'a list option" where
  "decode_list fs zero v = (case v of
      JNull \<Rightarrow> Some []
    | JArr vs \<Rightarrow> those (map (\<lambda>x. decode_struct fs x zero) vs)
    | _ \<Rightarrow> None)"

definition dec_list :: "'a field list \<Rightarrow> 'a \<Rightarrow> ('a list \<Rightarrow> 's \<Rightarrow> 's) \<Rightarrow> json \<Rightarrow> 's \<Rightarrow> 's option" where
  "dec_list fs zero put v s = map_option (\<lambda>xs. put xs s) (decode_list fs zero v)"

lemma dec_string_jstring [simp]: "valid_utf8 x \<Longrightarrow> dec_string put (jstring x) s = Some (put x s)"
  by (simp add: dec_string_def jstring_def unquote_json_escape)

lemma dec_int_jint [simp]: "in_int64 i \<Longrightarrow> dec_int put (jint i) s = Some (put i s)"
  by (simp add: dec_int_def jint_def parse_int64_itoa)

subsection \<open>Decoding what the encoder printed\<close>

fun decode_plain :: "'s field list \<Rightarrow> (string \<times> json) list \<Rightarrow> 's \<Rightarrow> 's option" where
  "decode_plain fs [] s = Some s"
| "decode_plain fs ((n, v) # kvs) s =
     (case find_field fs n of
        None \<Rightarrow> decode_plain fs kvs s
      | Some d \<Rightarrow> Option.bind (d v s) (decode_plain fs kvs))"

lemma decode_members_escaped:
  assumes "\<forall>(k, v) \<in> set kvs. valid_utf8 k"
  shows "decode_members fs (map (\<lambda>(k, v). (json_escape k, v)) kvs) s = decode_plain fs kvs s"
  using assms
proof (induction fs kvs s rule: decode_plain.induct)
  case (2 fs n v kvs s)
  then show ?case
    by (cases "find_field fs n"; cases "the (find_field fs n) v s") (simp_all add: unquote_json_escape)
qed simp

theorem unmarshal_printed:
  assumes "\<forall>(k, v) \<in> set kvs. valid_utf8 k \<and> good_json v \<and> json_depth v = 0"
  shows "unmarshal fs (print_json (jobject kvs)) s = decode_plain fs kvs s"
proof -
  have "parse_json (print_json (jobject kvs)) = Some (jobject kvs)"
    using assms by (intro parse_print_flat_object)
  moreover have "\<forall>(k, v) \<in> set kvs. valid_utf8 k" using assms by auto
  ultimately show ?thesis
    by (simp add: unmarshal_def decode_struct_def jobject_def decode_members_escaped)
qed

end
