(* ===== verification/Session.thy ===== *)
theory Session
  imports Signed_Cookie Audit_Trail Go_Json_Decode Go_Time
begin

section \<open>Session cookies (\<open>internal/auth/session.go\<close>)\<close>

text \<open>
  The session payload, its JSON codec, the signed token, the cookie that carries it, the
  deadlines and the validation of a request's cookie.  Readings of the clock are explicit:
  a handler reads \<open>en_clock env 0\<close>, \<open>en_clock env 1\<close> and so on in the order of the calls
  to \<open>time.Now\<close> in the code, and nothing is assumed of them unless a lemma says so.  The
  local time zone only enters the text of an instant: \<open>en_zone env t\<close> is its offset from
  UTC at \<open>t\<close>, in minutes.
\<close>

subsection \<open>State\<close>

record environment =
  en_clock :: "nat \<Rightarrow> instant"
  en_zone :: "instant \<Rightarrow> int"

record session =
  se_email :: string
  se_issued_at :: instant
  se_expires_at :: instant
  se_last_seen :: instant
  se_id_token :: string

text \<open>The fields of \<open>OIDCAuth\<close>; provider, OAuth2 endpoint and verifier are arguments of the flow.\<close>

record oidc_auth =
  oa_client_id :: string
  oa_client_secret :: string
  oa_redirect_url :: string
  oa_session_key :: string
  oa_absolute_ttl :: duration
  oa_idle_ttl :: duration
  oa_secure_cookies :: bool
  oa_require_email_verified :: bool
  oa_mfa_acr :: "string list"
  oa_end_session_endpoint :: string
  oa_post_logout_redirect :: string

record gw_request = request +
  rq_session :: "session option"

definition gw_get :: "string \<Rightarrow> gw_request" where
  "gw_get p = request.extend (get_request p) (gw_request.fields None)"

lemma gw_get_parts [simp]:
  "rq_method (gw_get p) = ''GET''" "rq_url (gw_get p) = empty_url\<lparr> u_path := p \<rparr>" "rq_headers (gw_get p) = Map.empty"
  "rq_cookies (gw_get p) = []" "rq_session (gw_get p) = None" "rq_path_values (gw_get p) = Map.empty"
  "rq_content_length (gw_get p) = 0" "rq_body (gw_get p) = []" "rq_body_error (gw_get p) = None"
  by (simp_all add: gw_get_def get_request_def request.defs gw_request.defs)

text \<open>A configuration and a clock for the examples.\<close>

definition sample_auth :: oidc_auth where
  "sample_auth =
     \<lparr> oa_client_id = ''atrium'', oa_client_secret = ''secret'', oa_redirect_url = ''https://gw.example/auth/callback'',
       oa_session_key = ''0123456789abcdef0123456789abcdef'', oa_absolute_ttl = 8 * hour, oa_idle_ttl = 15 * minute,
       oa_secure_cookies = True, oa_require_email_verified = True, oa_mfa_acr = [''mfa''],
       oa_end_session_endpoint = [], oa_post_logout_redirect = ''https://gw.example/auth/logged-out'' \<rparr>"

definition sample_env :: environment where
  "sample_env = \<lparr> en_clock = (\<lambda>_. 1700000000 * second), en_zone = (\<lambda>_. 0) \<rparr>"

definition session_cookie_name :: string where "session_cookie_name = ''atrium_session''"
definition session_refresh_interval :: duration where "session_refresh_interval = minute"

definition err_no_session :: go_error where "err_no_session = Sentinel ''no session cookie''"
definition err_invalid_session :: go_error where "err_invalid_session = Sentinel ''invalid session''"
definition err_session_expired :: go_error where "err_session_expired = Sentinel ''session expired''"
definition err_session_idle :: go_error where "err_session_idle = Sentinel ''session idle''"

lemmas session_errors = err_no_session_def err_invalid_session_def err_session_expired_def err_session_idle_def

definition last_activity :: "session \<Rightarrow> instant" where
  "last_activity d = (if is_zero (se_last_seen d) then se_issued_at d else se_last_seen d)"

subsection \<open>The payload codec\<close>

definition empty_session :: session where
  "empty_session = \<lparr> se_email = [], se_issued_at = zero_time, se_expires_at = zero_time,
     se_last_seen = zero_time, se_id_token = [] \<rparr>"

definition session_members :: "session \<Rightarrow> json \<Rightarrow> json \<Rightarrow> json \<Rightarrow> (string \<times> json) list" where
  "session_members d iat expiry seen =
     [(''email'', jstring (se_email d)), (''iat'', iat), (''exp'', expiry), (''seen'', seen)]
     @ (if se_id_token d = [] then [] else [(''idt'', jstring (se_id_token d))])"

definition session_json :: "(instant \<Rightarrow> int) \<Rightarrow> session \<Rightarrow> json option" where
  "session_json zone d =
     Option.bind (json_time (zone (se_issued_at d)) (se_issued_at d)) (\<lambda>iat.
     Option.bind (json_time (zone (se_expires_at d)) (se_expires_at d)) (\<lambda>expiry.
     Option.bind (json_time (zone (se_last_seen d)) (se_last_seen d)) (\<lambda>seen.
       Some (jobject (session_members d iat expiry seen)))))"

definition session_fields :: "session field list" where
  "session_fields =
     [(''email'', dec_string (\<lambda>x d. d\<lparr> se_email := x \<rparr>)),
      (''iat'', dec_time (\<lambda>x d. d\<lparr> se_issued_at := x \<rparr>)),
      (''exp'', dec_time (\<lambda>x d. d\<lparr> se_expires_at := x \<rparr>)),
      (''seen'', dec_time (\<lambda>x d. d\<lparr> se_last_seen := x \<rparr>)),
      (''idt'', dec_string (\<lambda>x d. d\<lparr> se_id_token := x \<rparr>))]"

definition marshal_session :: "(instant \<Rightarrow> int) \<Rightarrow> session \<Rightarrow> string option" where
  "marshal_session zone d = map_option print_json (session_json zone d)"

definition unmarshal_session :: "string \<Rightarrow> session option" where
  "unmarshal_session payload = unmarshal session_fields payload empty_session"

definition sign_and_encode :: "(instant \<Rightarrow> int) \<Rightarrow> session \<Rightarrow> string \<Rightarrow> go_error + string" where
  "sign_and_encode zone d key = (case marshal_session zone d of
      None \<Rightarrow> Inl (Wrap ''marshal session: '' (Plain ''json: error calling MarshalJSON for type time.Time'') [])
    | Some payload \<Rightarrow> Inr (seal key payload))"

definition decode_and_verify :: "instant \<Rightarrow> string \<Rightarrow> string \<Rightarrow> go_error + session" where
  "decode_and_verify now token key = (case open_token key token of
      Inl _ \<Rightarrow> Inl err_invalid_session
    | Inr payload \<Rightarrow>
        (case unmarshal_session payload of
           None \<Rightarrow> Inl err_invalid_session
         | Some d \<Rightarrow> if se_expires_at d < now then Inl err_session_expired else Inr d))"

subsection \<open>The cookie and its deadlines\<close>

definition seconds_until :: "instant \<Rightarrow> instant \<Rightarrow> int" where
  "seconds_until now t = int_seconds (duration_round (time_sub t now) second)"

definition session_deadline :: "oidc_auth \<Rightarrow> session \<Rightarrow> instant" where
  "session_deadline a d =
     (if oa_idle_ttl a \<le> 0 then se_expires_at d
      else let idle = last_activity d + oa_idle_ttl a
           in if idle < se_expires_at d then idle else se_expires_at d)"

definition session_cookie :: "oidc_auth \<Rightarrow> (instant \<Rightarrow> int) \<Rightarrow> instant \<Rightarrow> session \<Rightarrow> go_error + cookie" where
  "session_cookie a zone now d =
     bindr (sign_and_encode zone d (oa_session_key a)) (\<lambda>token.
       Inr \<lparr> ck_name = session_cookie_name, ck_value = token, ck_path = ''/'',
             ck_max_age = seconds_until now (session_deadline a d), ck_http_only = True,
             ck_secure = oa_secure_cookies a, ck_same_site = SameSiteLax \<rparr>)"

text \<open>The session \<open>createSessionCookie\<close> signs, then the cookie; the clock is read twice.\<close>

definition new_session :: "oidc_auth \<Rightarrow> instant \<Rightarrow> string \<Rightarrow> string \<Rightarrow> session" where
  "new_session a now email id_token =
     \<lparr> se_email = email, se_issued_at = now, se_expires_at = now + oa_absolute_ttl a,
       se_last_seen = now, se_id_token = id_token \<rparr>"

definition create_session_cookie ::
  "oidc_auth \<Rightarrow> (instant \<Rightarrow> int) \<Rightarrow> instant \<Rightarrow> instant \<Rightarrow> string \<Rightarrow> string \<Rightarrow> go_error + cookie" where
  "create_session_cookie a zone now now' email id_token =
     session_cookie a zone now' (new_session a now email id_token)"

definition clear_session_cookie :: "oidc_auth \<Rightarrow> cookie" where
  "clear_session_cookie a =
     \<lparr> ck_name = session_cookie_name, ck_value = [], ck_path = ''/'', ck_max_age = -1,
       ck_http_only = True, ck_secure = oa_secure_cookies a, ck_same_site = SameSiteLax \<rparr>"

text \<open>\<open>validateSessionCookie\<close> reads the clock once for the expiry and once for the idle check.\<close>

definition validate_session_cookie ::
  "environment \<Rightarrow> oidc_auth \<Rightarrow> 'a request_scheme \<Rightarrow> writer \<Rightarrow> (go_error + session) \<times> writer" where
  "validate_session_cookie env a r w = (case request_cookie r session_cookie_name of
      None \<Rightarrow> (Inl err_no_session, w)
    | Some v \<Rightarrow>
        (case decode_and_verify (en_clock env 0) v (oa_session_key a) of
           Inl e \<Rightarrow> (Inl e, w)
         | Inr d \<Rightarrow>
             if 0 < oa_idle_ttl a \<and> last_activity d + oa_idle_ttl a < en_clock env 1
             then (Inl err_session_idle,
                   audit_log r level_info event_session_idle [attr_str ''email'' (se_email d)] w)
             else (Inr d, w)))"

subsection \<open>The codec round trip\<close>

definition good_session :: "session \<Rightarrow> bool" where
  "good_session d \<longleftrightarrow> valid_utf8 (se_email d) \<and> valid_utf8 (se_id_token d)"

lemma session_field_lookup:
  "find_field session_fields ''email'' = Some (dec_string (\<lambda>x d. d\<lparr> se_email := x \<rparr>))"
  "find_field session_fields ''iat'' = Some (dec_time (\<lambda>x d. d\<lparr> se_issued_at := x \<rparr>))"
  "find_field session_fields ''exp'' = Some (dec_time (\<lambda>x d. d\<lparr> se_expires_at := x \<rparr>))"
  "find_field session_fields ''seen'' = Some (dec_time (\<lambda>x d. d\<lparr> se_last_seen := x \<rparr>))"
  "find_field session_fields ''idt'' = Some (dec_string (\<lambda>x d. d\<lparr> se_id_token := x \<rparr>))"
  by (rule find_field_exact, simp add: session_fields_def)+

lemma session_keys_valid:
  "valid_utf8 ''email''" "valid_utf8 ''iat''" "valid_utf8 ''exp''" "valid_utf8 ''seen''" "valid_utf8 ''idt''"
  by (rule json_safe_valid, simp add: json_safe_def)+

lemma marshal_session_cases:
  assumes "good_session d" "marshal_session zone d = Some b"
  obtains iat expiry seen where "json_time (zone (se_issued_at d)) (se_issued_at d) = Some iat"
    "json_time (zone (se_expires_at d)) (se_expires_at d) = Some expiry"
    "json_time (zone (se_last_seen d)) (se_last_seen d) = Some seen"
    "b = print_json (jobject (session_members d iat expiry seen))"
    "\<forall>(k, v) \<in> set (session_members d iat expiry seen). valid_utf8 k \<and> good_json v \<and> json_depth v = 0"
proof -
  obtain iat expiry seen where t: "json_time (zone (se_issued_at d)) (se_issued_at d) = Some iat"
    "json_time (zone (se_expires_at d)) (se_expires_at d) = Some expiry"
    "json_time (zone (se_last_seen d)) (se_last_seen d) = Some seen"
    and b: "b = print_json (jobject (session_members d iat expiry seen))"
    using assms(2) unfolding marshal_session_def session_json_def bind_eq_Some_conv map_option_eq_Some by blast
  have "\<forall>(k, v) \<in> set (session_members d iat expiry seen). valid_utf8 k \<and> good_json v \<and> json_depth v = 0"
    using t [THEN json_time_good] assms(1) session_keys_valid
    by (auto simp: good_session_def session_members_def)
  from that [OF t b this] show thesis .
qed

lemma session_member_names:
  "set (map fst (session_members d iat expiry seen)) \<subseteq> {''email'', ''iat'', ''exp'', ''seen'', ''idt''}"
  by (simp add: session_members_def)

lemma unmarshal_marshal_session:
  assumes "good_session d" "marshal_session zone d = Some b"
  shows "unmarshal_session b = Some d"
  using assms
proof (rule marshal_session_cases)
  fix iat expiry seen
  assume t: "json_time (zone (se_issued_at d)) (se_issued_at d) = Some iat"
    "json_time (zone (se_expires_at d)) (se_expires_at d) = Some expiry"
    "json_time (zone (se_last_seen d)) (se_last_seen d) = Some seen"
    and b: "b = print_json (jobject (session_members d iat expiry seen))"
    and good: "\<forall>(k, v) \<in> set (session_members d iat expiry seen). valid_utf8 k \<and> good_json v \<and> json_depth v = 0"
  show ?thesis
    unfolding unmarshal_session_def b unmarshal_printed [OF good]
    using assms(1)
    by (cases d) (auto simp: session_members_def session_field_lookup good_session_def empty_session_def
        t [THEN dec_time_json_time])
qed

interpretation session_codec: sealed_codec seal open_token marshal_session unmarshal_session good_session
  by unfold_locales (rule unmarshal_marshal_session)

lemma sign_and_encode_Inr:
  "sign_and_encode zone d key = Inr t \<longleftrightarrow> map_option (seal key) (marshal_session zone d) = Some t"
  by (simp add: sign_and_encode_def split: option.splits)

lemma decode_signed:
  assumes "good_session d" "sign_and_encode zone d key = Inr t"
  shows "decode_and_verify now t key = (if se_expires_at d < now then Inl err_session_expired else Inr d)"
proof -
  obtain b where "open_token key t = Inr b" "unmarshal_session b = Some d"
    using session_codec.open_encoded [OF assms(1)] assms(2) unfolding sign_and_encode_Inr by blast
  then show ?thesis by (simp add: decode_and_verify_def)
qed

lemma sign_and_encode_bytes: "sign_and_encode zone d key = Inr t \<Longrightarrow> \<forall>c \<in> set t. cookie_value_byte c"
  using seal_bytes by (auto simp: sign_and_encode_def split: option.splits)

lemma decode_and_verify_Inr:
  "decode_and_verify now v key = Inr d \<longleftrightarrow>
     (\<exists>p. open_token key v = Inr p \<and> unmarshal_session p = Some d \<and> now \<le> se_expires_at d)"
  by (auto simp: decode_and_verify_def split: sum.splits option.splits)

lemma sanitize_session_cookie:
  "session_cookie a zone now d = Inr c \<Longrightarrow> sanitize_cookie c = c"
  using sign_and_encode_bytes
  by (auto simp: session_cookie_def bindr_eq_Inr sanitize_cookie_def filter_cookie_id)

subsection \<open>A signed-in request\<close>

definition sample_session :: session where
  "sample_session = new_session sample_auth (en_clock sample_env 0) ''ada@example.org'' ''idt''"

definition sample_token :: string where
  "sample_token = seal (oa_session_key sample_auth) (the (marshal_session (en_zone sample_env) sample_session))"

definition signed_in :: "gw_request \<Rightarrow> gw_request" where
  "signed_in r = r\<lparr> rq_cookies := [(session_cookie_name, sample_token)] \<rparr>"

lemma sample_times:
  "\<exists>s. json_time 0 (1700000000 * second) = Some s" "\<exists>s. json_time 0 (1700000000 * second + 8 * hour) = Some s"
proof -
  have "fst (civil_from_days ((1700000000 * second + 0 * minute) div second div 86400)) = 2023"
    "fst (civil_from_days ((1700000000 * second + 8 * hour + 0 * minute) div second div 86400)) = 2023"
    by code_simp+
  then have "\<exists>s. marshal_time 0 (1700000000 * second) = Some s" "\<exists>s. marshal_time 0 (1700000000 * second + 8 * hour) = Some s"
    using marshal_time_SomeI [of "1700000000 * second" 0] marshal_time_SomeI [of "1700000000 * second + 8 * hour" 0]
    by simp_all
  then show "\<exists>s. json_time 0 (1700000000 * second) = Some s" "\<exists>s. json_time 0 (1700000000 * second + 8 * hour) = Some s"
    by (auto simp: json_time_def)
qed

lemma sample_signed: "sign_and_encode (en_zone sample_env) sample_session (oa_session_key sample_auth) = Inr sample_token"
proof -
  have "\<exists>p. marshal_session (en_zone sample_env) sample_session = Some p"
    using sample_times
    by (auto simp: marshal_session_def session_json_def sample_session_def new_session_def sample_env_def sample_auth_def)
  then show ?thesis by (auto simp: sign_and_encode_def sample_token_def)
qed

lemma sample_good: "good_session sample_session"
proof -
  have "list_all json_safe ''ada@example.org''" "list_all json_safe ''idt''" by (simp_all add: json_safe_def)
  then show ?thesis
    by (auto simp: good_session_def sample_session_def new_session_def intro: json_safe_valid)
qed

lemma sample_decodes: "decode_and_verify (1700000000 * second) sample_token (oa_session_key sample_auth) = Inr sample_session"
  using decode_signed [OF sample_good sample_signed]
  by (simp add: sample_session_def new_session_def sample_env_def sample_auth_def hour_def minute_def second_def)

lemma signed_in_valid: "validate_session_cookie sample_env sample_auth (signed_in r) w = (Inr sample_session, w)"
  using sample_decodes
  by (simp add: validate_session_cookie_def request_cookie_def signed_in_def sample_env_def)
    (simp add: last_activity_def sample_session_def new_session_def sample_auth_def sample_env_def
      is_zero_def zero_time_def duration_units)

subsection \<open>Properties\<close>

text \<open>C30: A session signed into a token and read back with the same key is the same session, to
  the nanosecond and whatever the server's time zone, until its absolute expiry; after it, the
  token is refused as expired.\<close>

theorem session_token_roundtrip:
  assumes "good_session d" "sign_and_encode zone d key = Inr t"
  shows "decode_and_verify now t key = (if se_expires_at d < now then Inl err_session_expired else Inr d)"
  using assms by (rule decode_signed)

lemma session_token_roundtrip_witness:
  "decode_and_verify (1700000000 * second) sample_token (oa_session_key sample_auth) = Inr sample_session
   \<and> decode_and_verify (1800000000 * second) sample_token (oa_session_key sample_auth) = Inl err_session_expired"
  using session_token_roundtrip [OF sample_good sample_signed]
  by (simp add: sample_session_def new_session_def sample_env_def sample_auth_def hour_def minute_def second_def)

text \<open>C18: Validation accepts a request exactly when its session cookie carries the HMAC of its
  payload under the session key, the payload decodes, the absolute expiry has not passed and,
  with an idle limit, neither has the idle deadline.\<close>

theorem validate_accepts_iff:
  "fst (validate_session_cookie env a r w) = Inr d \<longleftrightarrow>
     (\<exists>v p. request_cookie r session_cookie_name = Some v \<and> open_token (oa_session_key a) v = Inr p
        \<and> unmarshal_session p = Some d \<and> en_clock env 0 \<le> se_expires_at d
        \<and> (0 < oa_idle_ttl a \<longrightarrow> en_clock env 1 \<le> last_activity d + oa_idle_ttl a))"
  by (auto simp: validate_session_cookie_def decode_and_verify_Inr split: option.splits sum.splits)
   (auto simp: decode_and_verify_def split: option.splits sum.splits if_splits)

lemma validate_accepts_iff_witness:
  "\<exists>v p. request_cookie (signed_in (gw_get ''/'')) session_cookie_name = Some v
     \<and> open_token (oa_session_key sample_auth) v = Inr p \<and> unmarshal_session p = Some sample_session"
proof -
  have "fst (validate_session_cookie sample_env sample_auth (signed_in (gw_get ''/'')) new_writer) = Inr sample_session"
    by (simp add: signed_in_valid)
  from this [unfolded validate_accepts_iff] show ?thesis by blast
qed

end
