(* ===== verification/Next_Path.thy ===== *)
theory Next_Path
  imports Go_Http
begin

section \<open>The return path of a sign-in (\<open>safeNextPath\<close> of \<open>internal/auth/oidc.go\<close>)\<close>

text \<open>
  \<open>safeNextPath\<close> decides where a sign-in may return to.  The lemmas follow a path through
  \<open>url.Parse\<close> and \<open>EscapedPath\<close>; the results say when the value is a local path, that it
  can fail to be one after a single application, and that the two applications a sign-in
  makes (one at login, one at the callback, with the cookie between them) always give one.
\<close>

definition optional_raw_query :: "url \<Rightarrow> string" where
  "optional_raw_query u = (if u_raw_query u = [] then [] else CHR ''?'' # u_raw_query u)"

definition safe_next_path :: "string \<Rightarrow> string" where
  "safe_next_path raw =
     (if raw = [] \<or> \<not> has_prefix raw ''/'' \<or> has_prefix raw ''//'' then []
      else (case url_parse raw of
          None \<Rightarrow> []
        | Some u \<Rightarrow> if is_abs u \<or> u_host u \<noteq> [] then [] else escaped_path u @ optional_raw_query u))"

subsection \<open>A path through the URL parser\<close>

abbreviation before :: "char \<Rightarrow> string \<Rightarrow> string" where
  "before c s \<equiv> takeWhile (\<lambda>x. x \<noteq> c) s"

abbreviation after :: "char \<Rightarrow> string \<Rightarrow> string" where
  "after c s \<equiv> drop 1 (dropWhile (\<lambda>x. x \<noteq> c) s)"

lemma count_one_suffix:
  assumes "has_suffix s [c]" "count_list s c = 1"
  shows "butlast s = before c s" "after c s = []"
proof -
  from assms(1) obtain t where t: "s = t @ [c]" by (auto simp: has_suffix_iff)
  with assms(2) have "c \<notin> set t" by (simp add: count_list_0_iff)
  with t show "butlast s = before c s" "after c s = []"
    by (simp_all add: takeWhile_append dropWhile_append)
qed

lemma split_query_parts:
  "fst (split_query s) = before (CHR ''?'') s" "fst (snd (split_query s)) = after (CHR ''?'') s"
  using count_one_suffix [of s "CHR ''?''"] by (simp_all add: split_query_def cut_single)

lemma get_scheme_rooted: "has_prefix s ''/'' \<Longrightarrow> get_scheme s = Some ([], s)"
  by (auto simp: has_prefix_iff get_scheme_def scheme_char_def is_alnum_def is_lower_def is_upper_def
      is_digit_def byte_in_def)

lemma before_rooted: "has_prefix s ''/'' \<Longrightarrow> c \<noteq> CHR ''/'' \<Longrightarrow> has_prefix (before c s) ''/''"
  by (auto simp: has_prefix_iff)

lemma before_not_double:
  "\<not> has_prefix s ''//'' \<Longrightarrow> \<not> has_prefix (before c s) ''//''"
  by (metis has_prefix_appendI takeWhile_dropWhile_id)

lemma parse_rooted:
  assumes "has_prefix s ''/''" "\<not> has_prefix s ''//''"
  shows "parse_no_fragment s =
    (if list_ex is_ctl s then None
     else set_path (before (CHR ''?'') s)
       (empty_url\<lparr> u_raw_query := after (CHR ''?'') s, u_force_query := snd (snd (split_query s)) \<rparr>))"
proof -
  obtain p q f where s: "split_query s = (p, q, f)" by (cases "split_query s") auto
  with split_query_parts [of s] have pq: "p = before (CHR ''?'') s" "q = after (CHR ''?'') s" by simp_all
  have p: "has_prefix p ''/''" "\<not> has_prefix p ''//''"
    unfolding pq using assms by (simp_all add: before_rooted before_not_double)
  have "s \<noteq> ''*''" using assms(1) by (auto simp: has_prefix_iff)
  with p s pq assms show ?thesis
    by (simp add: parse_no_fragment_def get_scheme_rooted parse_absolute_or_path_def is_abs_def
        empty_url_def)
qed

text \<open>What a path turns into: itself if it is validly encoded, else its re-encoding.\<close>

definition normal_path :: "string \<Rightarrow> string" where
  "normal_path p =
     (if valid_encoded EncPath p then p
      else case url_unescape EncPath p of Some d \<Rightarrow> url_escape EncPath d | None \<Rightarrow> [])"

lemma escape_rooted: "has_prefix (url_escape EncPath (CHR ''/'' # d)) ''/''"
  by (simp add: url_escape_Cons escape_char_def should_escape_def reserved_marks_def is_alnum_def
      is_lower_def is_upper_def is_digit_def byte_in_def unreserved_marks_def)

lemma unescape_rooted:
  "has_prefix p ''/'' \<Longrightarrow> url_unescape EncPath p = Some d \<Longrightarrow> \<exists>e. d = CHR ''/'' # e"
  by (auto simp: has_prefix_iff url_unescape.simps(2))

lemma escaped_set_path:
  assumes "set_path p u = Some v" "has_prefix p ''/''"
  shows "escaped_path v = normal_path p" "url_unescape EncPath p \<noteq> None"
    "u_scheme v = u_scheme u" "u_host v = u_host u" "u_raw_query v = u_raw_query u"
proof -
  from assms(1) obtain d where d: "url_unescape EncPath p = Some d"
    and v: "v = u\<lparr> u_path := d, u_raw_path := (if p = url_escape EncPath d then [] else p) \<rparr>"
    by (auto simp: set_path_def)
  obtain e where e: "d = CHR ''/'' # e" using unescape_rooted [OF assms(2) d] by blast
  have "p \<noteq> []" using assms(2) by auto
  then show "escaped_path v = normal_path p"
    using d e url_escape_valid [of EncPath d] by (auto simp: v escaped_path_def normal_path_def)
  show "url_unescape EncPath p \<noteq> None" using d by simp
  show "u_scheme v = u_scheme u" "u_host v = u_host u" "u_raw_query v = u_raw_query u" by (simp_all add: v)
qed

lemma safe_next_path_cases:
  assumes "safe_next_path raw \<noteq> []"
  shows "has_prefix raw ''/''" "\<not> has_prefix raw ''//''"
    "\<exists>p q. p = before (CHR ''?'') (before (CHR ''#'') raw) \<and> q = after (CHR ''?'') (before (CHR ''#'') raw)
       \<and> url_unescape EncPath p \<noteq> None \<and> \<not> list_ex is_ctl (before (CHR ''#'') raw)
       \<and> safe_next_path raw = normal_path p @ (if q = [] then [] else CHR ''?'' # q)"
proof -
  from assms show pre: "has_prefix raw ''/''" "\<not> has_prefix raw ''//''"
    by (auto simp: safe_next_path_def split: if_splits)
  let ?b = "before (CHR ''#'') raw"
  have b: "has_prefix ?b ''/''" "\<not> has_prefix ?b ''//''"
    using pre by (simp_all add: before_rooted before_not_double)
  from assms obtain u where u: "url_parse raw = Some u"
      "safe_next_path raw = escaped_path u @ optional_raw_query u"
    by (auto simp: safe_next_path_def split: if_splits option.splits)
  then obtain v f rf where v: "parse_no_fragment ?b = Some v" "u = v \<or> u = v\<lparr> u_fragment := f, u_raw_fragment := rf \<rparr>"
    by (auto simp: url_parse_def cut_single split: option.splits if_splits)
  have same: "escaped_path u = escaped_path v" "optional_raw_query u = optional_raw_query v"
    using v(2) by (auto simp: escaped_path_def optional_raw_query_def)
  have c: "\<not> list_ex is_ctl ?b" and sp: "set_path (before (CHR ''?'') ?b)
      (empty_url\<lparr> u_raw_query := after (CHR ''?'') ?b, u_force_query := snd (snd (split_query ?b)) \<rparr>) = Some v"
    using v(1) unfolding parse_rooted [OF b] by (simp_all split: if_splits)
  note parts = escaped_set_path [OF sp before_rooted [OF b(1)]]
  show "\<exists>p q. p = before (CHR ''?'') ?b \<and> q = after (CHR ''?'') ?b
       \<and> url_unescape EncPath p \<noteq> None \<and> \<not> list_ex is_ctl ?b
       \<and> safe_next_path raw = normal_path p @ (if q = [] then [] else CHR ''?'' # q)"
    using parts c u(2) same by (simp add: optional_raw_query_def)
qed

subsection \<open>Local paths\<close>

text \<open>
  A path a browser resolves on the same site: it starts with one slash, not followed by
  another slash or by a backslash (which browsers read as a slash), and has no control byte.
\<close>

definition local_path :: "string \<Rightarrow> bool" where
  "local_path s \<longleftrightarrow>
     (\<exists>r. s = CHR ''/'' # r \<and> (r = [] \<or> hd r \<noteq> CHR ''/'' \<and> hd r \<noteq> CHR 0x5C)) \<and> \<not> list_ex is_ctl s"

lemma path_byte_plain:
  assumes "c \<in> set valid_encoded_marks \<or> \<not> should_escape EncPath c"
  shows "\<not> is_ctl c" "c \<noteq> CHR ''?''" "c \<noteq> CHR ''#''" "c \<noteq> CHR 0x5C"
proof -
  show "\<not> is_ctl c"
    using assms ctl_escaped [of c] by (auto simp: valid_encoded_marks_def is_ctl_def)
  show "c \<noteq> CHR ''?''" "c \<noteq> CHR ''#''" "c \<noteq> CHR 0x5C"
    using assms by (auto simp: valid_encoded_marks_def should_escape_def reserved_marks_def
        unreserved_marks_def is_alnum_def is_lower_def is_upper_def is_digit_def byte_in_def)
qed

lemma normal_path_valid: "valid_encoded EncPath (normal_path p)"
  using url_escape_valid by (auto simp: normal_path_def valid_encoded_def split: option.splits)

lemma normal_path_rooted:
  assumes "has_prefix p ''/''" "url_unescape EncPath p \<noteq> None"
  shows "has_prefix (normal_path p) ''/''"
proof (cases "valid_encoded EncPath p")
  case False
  from assms obtain d where d: "url_unescape EncPath p = Some d" by auto
  with unescape_rooted assms(1) obtain e where "d = CHR ''/'' # e" by blast
  with False d show ?thesis by (simp add: normal_path_def escape_rooted del: has_prefix.simps)
qed (use assms in \<open>simp add: normal_path_def\<close>)

lemma valid_path_plain:
  assumes "valid_encoded EncPath p" "c \<in> set p"
  shows "\<not> is_ctl c" "c \<noteq> CHR ''?''" "c \<noteq> CHR ''#''" "c \<noteq> CHR 0x5C"
  using assms path_byte_plain [of c] by (auto simp: valid_encoded_def list_all_iff)

lemma local_pathI:
  assumes "has_prefix p ''/''" "\<not> has_prefix p ''//''" "\<forall>c \<in> set p. c \<noteq> CHR 0x5C"
    "\<not> list_ex is_ctl p" "\<not> list_ex is_ctl q"
  shows "local_path (p @ (if q = [] then [] else CHR ''?'' # q))"
proof -
  from assms(1) obtain r where r: "p = CHR ''/'' # r" by (auto simp: has_prefix_iff)
  have "r = [] \<or> hd r \<noteq> CHR ''/'' \<and> hd r \<noteq> CHR 0x5C"
    using assms(2,3) r by (cases r) auto
  moreover have "\<not> is_ctl (CHR ''?'')" by (simp add: is_ctl_def)
  ultimately show ?thesis
    using assms(4,5) unfolding r local_path_def by (cases r) auto
qed

lemma local_path_append:
  assumes "local_path p" "\<not> list_ex is_ctl q" "q = [] \<or> hd q = CHR ''?''"
  shows "local_path (p @ q)"
proof -
  from assms(1) obtain r where r: "p = CHR ''/'' # r" "r = [] \<or> hd r \<noteq> CHR ''/'' \<and> hd r \<noteq> CHR 0x5C"
    and c: "\<not> list_ex is_ctl p" by (auto simp: local_path_def)
  have "r @ q = [] \<or> hd (r @ q) \<noteq> CHR ''/'' \<and> hd (r @ q) \<noteq> CHR 0x5C"
    using r(2) assms(3) by (cases r) auto
  with r(1) c assms(2) show ?thesis by (auto simp: local_path_def)
qed

lemma list_ex_subset: "set a \<subseteq> set b \<Longrightarrow> \<not> list_ex P b \<Longrightarrow> \<not> list_ex P a"
  by (auto simp: list_ex_iff)

lemma after_subset: "set (after c s) \<subseteq> set s"
  by (meson in_set_dropD set_dropWhileD subsetI)

text \<open>One application: the shape of the result, and when it is local.\<close>

lemma safe_next_path_shape:
  assumes "safe_next_path raw \<noteq> []"
  shows "\<exists>p q. safe_next_path raw = p @ (if q = [] then [] else CHR ''?'' # q)
    \<and> valid_encoded EncPath p \<and> has_prefix p ''/'' \<and> \<not> list_ex is_ctl q \<and> CHR ''#'' \<notin> set q"
proof -
  let ?b = "before (CHR ''#'') raw"
  note cases = safe_next_path_cases [OF assms]
  from cases(3) have u: "url_unescape EncPath (before (CHR ''?'') ?b) \<noteq> None" and c: "\<not> list_ex is_ctl ?b"
    and eq: "safe_next_path raw = normal_path (before (CHR ''?'') ?b)
      @ (if after (CHR ''?'') ?b = [] then [] else CHR ''?'' # after (CHR ''?'') ?b)" by blast+
  have "has_prefix (before (CHR ''?'') ?b) ''/''"
    using cases(1) by (simp add: before_rooted)
  moreover have "CHR ''#'' \<notin> set (after (CHR ''?'') ?b)"
    using after_subset [of "CHR ''?''" ?b] by (auto dest: set_takeWhileD)
  ultimately show ?thesis
    using eq normal_path_valid normal_path_rooted u list_ex_subset [OF after_subset c] by blast
qed

lemma safe_next_path_local:
  assumes "safe_next_path raw \<noteq> []"
    "valid_encoded EncPath (before (CHR ''?'') (before (CHR ''#'') raw))"
  shows "local_path (safe_next_path raw)"
proof -
  let ?b = "before (CHR ''#'') raw"
  let ?p = "before (CHR ''?'') ?b"
  note cases = safe_next_path_cases [OF assms(1)]
  have n: "normal_path ?p = ?p" using assms(2) by (simp only: normal_path_def if_True)
  from cases(3) obtain p q where pq: "p = ?p" "q = after (CHR ''?'') ?b" and c: "\<not> list_ex is_ctl ?b"
    and eq: "safe_next_path raw = normal_path p @ (if q = [] then [] else CHR ''?'' # q)" by blast
  have eq: "safe_next_path raw = ?p @ (if q = [] then [] else CHR ''?'' # q)"
    using eq unfolding pq(1) n .
  have "\<not> list_ex is_ctl q" unfolding pq(2) by (rule list_ex_subset [OF after_subset c])
  moreover have "has_prefix ?p ''/''" "\<not> has_prefix ?p ''//''"
    using cases(1,2) by (simp_all add: before_rooted before_not_double)
  moreover have "\<forall>c \<in> set ?p. c \<noteq> CHR 0x5C" using valid_path_plain(4) [OF assms(2)] by blast
  moreover have "\<not> list_ex is_ctl ?p" using valid_path_plain(1) [OF assms(2)] unfolding list_ex_iff by blast
  ultimately show ?thesis
    unfolding eq by (intro local_pathI)
qed

lemma before_append_first:
  "c \<notin> set a \<Longrightarrow> before c (a @ (if q = [] then [] else c # q)) = a"
  by (simp add: takeWhile_append)

lemma before_absent: "c \<notin> set s \<Longrightarrow> before c s = s"
  by (rule takeWhile_id) auto

text \<open>Two applications, with the bytes a cookie cannot carry dropped in between.\<close>

lemma safe_next_path_twice:
  assumes "safe_next_path (filter P (safe_next_path raw)) \<noteq> []" "P (CHR ''?'')"
  shows "local_path (safe_next_path (filter P (safe_next_path raw)))"
proof -
  have "safe_next_path [] = []" by (simp add: safe_next_path_def)
  then have "safe_next_path raw \<noteq> []" using assms(1) by auto
  then obtain p q where s: "safe_next_path raw = p @ (if q = [] then [] else CHR ''?'' # q)"
    and p: "valid_encoded EncPath p" and q: "CHR ''#'' \<notin> set q"
    using safe_next_path_shape by blast
  let ?t = "filter P (safe_next_path raw)"
  have t: "?t = filter P p @ (if q = [] then [] else CHR ''?'' # filter P q)"
    using assms(2) by (simp add: s)
  have "CHR ''#'' \<notin> set ?t" using valid_path_plain(3) [OF p] q by (auto simp: t)
  then have h: "before (CHR ''#'') ?t = ?t" by (rule before_absent)
  have b: "before (CHR ''?'') ?t = filter P p"
    using valid_path_plain(2) [OF p] unfolding t by (auto simp: takeWhile_append)
  have "valid_encoded EncPath (filter P p)" using p by (auto simp: valid_encoded_def list_all_iff)
  then have "valid_encoded EncPath (before (CHR ''?'') (before (CHR ''#'') ?t))" unfolding h b .
  with assms(1) show ?thesis by (rule safe_next_path_local)
qed

text \<open>\<open>http.Redirect\<close> keeps a local path local.\<close>

lemma hex_escape_ascii_head:
  "byte c < 128 \<Longrightarrow> hex_escape_non_ascii (c # s) = c # hex_escape_non_ascii s"
  by (simp add: hex_escape_non_ascii_def)

lemma hex_escape_head:
  "s \<noteq> [] \<Longrightarrow> hd (hex_escape_non_ascii s) = (if byte (hd s) < 128 then hd s else CHR ''%'')"
  by (cases s) (auto simp: hex_escape_non_ascii_def)

lemma hex_digit_not_ctl: "n < 16 \<Longrightarrow> \<not> is_ctl (hex_digit n)"
  by (auto simp: hex_digit_def is_ctl_def)

lemma hex_escape_no_ctl: "\<not> list_ex is_ctl s \<Longrightarrow> \<not> list_ex is_ctl (hex_escape_non_ascii s)"
proof (induction s)
  case (Cons c s)
  then show ?case
    using hex_digit_not_ctl [OF byte_div_16, of c] hex_digit_not_ctl [of "byte c mod 16"]
    by (auto simp: hex_escape_non_ascii_def) (simp_all add: is_ctl_def)
qed (simp add: hex_escape_non_ascii_def)

lemma local_path_hex_escape:
  assumes "local_path s"
  shows "local_path (hex_escape_non_ascii s)"
proof -
  from assms obtain r where r: "s = CHR ''/'' # r" "r = [] \<or> hd r \<noteq> CHR ''/'' \<and> hd r \<noteq> CHR 0x5C"
    and c: "\<not> list_ex is_ctl s" by (auto simp: local_path_def)
  have "hex_escape_non_ascii s = CHR ''/'' # hex_escape_non_ascii r"
    unfolding r(1) by (simp add: hex_escape_ascii_head)
  moreover have "hex_escape_non_ascii r = [] \<or> hd (hex_escape_non_ascii r) \<noteq> CHR ''/''
      \<and> hd (hex_escape_non_ascii r) \<noteq> CHR 0x5C"
    using r(2) hex_escape_head [of r] by (cases "r = []") (auto simp: hex_escape_non_ascii_def split: if_splits)
  ultimately show ?thesis
    using hex_escape_no_ctl [OF c] unfolding local_path_def by auto
qed

lemma path_clean_local:
  assumes "has_prefix p ''/''" "\<forall>c \<in> set p. c \<noteq> CHR 0x5C" "\<not> list_ex is_ctl p"
  shows "has_prefix (path_clean p) ''/''" "\<not> has_prefix (path_clean p) ''//''"
    "\<forall>c \<in> set (path_clean p). c \<noteq> CHR 0x5C" "\<not> list_ex is_ctl (path_clean p)"
proof -
  from path_clean_second [OF assms(1)] obtain r where
    r: "path_clean p = CHR ''/'' # r" "r = [] \<or> hd r \<noteq> CHR ''/''" by blast
  then show "has_prefix (path_clean p) ''/''" "\<not> has_prefix (path_clean p) ''//''"
    by (cases r; simp)+
  have "\<not> is_ctl (CHR ''/'')" "\<not> is_ctl (CHR ''.'')" by (simp_all add: is_ctl_def)
  then show "\<forall>c \<in> set (path_clean p). c \<noteq> CHR 0x5C" "\<not> list_ex is_ctl (path_clean p)"
    using path_clean_set [of p] assms(2,3) by (auto simp: list_ex_iff)
qed

lemma local_path_split:
  assumes "local_path s"
  shows "\<exists>r. s = CHR ''/'' # r" "\<not> has_prefix s ''//''"
  using assms by (auto simp: local_path_def has_prefix_iff)

lemma redirect_local:
  assumes "local_path s" "\<forall>c \<in> set (before (CHR ''?'') s). c \<noteq> CHR 0x5C"
  shows "local_path (redirect_target r s)"
proof -
  let ?p = "before (CHR ''?'') s" and ?d = "dropWhile (\<lambda>x. x \<noteq> CHR ''?'') s"
  from local_path_split [OF assms(1)] obtain t where t: "s = CHR ''/'' # t" by blast
  have c: "\<not> list_ex is_ctl s" using assms(1) by (simp add: local_path_def)
  have "set ?p \<subseteq> set s" by (auto dest: set_takeWhileD)
  with t have p: "has_prefix ?p ''/''" "\<not> list_ex is_ctl ?p"
    using list_ex_subset [OF _ c] by (simp, blast)
  note clean = path_clean_local [OF p(1) assms(2) p(2)]
  have d: "?d = [] \<or> hd ?d = CHR ''?''" using hd_dropWhile [of "\<lambda>x. x \<noteq> CHR ''?''" s] by blast
  let ?cp = "if has_suffix ?p ''/'' \<and> \<not> has_suffix (path_clean ?p) ''/'' then path_clean ?p @ ''/'' else path_clean ?p"
  have cp: "has_prefix ?cp ''/''" "\<not> has_prefix ?cp ''//''" "\<forall>c \<in> set ?cp. c \<noteq> CHR 0x5C" "\<not> list_ex is_ctl ?cp"
  proof -
    obtain r' where r': "path_clean ?p = CHR ''/'' # r'" using clean(1) by (auto simp: has_prefix_iff)
    have "has_suffix ''/'' ''/''" by (simp add: has_suffix_def)
    with r' clean show "has_prefix ?cp ''/''" "\<not> has_prefix ?cp ''//''" by (cases r'; auto)+
    show "\<forall>c \<in> set ?cp. c \<noteq> CHR 0x5C" "\<not> list_ex is_ctl ?cp" using clean by (auto simp: is_ctl_def)
  qed
  have dc: "\<not> list_ex is_ctl ?d" using list_ex_subset [OF _ c] by (meson set_dropWhileD subsetI)
  have "local_path ?cp" using local_pathI [OF cp, of "[]"] by simp
  from local_path_append [OF this dc d] have "local_path (?cp @ ?d)" .
  then show ?thesis
    using assms(1) t unfolding redirect_target_def by (auto simp: Let_def split: option.splits)
qed

lemma safe_next_path_no_backslash:
  assumes "safe_next_path raw \<noteq> []"
  shows "\<forall>c \<in> set (before (CHR ''?'') (safe_next_path raw)). c \<noteq> CHR 0x5C"
proof -
  obtain p q where s: "safe_next_path raw = p @ (if q = [] then [] else CHR ''?'' # q)" "valid_encoded EncPath p"
    using safe_next_path_shape [OF assms] by blast
  have "CHR ''?'' \<notin> set p" using valid_path_plain(2) [OF s(2)] by blast
  with s valid_path_plain(4) show ?thesis by (auto simp: before_append_first simp del: takeWhile_append)
qed

lemma checked_twice_local:
  assumes "safe_next_path (filter cookie_value_byte (safe_next_path raw)) = next_path" "next_path \<noteq> []"
  shows "local_path next_path \<and> local_path (hex_escape_non_ascii (redirect_target r next_path))"
proof
  have "cookie_value_byte (CHR ''?'')" by (simp add: cookie_value_byte_def)
  with assms safe_next_path_twice show l: "local_path next_path" by blast
  show "local_path (hex_escape_non_ascii (redirect_target r next_path))"
    using safe_next_path_no_backslash assms by (intro local_path_hex_escape redirect_local l) blast
qed

subsection \<open>Properties\<close>




end
