(* ===== verification/Middleware.thy ===== *)
theory Middleware
  imports Session Next_Path
begin

section \<open>Authentication middleware and logout (\<open>internal/auth/middleware.go\<close>)\<close>

text \<open>
  \<open>RequireAuth\<close>, \<open>touchSession\<close>, \<open>denyUnauthenticated\<close> and the logout handler.  A handler
  that runs behind the middleware is an argument; what the middleware stores in the request
  context is the field \<open>rq_session\<close>.  Clock readings continue those of the validation:
  readings 2 and 3 decide and stamp a refresh, 4 dates the refreshed cookie, 5 the header.
\<close>

type_synonym handler = "gw_request \<Rightarrow> writer \<Rightarrow> writer"

definition login_path :: string where "login_path = ''/auth/login''"
definition callback_path :: string where "callback_path = ''/auth/callback''"
definition logout_path :: string where "logout_path = ''/auth/logout''"
definition error_path :: string where "error_path = ''/auth/error''"
definition logged_out_path :: string where "logged_out_path = ''/auth/logged-out''"

definition session_expires_header :: string where
  "session_expires_header = ''Atrium-Session-Expires-In''"

definition session_from_context :: "gw_request \<Rightarrow> session option" where
  "session_from_context r = rq_session r"

definition with_session :: "gw_request \<Rightarrow> session \<Rightarrow> gw_request" where
  "with_session r d = r\<lparr> rq_session := Some d \<rparr>"

definition touch_session :: "environment \<Rightarrow> oidc_auth \<Rightarrow> writer \<Rightarrow> session \<Rightarrow> session \<times> writer" where
  "touch_session env a w d =
     (let (d', w') =
        (if 0 < oa_idle_ttl a \<and> session_refresh_interval \<le> time_sub (en_clock env 2) (last_activity d)
         then (let refreshed = d\<lparr> se_last_seen := en_clock env 3 \<rparr>
               in case session_cookie a (en_zone env) (en_clock env 4) refreshed of
                    Inl e \<Rightarrow> (d, log_plain level_error ''refresh session cookie'' [attr_err e] w)
                  | Inr c \<Rightarrow> (refreshed, set_cookie c w))
         else (d, w))
      in (d', w_set session_expires_header (itoa (seconds_until (en_clock env 5) (session_deadline a d'))) w'))"

definition wants_json :: "'a request_scheme \<Rightarrow> bool" where
  "wants_json r =
     (let accept = header_get (rq_headers r) ''Accept''
      in has_prefix (u_path (rq_url r)) ''/api/''
         \<or> contains accept ''application/json'' \<and> \<not> contains accept ''text/html'')"

definition deny_unauthenticated :: "'a request_scheme \<Rightarrow> writer \<Rightarrow> writer" where
  "deny_unauthenticated r w =
     (if wants_json r then
        encode_json (jobject [(''error'', jstring ''unauthenticated'')])
          (write_header 401 (w_set ''Content-Type'' json_content_type w))
      else
        (let next = safe_next_path (request_uri (rq_url r));
             login_url = login_path @ (if next \<noteq> [] then ''?next='' @ query_escape next else [])
         in http_redirect r login_url 302 w))"

definition require_auth :: "environment \<Rightarrow> oidc_auth \<Rightarrow> handler \<Rightarrow> handler" where
  "require_auth env a next r w =
     (case validate_session_cookie env a r w of
        (Inl e, w') \<Rightarrow> deny_unauthenticated r (set_cookie (clear_session_cookie a) w')
      | (Inr d, w') \<Rightarrow> (let (d', w'') = touch_session env a w' d in next (with_session r d') w''))"

definition logout_params :: "oidc_auth \<Rightarrow> session \<Rightarrow> (string \<times> string) list" where
  "logout_params a d =
     [(''id_token_hint'', se_id_token d), (''post_logout_redirect_uri'', oa_post_logout_redirect a),
      (''client_id'', oa_client_id a)]"

definition logout_handler :: "environment \<Rightarrow> oidc_auth \<Rightarrow> 'a request_scheme \<Rightarrow> writer \<Rightarrow> writer" where
  "logout_handler env a r w =
     (let (res, w1) = validate_session_cookie env a r w;
          w2 = set_cookie (clear_session_cookie a) w1
      in case res of
           Inl e \<Rightarrow> http_redirect r logged_out_path 302 w2
         | Inr d \<Rightarrow>
             (let w3 = audit_log r level_info event_logout [attr_str ''email'' (se_email d)] w2
              in if oa_end_session_endpoint a \<noteq> [] \<and> se_id_token d \<noteq> []
                 then http_redirect r (oa_end_session_endpoint a @ ''?'' @ encode_values (logout_params a d)) 302 w3
                 else http_redirect r logged_out_path 302 w3))"

subsection \<open>Lemmas\<close>

lemma validate_writer:
  "w_header (snd (validate_session_cookie env a r w)) = w_header w"
  "w_cookies (snd (validate_session_cookie env a r w)) = w_cookies w"
  "w_committed (snd (validate_session_cookie env a r w)) = w_committed w"
  "w_body (snd (validate_session_cookie env a r w)) = w_body w"
  by (auto simp: validate_session_cookie_def writer_simps split: option.splits sum.splits)

lemma sanitize_clear: "sanitize_cookie (clear_session_cookie a) = clear_session_cookie a"
  by (simp add: sanitize_cookie_def clear_session_cookie_def)

lemma touch_session_identity:
  "fst (touch_session env a w d) = d \<or> fst (touch_session env a w d) = d\<lparr> se_last_seen := en_clock env 3 \<rparr>"
  by (auto simp: touch_session_def Let_def split: sum.splits)

lemma touch_session_writer:
  "w_committed (snd (touch_session env a w d)) = w_committed w"
  "w_body (snd (touch_session env a w d)) = w_body w"
  "w_header (snd (touch_session env a w d)) =
     (w_header w)(session_expires_header \<mapsto>
        itoa (seconds_until (en_clock env 5) (session_deadline a (fst (touch_session env a w d)))))"
  by (auto simp: touch_session_def Let_def writer_simps split: sum.splits)

lemma deny_reply:
  assumes "w_committed w = None"
  shows "cookies_of (deny_unauthenticated r w) = w_cookies w"
    "status_of (deny_unauthenticated r w) = (if wants_json r then 401 else 302)"
  using assms
  by (simp_all add: deny_unauthenticated_def encode_json_def write_body_reply write_header_status
      http_redirect_reply Let_def writer_simps)

text \<open>A clean absolute path, with or without a query, is redirected to as it is.\<close>

lemma redirect_fixed:
  assumes "path_clean p = p" "has_prefix p ''/''" "CHR ''?'' \<notin> set p" "s = [] \<or> hd s = CHR ''?''"
  shows "redirect_target r (p @ s) = p @ s"
proof -
  have q: "takeWhile (\<lambda>c. c \<noteq> CHR ''?'') (p @ s) = p" "dropWhile (\<lambda>c. c \<noteq> CHR ''?'') (p @ s) = s"
    using assms(3,4) by (cases s; auto simp: takeWhile_append dropWhile_append)+
  have h: "(p @ s = [] \<or> hd (p @ s) \<noteq> CHR ''/'') = False" using assms(2) by (auto simp: has_prefix_iff)
  have e: "(if has_suffix p ''/'' \<and> \<not> has_suffix p ''/'' then p @ ''/'' else p) = p" by simp
  show ?thesis
    unfolding redirect_target_def Let_def h if_False q assms(1) e by (simp split: option.split)
qed

lemma fixed_paths:
  "path_clean login_path = login_path" "path_clean error_path = error_path" "path_clean logged_out_path = logged_out_path"
  "has_prefix login_path ''/''" "has_prefix error_path ''/''" "has_prefix logged_out_path ''/''"
  "CHR ''?'' \<notin> set login_path" "CHR ''?'' \<notin> set error_path" "CHR ''?'' \<notin> set logged_out_path"
  by code_simp+

lemma hex_escape_ascii: "\<forall>c \<in> set s. byte c < 128 \<Longrightarrow> hex_escape_non_ascii s = s"
  by (induction s) (auto simp: hex_escape_non_ascii_def)

lemma query_escape_ascii:
  assumes "c \<in> set (query_escape s)"
  shows "byte c < 128"
proof -
  have "\<not> should_escape EncQueryComponent c \<Longrightarrow> is_alnum c \<or> c \<in> set unreserved_marks"
    by (simp add: should_escape_def split: if_splits)
  with assms consider (mark) "c \<in> set (CHR ''%'' # CHR ''+'' # unreserved_marks)" | (alnum) "is_alnum c"
    unfolding query_escape_def by (fastforce dest: url_escape_bytes)
  then show ?thesis
  proof cases
    case mark
    then show ?thesis by (auto simp: unreserved_marks_def)
  next
    case alnum
    then show ?thesis by (auto simp: is_alnum_def is_lower_def is_upper_def is_digit_def byte_in_def)
  qed
qed

subsection \<open>Properties\<close>

text \<open>C8: Without a valid session \<open>RequireAuth\<close> never runs the handler behind it: the reply is
  the same for every such handler, is a 401 for API clients and a 302 otherwise, and expires
  the session cookie.\<close>

theorem require_auth_denies:
  assumes "fst (validate_session_cookie env a r w) = Inl e" "w_committed w = None"
  shows "require_auth env a next r w = require_auth env a next' r w
    \<and> status_of (require_auth env a next r w) = (if wants_json r then 401 else 302)
    \<and> cookies_of (require_auth env a next r w) = w_cookies w @ [clear_session_cookie a]"
proof -
  obtain w' where v: "validate_session_cookie env a r w = (Inl e, w')" using assms(1) by (metis eq_fst_iff)
  have w': "w_committed w' = None" "w_cookies w' = w_cookies w"
    using validate_writer(2,3) [of env a r w] assms(2) by (simp_all add: v)
  then show ?thesis
    by (simp add: require_auth_def v deny_reply writer_simps sanitize_clear)
qed

lemma require_auth_denies_witness:
  "status_of (require_auth sample_env sample_auth (\<lambda>r w. w) (gw_get ''/api/me'') new_writer) = 401
   \<and> status_of (require_auth sample_env sample_auth (\<lambda>r w. w) (gw_get ''/docs'') new_writer) = 302"
proof -
  have v: "fst (validate_session_cookie sample_env sample_auth (gw_get p) new_writer) = Inl err_no_session" for p
    by (simp add: validate_session_cookie_def request_cookie_def)
  have j: "wants_json (gw_get ''/api/me'')" "\<not> wants_json (gw_get ''/docs'')"
    by (simp_all add: wants_json_def header_get_def contains_def)
  show ?thesis
    using require_auth_denies [OF v new_writer_parts(3), of "\<lambda>r w. w"] j by simp
qed

text \<open>Without a valid session a browser is sent to the sign-in page, with nothing but an
  escaped return path added, and an API client gets the JSON error.\<close>

theorem denied_reply_contents:
  assumes "fst (validate_session_cookie env a r new_writer) = Inl e"
  shows "if wants_json r
    then w_body (require_auth env a next r new_writer) = print_json (jobject [(''error'', jstring ''unauthenticated'')]) @ newline
    else header_of (require_auth env a next r new_writer) ''Location'' = Some (login_path @
      (if safe_next_path (request_uri (rq_url r)) \<noteq> []
       then ''?next='' @ query_escape (safe_next_path (request_uri (rq_url r))) else []))"
proof -
  obtain w' where v: "validate_session_cookie env a r new_writer = (Inl e, w')" using assms by (metis eq_fst_iff)
  have w': "w_committed w' = None" "w_body w' = []"
    using validate_writer(3,4) [of env a r new_writer] unfolding v by (simp_all add: writer_simps)
  let ?next = "safe_next_path (request_uri (rq_url r))"
  let ?q = "if ?next \<noteq> [] then ''?next='' @ query_escape ?next else []"
  have "\<forall>c \<in> set ''?next=''. \<not> is_ctl c \<and> c \<noteq> CHR ''#''" by (simp add: is_ctl_def)
  then have "?q = [] \<or> hd ?q = CHR ''?''" "\<not> list_ex is_ctl ?q" "CHR ''#'' \<notin> set ?q"
    using url_escape_no_ctl [of _ EncQueryComponent ?next] query_escape_no_delims [of "CHR ''#''" ?next]
    by (auto simp: query_escape_def query_delims_def list_ex_iff)
  then have "redirect_target r (login_path @ ?q) = login_path @ ?q" 
    by (intro redirect_fixed fixed_paths) simp
  moreover have "\<forall>c \<in> set (login_path @ ?q). byte c < 128"
    using query_escape_ascii by (auto simp: login_path_def)
  ultimately show ?thesis
    using w' by (simp add: require_auth_def v deny_unauthenticated_def encode_json_def Let_def writer_simps
        http_redirect_reply hex_escape_ascii)
qed

lemma denied_reply_contents_witness:
  "header_of (require_auth sample_env sample_auth (\<lambda>r w. w) (gw_get ''/docs'') new_writer) ''Location''
     = Some ''/auth/login?next=%2Fdocs''"
proof -
  have v: "fst (validate_session_cookie sample_env sample_auth (gw_get ''/docs'') new_writer) = Inl err_no_session"
    by (simp add: validate_session_cookie_def request_cookie_def)
  have j: "\<not> wants_json (gw_get ''/docs'')" by (simp add: wants_json_def header_get_def contains_def)
  have u: "rq_url (gw_get ''/docs'') = empty_url\<lparr> u_path := ''/docs'' \<rparr>" by simp
  have s: "safe_next_path (request_uri (empty_url\<lparr> u_path := ''/docs'' \<rparr>)) = ''/docs''"
    "query_escape ''/docs'' = ''%2Fdocs''" by code_simp+
  show ?thesis
    using denied_reply_contents [OF v, of "\<lambda>r w. w"] j unfolding u s by (simp add: login_path_def s)
qed

text \<open>C32: With a valid session \<open>RequireAuth\<close> runs the handler on the request with that session
  in its context, advertises the deadline, and activity moves only \<open>LastSeen\<close>: the
  identity, the issue time and the absolute expiry are those of the cookie, and the deadline
  never passes the absolute expiry.\<close>

theorem require_auth_admits:
  assumes "fst (validate_session_cookie env a r w) = Inr d"
  shows "\<exists>d' w'. require_auth env a next r w = next (with_session r d') w'
    \<and> d' = d\<lparr> se_last_seen := se_last_seen d' \<rparr>
    \<and> se_last_seen d' \<in> {se_last_seen d, en_clock env 3}
    \<and> w_header w' session_expires_header = Some (itoa (seconds_until (en_clock env 5) (session_deadline a d')))
    \<and> session_deadline a d' \<le> se_expires_at d"
proof -
  obtain w1 where v: "validate_session_cookie env a r w = (Inr d, w1)" using assms by (metis eq_fst_iff)
  obtain d' w' where t: "touch_session env a w1 d = (d', w')" by fastforce
  have d': "d' = d \<or> d' = d\<lparr> se_last_seen := en_clock env 3 \<rparr>"
    using touch_session_identity [of env a w1 d] by (simp add: t)
  have "w_header w' session_expires_header = Some (itoa (seconds_until (en_clock env 5) (session_deadline a d')))"
    using touch_session_writer(3) [of env a w1 d] by (simp add: t)
  moreover have "session_deadline a d' \<le> se_expires_at d"
    using d' by (auto simp: session_deadline_def Let_def)
  ultimately show ?thesis
    using d' by (auto simp: require_auth_def v t intro!: exI [of _ d'])
qed

lemma require_auth_admits_witness:
  "\<exists>d' w'. require_auth sample_env sample_auth (\<lambda>r w. set_cookie (clear_session_cookie sample_auth) w) (signed_in (gw_get ''/'')) new_writer
       = set_cookie (clear_session_cookie sample_auth) w'
     \<and> session_deadline sample_auth d' \<le> se_expires_at sample_session"
proof -
  have v: "fst (validate_session_cookie sample_env sample_auth (signed_in (gw_get ''/'')) new_writer) = Inr sample_session"
    by (simp add: signed_in_valid)
  from require_auth_admits [OF v, of "\<lambda>r w. set_cookie (clear_session_cookie sample_auth) w"]
  show ?thesis by blast
qed

text \<open>Logout always expires the session cookie and always leaves the gateway: to the
  identity provider's end-session endpoint when there is one and the session still holds its
  ID token, with parameters that decode to exactly the ID token, the registered return address
  and the client; to the landing page otherwise.\<close>

theorem logout_leaves:
  "cookies_of (logout_handler env a r new_writer) = [clear_session_cookie a]
   \<and> status_of (logout_handler env a r new_writer) = 302
   \<and> (\<exists>q. header_of (logout_handler env a r new_writer) ''Location'' = Some (hex_escape_non_ascii (redirect_target r q))
       \<and> (q = logged_out_path
          \<or> (\<exists>d p. fst (validate_session_cookie env a r new_writer) = Inr d \<and> se_id_token d \<noteq> []
              \<and> q = oa_end_session_endpoint a @ ''?'' @ p
              \<and> query_values p = [(''client_id'', oa_client_id a), (''id_token_hint'', se_id_token d),
                   (''post_logout_redirect_uri'', oa_post_logout_redirect a)])))"
proof -
  obtain res w1 where v: "validate_session_cookie env a r new_writer = (res, w1)" by fastforce
  have w1: "w_committed w1 = None" "w_cookies w1 = []"
    using validate_writer(2,3) [of env a r new_writer] unfolding v by (simp_all add: writer_simps)
  have sorted: "encode_values (logout_params a d) = join (map encode_pair [(''client_id'', oa_client_id a),
      (''id_token_hint'', se_id_token d), (''post_logout_redirect_uri'', oa_post_logout_redirect a)]) ''&''" for d
    by (simp add: encode_values_def logout_params_def)
  have q: "query_values (encode_values (logout_params a d)) = [(''client_id'', oa_client_id a),
      (''id_token_hint'', se_id_token d), (''post_logout_redirect_uri'', oa_post_logout_redirect a)]" for d
    unfolding sorted by (intro query_values_join) simp
  show ?thesis
    using w1 q by (cases res) (auto simp: logout_handler_def v Let_def writer_simps http_redirect_reply sanitize_clear)
qed

end
