(* ===== verification/Session_Lifetime.thy ===== *)
theory Session_Lifetime
  imports Middleware
begin

section \<open>The lifetime of a session across requests\<close>

text \<open>
  A browser that signs in and then sends requests, holding whatever session cookie the
  gateway set last.  \<open>visits a zone email tok t0 ta\<close> says that \<open>tok\<close> is the cookie value the
  browser holds after signing in at \<open>t0\<close> and being admitted last at \<open>ta\<close>; its rules run the
  code of the sign-in, the validation and \<open>touchSession\<close>.  Rule induction gives what the
  cookie then holds, and from it the two promises of the timeouts: no session outlives its
  absolute limit or an idle gap, and a recipient active often enough is never signed out
  early.  The throttling of the refresh costs at most one refresh interval.
\<close>

definition env_at :: "(instant \<Rightarrow> int) \<Rightarrow> instant \<Rightarrow> environment" where
  "env_at zone t = \<lparr> en_clock = (\<lambda>_. t), en_zone = zone \<rparr>"

definition with_cookie :: "gw_request \<Rightarrow> string \<Rightarrow> gw_request" where
  "with_cookie r tok = r\<lparr> rq_cookies := [(session_cookie_name, tok)] \<rparr>"

text \<open>The cookie value the browser holds after a reply.\<close>

definition jar_after :: "string \<Rightarrow> writer \<Rightarrow> string" where
  "jar_after tok w = (if w_cookies w = [] then tok else ck_value (last (w_cookies w)))"

definition year_ok :: "(instant \<Rightarrow> int) \<Rightarrow> instant \<Rightarrow> bool" where
  "year_ok zone t \<longleftrightarrow> marshal_time (zone t) t \<noteq> None"

inductive visits :: "oidc_auth \<Rightarrow> (instant \<Rightarrow> int) \<Rightarrow> string \<Rightarrow> string \<Rightarrow> instant \<Rightarrow> instant \<Rightarrow> bool"
  for a :: oidc_auth and zone :: "instant \<Rightarrow> int" where
  sign_in: "create_session_cookie a zone t t email idt = Inr c \<Longrightarrow> valid_utf8 email \<Longrightarrow> valid_utf8 idt \<Longrightarrow>
    zero_time < t \<Longrightarrow> visits a zone email (ck_value (sanitize_cookie c)) t t"
| request: "visits a zone email tok t0 ta \<Longrightarrow> ta \<le> t \<Longrightarrow> year_ok zone t \<Longrightarrow>
    validate_session_cookie (env_at zone t) a (with_cookie r tok) w = (Inr d, w1) \<Longrightarrow>
    touch_session (env_at zone t) a new_writer d = (d', w2) \<Longrightarrow>
    visits a zone email (jar_after tok w2) t0 t"

inductive_cases visitsE: "visits a zone email tok t0 ta"

definition holds :: "oidc_auth \<Rightarrow> (instant \<Rightarrow> int) \<Rightarrow> string \<Rightarrow> string \<Rightarrow> instant \<Rightarrow> instant \<Rightarrow> session \<Rightarrow> bool" where
  "holds a zone email tok t0 ta d \<longleftrightarrow>
     good_session d \<and> sign_and_encode zone d (oa_session_key a) = Inr tok
     \<and> se_email d = email \<and> se_issued_at d = t0 \<and> se_expires_at d = t0 + oa_absolute_ttl a
     \<and> zero_time < t0 \<and> t0 \<le> se_last_seen d \<and> se_last_seen d \<le> ta
     \<and> (0 < oa_idle_ttl a \<longrightarrow> ta - se_last_seen d < session_refresh_interval)"

lemma holds_activity: "holds a zone email tok t0 ta d \<Longrightarrow> last_activity d = se_last_seen d"
  by (auto simp: holds_def last_activity_def is_zero_def)

lemma holds_validate:
  assumes "holds a zone email tok t0 ta d"
  shows "validate_session_cookie (env_at zone t) a (with_cookie r tok) w = (Inr d', w') \<longleftrightarrow>
    d' = d \<and> w' = w \<and> t \<le> t0 + oa_absolute_ttl a \<and> (0 < oa_idle_ttl a \<longrightarrow> t \<le> se_last_seen d + oa_idle_ttl a)"
proof -
  have d: "good_session d" "sign_and_encode zone d (oa_session_key a) = Inr tok"
    "se_expires_at d = t0 + oa_absolute_ttl a" using assms by (auto simp: holds_def)
  show ?thesis
    using holds_activity [OF assms] d(3)
    by (auto simp: validate_session_cookie_def request_cookie_def with_cookie_def env_at_def decode_signed [OF d(1,2)])
qed

lemma refresh_due: "session_refresh_interval \<le> time_sub t u \<longleftrightarrow> session_refresh_interval \<le> t - u"
  by (auto simp: time_sub_def session_refresh_interval_def duration_units max_int64_def min_int64_def)

lemma marshal_session_refresh:
  assumes "marshal_session zone d = Some p" "year_ok zone t"
  shows "\<exists>q. marshal_session zone (d\<lparr> se_last_seen := t \<rparr>) = Some q"
  using assms by (auto simp: marshal_session_def session_json_def year_ok_def json_time_def bind_eq_Some_conv)

lemma session_cookie_value:
  "session_cookie a zone now d = Inr c \<Longrightarrow> sign_and_encode zone d (oa_session_key a) = Inr (ck_value c)"
  by (auto simp: session_cookie_def bindr_eq_Inr)

lemma session_cookie_exists:
  "sign_and_encode zone d (oa_session_key a) = Inr tok \<Longrightarrow> \<exists>c. session_cookie a zone now d = Inr c \<and> ck_value c = tok"
  by (simp add: session_cookie_def)

lemma visits_holds: "visits a zone email tok t0 ta \<Longrightarrow> \<exists>d. holds a zone email tok t0 ta d"
proof (induction rule: visits.induct)
  case (sign_in t email idt c)
  have c: "session_cookie a zone t (new_session a t email idt) = Inr c"
    using sign_in(1) by (simp add: create_session_cookie_def)
  have "holds a zone email (ck_value (sanitize_cookie c)) t t (new_session a t email idt)"
    using sign_in session_cookie_value [OF c] sanitize_session_cookie [OF c]
    by (simp add: holds_def new_session_def good_session_def session_refresh_interval_def duration_units)
  then show ?case ..
next
  case (request email tok t0 ta t r w d w1 d' w2)
  then obtain e where e: "holds a zone email tok t0 ta e" by blast
  with request.hyps holds_validate [OF e] have de: "d = e" by simp
  have act: "last_activity d = se_last_seen d" using holds_activity e de by blast
  show ?case
  proof (cases "0 < oa_idle_ttl a \<and> session_refresh_interval \<le> t - se_last_seen d")
    case True
    let ?n = "d\<lparr> se_last_seen := t \<rparr>"
    obtain p where "marshal_session zone d = Some p"
      using e de by (auto simp: holds_def sign_and_encode_def split: option.splits)
    with marshal_session_refresh request.hyps obtain q where q: "marshal_session zone ?n = Some q" by blast
    then have s: "sign_and_encode zone ?n (oa_session_key a) = Inr (seal (oa_session_key a) q)"
      by (simp add: sign_and_encode_def)
    then obtain c where c: "session_cookie a zone t ?n = Inr c" "ck_value c = seal (oa_session_key a) q"
      using session_cookie_exists by blast
    have "jar_after tok w2 = ck_value c"
      using request.hyps True act c sanitize_session_cookie [OF c(1)]
      by (auto simp: touch_session_def Let_def env_at_def refresh_due jar_after_def writer_simps)
    then have "holds a zone email (jar_after tok w2) t0 t ?n"
      using e de s c request.hyps(2)
      by (auto simp: holds_def good_session_def session_refresh_interval_def duration_units)
    then show ?thesis ..
  next
    case False
    then have "jar_after tok w2 = tok"
      using request.hyps act
      by (auto simp: touch_session_def Let_def env_at_def refresh_due jar_after_def writer_simps split: if_splits)
    then have "holds a zone email (jar_after tok w2) t0 t e"
      using e de False request.hyps(2) by (auto simp: holds_def)
    then show ?thesis ..
  qed
qed

subsection \<open>Properties\<close>

text \<open>C3: No session outlives its limits.  Whatever requests a recipient made since signing in
  at \<open>t0\<close>, a request at \<open>t\<close> that is admitted comes at most the absolute lifetime after the
  sign-in and, with an idle limit, at most the idle limit after the request before it; and it
  is admitted under the email that signed in.\<close>

theorem session_never_outlives_limits:
  assumes "visits a zone email tok t0 ta"
    and "fst (validate_session_cookie (env_at zone t) a (with_cookie r tok) w) = Inr d"
  shows "se_email d = email \<and> se_expires_at d = t0 + oa_absolute_ttl a \<and> t \<le> t0 + oa_absolute_ttl a
    \<and> (0 < oa_idle_ttl a \<longrightarrow> t \<le> ta + oa_idle_ttl a)"
proof -
  obtain e where e: "holds a zone email tok t0 ta e" using visits_holds [OF assms(1)] by blast
  obtain w' where "validate_session_cookie (env_at zone t) a (with_cookie r tok) w = (Inr d, w')"
    using assms(2) by (metis eq_fst_iff)
  with holds_validate [OF e] e show ?thesis by (auto simp: holds_def)
qed

text \<open>C17: An active recipient is never signed out early: until the absolute expiry, a request that
  comes within the idle limit, less the refresh interval, of the one before it is admitted.\<close>

theorem active_session_is_kept:
  assumes "visits a zone email tok t0 ta" "t \<le> t0 + oa_absolute_ttl a"
    and "0 < oa_idle_ttl a \<longrightarrow> t \<le> ta + oa_idle_ttl a - session_refresh_interval"
  shows "\<exists>d. validate_session_cookie (env_at zone t) a (with_cookie r tok) w = (Inr d, w) \<and> se_email d = email"
proof -
  obtain e where e: "holds a zone email tok t0 ta e" using visits_holds [OF assms(1)] by blast
  then have "0 < oa_idle_ttl a \<longrightarrow> t \<le> se_last_seen e + oa_idle_ttl a"
    using assms(3) by (auto simp: holds_def)
  with holds_validate [OF e] e assms(2) show ?thesis by (auto simp: holds_def)
qed

lemma sample_visit:
  "visits sample_auth (\<lambda>_. 0) ''ada@example.org'' sample_token (1700000000 * second) (1700000000 * second)"
proof -
  obtain c where c: "session_cookie sample_auth (\<lambda>_. 0) (1700000000 * second) sample_session = Inr c" "ck_value c = sample_token"
    using session_cookie_exists [OF sample_signed] by (auto simp: sample_env_def)
  then have "create_session_cookie sample_auth (\<lambda>_. 0) (1700000000 * second) (1700000000 * second) ''ada@example.org'' ''idt'' = Inr c"
    by (simp add: create_session_cookie_def sample_session_def sample_env_def)
  moreover have "valid_utf8 ''ada@example.org''" "valid_utf8 ''idt''"
    using sample_good by (simp_all add: good_session_def sample_session_def new_session_def)
  moreover have "zero_time < 1700000000 * second" by (simp add: zero_time_def second_def)
  ultimately show ?thesis
    using sign_in [of sample_auth "\<lambda>_. 0"] sanitize_session_cookie [OF c(1)] c(2) by metis
qed

lemma session_never_outlives_limits_witness:
  "fst (validate_session_cookie (env_at (\<lambda>_. 0) (1700001000 * second)) sample_auth (with_cookie (gw_get ''/'') sample_token) new_writer)
     \<noteq> Inr sample_session"
proof -
  have "\<not> (1700001000 * second \<le> 1700000000 * second + oa_idle_ttl sample_auth)" "0 < oa_idle_ttl sample_auth"
    by (simp_all add: sample_auth_def duration_units)
  with session_never_outlives_limits [OF sample_visit] show ?thesis by blast
qed

lemma active_session_is_kept_witness:
  "\<exists>d. validate_session_cookie (env_at (\<lambda>_. 0) (1700000600 * second)) sample_auth (with_cookie (gw_get ''/'') sample_token) new_writer
     = (Inr d, new_writer) \<and> se_email d = ''ada@example.org''"
  by (rule active_session_is_kept [OF sample_visit])
    (simp_all add: sample_auth_def duration_units session_refresh_interval_def)

end
