(* ===== verification/Go_Parse.thy ===== *)
theory Go_Parse
  imports Go_Http Go_Time
begin

section \<open>Go's parsers of numbers, booleans, durations and log levels\<close>

text \<open>
  \<open>strconv.ParseInt\<close> in base 10, \<open>strconv.ParseBool\<close>, \<open>time.ParseDuration\<close> and
  \<open>slog.Level.UnmarshalText\<close>, with the errors they return.  The parsers work on machine
  integers, so every overflow test of the library is a branch here; the fraction of a
  duration goes through 64-bit floats, which are rounded to 53 bits, halves to even.
\<close>

subsection \<open>Integers and booleans\<close>

definition num_error :: "string \<Rightarrow> string \<Rightarrow> string \<Rightarrow> go_error" where
  "num_error fn s msg = Plain (''strconv.'' @ fn @ '': parsing '' @ quoted s @ '': '' @ msg)"

text \<open>The digits of \<open>ParseUint\<close> with 64 bits: \<open>Inl True\<close> when out of range, \<open>Inl False\<close> for a bad byte.\<close>

fun uint_digits :: "int \<Rightarrow> string \<Rightarrow> bool + int" where
  "uint_digits n [] = Inr n"
| "uint_digits n (c # s) =
     (if \<not> is_digit c then Inl False
      else if 1844674407370955162 \<le> n then Inl True
      else let n1 = 10 * n + int (digit_val c) in if 2 ^ 64 \<le> n1 then Inl True else uint_digits n1 s)"

definition parse_int :: "string \<Rightarrow> string \<Rightarrow> go_error + int" where
  "parse_int fn s =
     (let neg = (take 1 s = ''-''); body = (if take 1 s = ''-'' \<or> take 1 s = ''+'' then drop 1 s else s)
      in if body = [] then Inl (num_error fn s ''invalid syntax'')
         else case uint_digits 0 body of
             Inl False \<Rightarrow> Inl (num_error fn s ''invalid syntax'')
           | Inl True \<Rightarrow> Inl (num_error fn s ''value out of range'')
           | Inr n \<Rightarrow>
               if \<not> neg \<and> 2 ^ 63 \<le> n \<or> neg \<and> 2 ^ 63 < n then Inl (num_error fn s ''value out of range'')
               else Inr (if neg then - n else n))"

definition parse_bool :: "string \<Rightarrow> go_error + bool" where
  "parse_bool s =
     (if s \<in> {''1'', ''t'', ''T'', ''true'', ''TRUE'', ''True''} then Inr True
      else if s \<in> {''0'', ''f'', ''F'', ''false'', ''FALSE'', ''False''} then Inr False
      else Inl (num_error ''ParseBool'' s ''invalid syntax''))"

lemma uint_digits_nonneg: "uint_digits n s = Inr m \<Longrightarrow> 0 \<le> n \<Longrightarrow> 0 \<le> m"
  by (induction n s rule: uint_digits.induct) (auto simp: Let_def split: if_splits)

lemma parse_int_range: "parse_int fn s = Inr n \<Longrightarrow> in_int64 n"
  by (auto simp: parse_int_def Let_def in_int64_def min_int64_def max_int64_def
      dest!: uint_digits_nonneg split: if_splits sum.splits bool.splits)

text \<open>The digits of a number below the range are read as that number.\<close>

lemma read_nat_mono: "n \<le> read_nat n s"
proof (induction n s rule: read_nat.induct)
  case (2 acc c cs)
  have "acc \<le> 10 * acc + digit_val c" by simp
  also have "\<dots> \<le> read_nat (10 * acc + digit_val c) cs" by (rule 2)
  finally show ?case by simp
qed simp

lemma uint_digits_read:
  "\<forall>c \<in> set s. is_digit c \<Longrightarrow> read_nat n s < 2 ^ 63 \<Longrightarrow> uint_digits (int n) s = Inr (int (read_nat n s))"
proof (induction s arbitrary: n)
  case (Cons c s)
  have b: "10 * n + digit_val c < 2 ^ 63"
    using read_nat_mono [of "10 * n + digit_val c" s] Cons.prems(2) by simp
  then have "\<not> 1844674407370955162 \<le> int n" "\<not> 2 ^ 64 \<le> 10 * int n + int (digit_val c)" by simp_all
  then show ?case using Cons.IH [of "10 * n + digit_val c"] Cons.prems by (simp add: Let_def)
qed simp

lemma show_nat_head: "take 1 (show_nat n) \<noteq> ''-''" "take 1 (show_nat n) \<noteq> ''+''"
proof -
  obtain c s where s: "show_nat n = c # s" by (meson neq_Nil_conv show_nat_nonempty)
  then have "is_digit c" using show_nat_digits [of n] by simp
  then show "take 1 (show_nat n) \<noteq> ''-''" "take 1 (show_nat n) \<noteq> ''+''"
    by (auto simp: s is_digit_def byte_in_def)
qed

lemma parse_int_show:
  assumes "n < 2 ^ 63"
  shows "parse_int fn (show_nat n) = Inr (int n)"
  using show_nat_head [of n] uint_digits_read [of "show_nat n" 0] show_nat_digits [of n] assms
  by (simp add: parse_int_def Let_def)

subsection \<open>Binary floats\<close>

text \<open>
  A float that is not negative is a fraction of two integers.  \<open>float_div p q\<close> is the float nearest to
  \<open>p / q\<close>, as numerator and denominator; the values that occur here are far from the largest
  and the smallest float.
\<close>

fun bit_count :: "int \<Rightarrow> int" where
  "bit_count n = (if n \<le> 0 then 0 else 1 + bit_count (n div 2))"

declare bit_count.simps [simp del]

definition half_even :: "int \<Rightarrow> int \<Rightarrow> int" where
  "half_even p q =
     (let m = p div q; r = p mod q
      in if 2 * r < q \<or> 2 * r = q \<and> even m then m else m + 1)"

definition scale2 :: "int \<Rightarrow> int \<times> int \<Rightarrow> int \<times> int" where
  "scale2 e x = (if 0 \<le> e then (fst x * 2 ^ nat e, snd x) else (fst x, snd x * 2 ^ nat (- e)))"

definition float_div :: "int \<Rightarrow> int \<Rightarrow> int \<times> int" where
  "float_div p q =
     (if p = 0 then (0, 1)
      else let e = 52 - (bit_count p - bit_count q);
               (p1, q1) = scale2 e (p, q);
               e' = (if p1 < 2 ^ 52 * q1 then e + 1 else e);
               (p2, q2) = scale2 e' (p, q)
           in scale2 (- e') (half_even p2 q2, 1))"

definition float_mul :: "int \<times> int \<Rightarrow> int \<times> int \<Rightarrow> int \<times> int" where
  "float_mul x y = float_div (fst x * fst y) (snd x * snd y)"

text \<open>\<open>uint64(float64(f) * (float64(unit) / scale))\<close>.\<close>

definition fraction_units :: "int \<Rightarrow> int \<Rightarrow> int \<Rightarrow> int" where
  "fraction_units f unit scale =
     (let (p, q) = float_mul (float_div f 1) (float_div unit scale) in p div q)"

subsection \<open>Durations\<close>

text \<open>\<open>leadingInt\<close> and \<open>leadingFraction\<close>.\<close>

fun leading_int :: "int \<Rightarrow> string \<Rightarrow> (int \<times> string) option" where
  "leading_int x [] = Some (x, [])"
| "leading_int x (c # s) =
     (if \<not> is_digit c then Some (x, c # s)
      else if 922337203685477580 < x then None
      else let x1 = 10 * x + int (digit_val c) in if 2 ^ 63 < x1 then None else leading_int x1 s)"

fun leading_fraction :: "int \<Rightarrow> int \<Rightarrow> bool \<Rightarrow> string \<Rightarrow> int \<times> int \<times> string" where
  "leading_fraction x scale overflow [] = (x, scale, [])"
| "leading_fraction x scale overflow (c # s) =
     (if \<not> is_digit c then (x, scale, c # s)
      else if overflow \<or> 922337203685477580 < x then leading_fraction x scale True s
      else let y = 10 * x + int (digit_val c)
           in if 2 ^ 63 < y then leading_fraction x scale True s
              else leading_fraction y (10 * scale) False s)"

definition unit_map :: "string \<Rightarrow> int option" where
  "unit_map u =
     map_of [(''ns'', 1), (''us'', 1000), (map char_of [0xC2, 0xB5, 0x73 :: nat], 1000), (map char_of [0xCE, 0xBC, 0x73 :: nat], 1000),
             (''ms'', 1000000), (''s'', 1000000000), (''m'', 60000000000), (''h'', 3600000000000)] u"

definition unit_byte :: "char \<Rightarrow> bool" where
  "unit_byte c \<longleftrightarrow> c \<noteq> CHR ''.'' \<and> \<not> is_digit c"

definition fraction_part :: "string \<Rightarrow> int \<times> int \<times> string" where
  "fraction_part s = (if take 1 s = ''.'' then leading_fraction 0 1 False (drop 1 s) else (0, 1, s))"

text \<open>One round of the loop: the value of the next number with its unit, and the rest.\<close>

definition duration_item :: "string \<Rightarrow> (int \<times> string) option" where
  "duration_item s =
     (if s = [] \<or> unit_byte (hd s) then None
      else case leading_int 0 s of
          None \<Rightarrow> None
        | Some (v, s1) \<Rightarrow>
            (let pre = (length s1 \<noteq> length s);
                 (f, scale, s2) = fraction_part s1;
                 post = (take 1 s1 = ''.'' \<and> length s2 \<noteq> length (drop 1 s1))
             in if \<not> pre \<and> \<not> post then None
                else case unit_map (takeWhile unit_byte s2) of
                    None \<Rightarrow> None
                  | Some unit \<Rightarrow>
                      if 2 ^ 63 div unit < v then None
                      else (let v1 = v * unit + (if 0 < f then fraction_units f unit scale else 0)
                            in if 2 ^ 63 < v1 then None else Some (v1, dropWhile unit_byte s2))))"

lemma leading_int_length: "leading_int x s = Some (v, t) \<Longrightarrow> length t \<le> length s"
  by (induction x s arbitrary: v t rule: leading_int.induct) (fastforce simp: Let_def split: if_splits)+

lemma leading_fraction_length: "leading_fraction x k b s = (f, k', t) \<Longrightarrow> length t \<le> length s"
  by (induction x k b s arbitrary: f k' t rule: leading_fraction.induct) (fastforce simp: Let_def split: if_splits)+

lemma unit_map_nonempty: "unit_map [] = None"
  by (simp add: unit_map_def)

lemma duration_item_parts:
  assumes "duration_item s = Some (v, t)"
  obtains v0 s1 f k s2 unit where "leading_int 0 s = Some (v0, s1)" "fraction_part s1 = (f, k, s2)"
    "unit_map (takeWhile unit_byte s2) = Some unit" "t = dropWhile unit_byte s2"
proof -
  have "leading_int 0 s \<noteq> None"
    using assms by (intro notI) (simp add: duration_item_def split: if_splits)
  then obtain v0 s1 where s1: "leading_int 0 s = Some (v0, s1)" by (metis option.exhaust surj_pair)
  obtain f k s2 where s2: "fraction_part s1 = (f, k, s2)" by (metis prod_cases3)
  have "unit_map (takeWhile unit_byte s2) \<noteq> None"
    using assms by (intro notI) (simp add: duration_item_def s1 s2 split: if_splits)
  then obtain unit where u: "unit_map (takeWhile unit_byte s2) = Some unit" by (rule not_None_eq [THEN iffD1, THEN exE])
  have "t = dropWhile unit_byte s2"
    using assms by (simp add: duration_item_def s1 s2 u Let_def split: if_splits)
  then show ?thesis by (rule that [OF s1 s2 u])
qed

lemma fraction_part_length: "fraction_part s = (f, k, t) \<Longrightarrow> length t \<le> length s"
  using leading_fraction_length [of 0 1 False "drop 1 s" f k t] by (simp add: fraction_part_def split: if_splits)

lemma duration_item_shorter:
  assumes "duration_item s = Some (v, t)"
  shows "length t < length s"
  using assms
proof (rule duration_item_parts)
  fix v0 s1 f k s2 unit
  assume s1: "leading_int 0 s = Some (v0, s1)" and s2: "fraction_part s1 = (f, k, s2)"
    and u: "unit_map (takeWhile unit_byte s2) = Some unit" and t: "t = dropWhile unit_byte s2"
  have "length s2 \<le> length s"
    using leading_int_length [OF s1] fraction_part_length [OF s2] by simp
  moreover have "takeWhile unit_byte s2 \<noteq> []" using u unit_map_nonempty by (metis option.distinct(1))
  then have "0 < length (takeWhile unit_byte s2)" by blast
  moreover have "length (takeWhile unit_byte s2) + length t = length s2"
    unfolding t by (metis length_append takeWhile_dropWhile_id)
  ultimately show ?thesis by linarith
qed

text \<open>The sum is an unsigned 64-bit integer, tested after each addition.\<close>

function duration_sum :: "int \<Rightarrow> string \<Rightarrow> int option" where
  "duration_sum d s =
     (if s = [] then Some d
      else case duration_item s of
          None \<Rightarrow> None
        | Some (v, t) \<Rightarrow>
            (let d1 = (d + v) mod 2 ^ 64 in if 2 ^ 63 < d1 then None else duration_sum d1 t))"
  by pat_completeness auto
termination
  by (relation "measure (\<lambda>(d, s). length s)") (auto dest: duration_item_shorter)

declare duration_sum.simps [simp del]

definition parse_duration :: "string \<Rightarrow> go_error + duration" where
  "parse_duration orig =
     (let neg = (take 1 orig = ''-'');
          s = (if take 1 orig = ''-'' \<or> take 1 orig = ''+'' then drop 1 orig else orig);
          bad = Plain (''time: invalid duration '' @ quoted orig)
      in if s = ''0'' then Inr 0
         else if s = [] then Inl bad
         else case duration_sum 0 s of
             None \<Rightarrow> Inl bad
           | Some d \<Rightarrow>
               if neg then Inr (- d)
               else if max_int64 < d then Inl bad
               else Inr d)"

lemma duration_sum_bound: "duration_sum d s = Some n \<Longrightarrow> 0 \<le> d \<Longrightarrow> d \<le> 2 ^ 63 \<Longrightarrow> 0 \<le> n \<and> n \<le> 2 ^ 63"
proof (induction d s rule: duration_sum.induct)
  case (1 d s)
  show ?case
  proof (cases "s = [] \<or> duration_item s = None")
    case True
    with "1.prems" show ?thesis by (subst (asm) duration_sum.simps) (auto split: if_splits)
  next
    case False
    then obtain v t where v: "duration_item s = Some (v, t)" "s \<noteq> []" by auto
    let ?d = "(d + v) mod 2 ^ 64"
    have d: "\<not> 2 ^ 63 < ?d" "duration_sum ?d t = Some n"
      using "1.prems"(1) unfolding duration_sum.simps [of d s] by (simp_all add: v Let_def split: if_splits)
    show ?thesis by (rule "1.IH" [OF v(2,1) refl refl d]) (use d(1) in simp_all)
  qed
qed

lemma parse_duration_range:
  assumes "parse_duration s = Inr d"
  shows "in_int64 d"
proof -
  have b: "0 \<le> n \<and> n \<le> 2 ^ 63" if "duration_sum 0 t = Some n" for t n
    using duration_sum_bound [OF that] by simp
  let ?s = "if take 1 s = ''-'' \<or> take 1 s = ''+'' then drop 1 s else s"
  consider "d = 0" | n where "duration_sum 0 ?s = Some n" "d = - n"
    | "0 \<le> d" "d \<le> max_int64"
    using assms b unfolding parse_duration_def Let_def by (auto split: if_splits option.splits)
  then show ?thesis
  proof cases
    case (2 n)
    with b [OF this(1)] show ?thesis by (simp add: in_int64_def min_int64_def max_int64_def)
  qed (simp_all add: in_int64_def min_int64_def max_int64_def)
qed

subsection \<open>Log levels\<close>

text \<open>
  \<open>strings.ToUpper\<close>, as far as the result is compared with ASCII words: besides the ASCII
  letters, only the dotless i (\<open>U+0131\<close>) and the long s (\<open>U+017F\<close>) have an ASCII upper case.
\<close>

fun to_upper :: "string \<Rightarrow> string" where
  "to_upper [] = []"
| "to_upper [c] = [if is_lower c then char_of (byte c - 32) else c]"
| "to_upper (c # d # s) =
     (if byte c = 0xC4 \<and> byte d = 0xB1 then CHR ''I'' # to_upper s
      else if byte c = 0xC5 \<and> byte d = 0xBF then CHR ''S'' # to_upper s
      else (if is_lower c then char_of (byte c - 32) else c) # to_upper (d # s))"

definition level_word :: "string \<Rightarrow> int option" where
  "level_word s = map_of [(''DEBUG'', level_debug), (''INFO'', level_info), (''WARN'', level_warn), (''ERROR'', level_error)] s"

definition unmarshal_level :: "string \<Rightarrow> go_error + int" where
  "unmarshal_level s =
     (let is_sign = (\<lambda>c. c = CHR ''+'' \<or> c = CHR ''-'');
          name = takeWhile (\<lambda>c. \<not> is_sign c) s; rest = dropWhile (\<lambda>c. \<not> is_sign c) s;
          fail = (\<lambda>e. Inl (Wrap (''slog: level string '' @ quoted s @ '': '') e []))
      in case (if rest = [] then Inr 0 else parse_int ''Atoi'' rest) of
           Inl e \<Rightarrow> fail e
         | Inr offset \<Rightarrow>
             (case level_word (to_upper name) of
                None \<Rightarrow> fail (Plain ''unknown name'')
              | Some l \<Rightarrow> Inr (wrap64 (l + offset))))"

end
