(* ===== verification/Oidc.thy ===== *)
theory Oidc
  imports Middleware
begin

section \<open>The OpenID Connect flow (\<open>internal/auth/oidc.go\<close>)\<close>

text \<open>
  \<open>NewOIDCAuth\<close>, the login and the callback handler.  The identity provider, the OAuth2
  client and the ID-token verifier are third-party code: the record \<open>oidc_provider\<close> holds
  their operations and every handler takes it as an argument.  Nothing is assumed of them;
  what a property needs (that an exchange or a verification succeeded) stands in it.  Random
  bytes and the PKCE verifier are arguments too.  Clock readings of the callback: 0 for the
  freshness check, 1 for the session, 2 for the cookie.
\<close>

subsection \<open>The identity provider\<close>

datatype auth_option = ONonce string | OChallenge string | OParam string string

record id_token =
  it_nonce :: string
  it_payload :: string

record oidc_provider =
  op_auth_code_url :: "oidc_auth \<Rightarrow> string \<Rightarrow> auth_option list \<Rightarrow> string"
  op_exchange :: "string \<Rightarrow> string \<Rightarrow> go_error + string option"
  op_verify :: "string \<Rightarrow> go_error + id_token"

record id_token_claims =
  cl_email :: string
  cl_email_verified :: bool
  cl_nonce :: string
  cl_acr :: string
  cl_auth_time :: int

definition empty_claims :: id_token_claims where
  "empty_claims = \<lparr> cl_email = [], cl_email_verified = False, cl_nonce = [], cl_acr = [], cl_auth_time = 0 \<rparr>"

definition claims_fields :: "id_token_claims field list" where
  "claims_fields =
     [(''email'', dec_string (\<lambda>x c. c\<lparr> cl_email := x \<rparr>)),
      (''email_verified'', dec_bool (\<lambda>x c. c\<lparr> cl_email_verified := x \<rparr>)),
      (''nonce'', dec_string (\<lambda>x c. c\<lparr> cl_nonce := x \<rparr>)),
      (''acr'', dec_string (\<lambda>x c. c\<lparr> cl_acr := x \<rparr>)),
      (''auth_time'', dec_int (\<lambda>x c. c\<lparr> cl_auth_time := x \<rparr>))]"

definition token_claims :: "id_token \<Rightarrow> id_token_claims option" where
  "token_claims t = unmarshal claims_fields (it_payload t) empty_claims"

subsection \<open>Constants and helpers\<close>

definition err_email_not_verified :: go_error where "err_email_not_verified = Sentinel ''email not verified''"
definition err_email_mismatch :: go_error where "err_email_mismatch = Sentinel ''email mismatch''"

definition flow_cookie_path :: string where "flow_cookie_path = ''/auth''"
definition flow_ttl :: duration where "flow_ttl = 5 * minute"
definition cookie_state :: string where "cookie_state = ''oauth_state''"
definition cookie_nonce :: string where "cookie_nonce = ''oauth_nonce''"
definition cookie_pkce :: string where "cookie_pkce = ''oauth_pkce''"
definition cookie_next_path :: string where "cookie_next_path = ''oauth_next''"
definition flow_cookie_names :: "string list" where
  "flow_cookie_names = [cookie_state, cookie_nonce, cookie_pkce, cookie_next_path]"

lemmas flow_cookie_defs = cookie_state_def cookie_nonce_def cookie_pkce_def cookie_next_path_def

definition auth_time_leeway :: duration where "auth_time_leeway = 30 * second"

text \<open>\<open>within + authTimeLeeway\<close> is an addition of 64-bit durations.\<close>

definition auth_time_fresh :: "instant \<Rightarrow> int \<Rightarrow> duration \<Rightarrow> bool" where
  "auth_time_fresh now auth_time within =
     (if auth_time = 0 then False
      else time_sub now (unix_time auth_time) \<le> wrap64 (within + auth_time_leeway))"

definition random_token :: "go_error + string \<Rightarrow> go_error + string" where
  "random_token r = (case r of
      Inl e \<Rightarrow> Inl (Wrap ''read random: '' e [])
    | Inr b \<Rightarrow> Inr (b64_encode RawURLEncoding b))"

definition set_flow_cookie :: "oidc_auth \<Rightarrow> string \<Rightarrow> string \<Rightarrow> writer \<Rightarrow> writer" where
  "set_flow_cookie a name v w = set_cookie
     \<lparr> ck_name = name, ck_value = v, ck_path = flow_cookie_path, ck_max_age = int_seconds flow_ttl,
       ck_http_only = True, ck_secure = oa_secure_cookies a, ck_same_site = SameSiteLax \<rparr> w"

definition cleared_flow_cookie :: "oidc_auth \<Rightarrow> string \<Rightarrow> cookie" where
  "cleared_flow_cookie a name =
     \<lparr> ck_name = name, ck_value = [], ck_path = flow_cookie_path, ck_max_age = -1,
       ck_http_only = True, ck_secure = oa_secure_cookies a, ck_same_site = SameSiteLax \<rparr>"

definition clear_flow_cookies :: "oidc_auth \<Rightarrow> writer \<Rightarrow> writer" where
  "clear_flow_cookies a w = fold (\<lambda>name w. set_cookie (cleared_flow_cookie a name) w) flow_cookie_names w"

definition server_error :: "string \<Rightarrow> go_error \<Rightarrow> writer \<Rightarrow> writer" where
  "server_error msg e w = http_error ''internal server error'' 500 (log_plain level_error msg [attr_err e] w)"

definition auth_error :: "'a request_scheme \<Rightarrow> writer \<Rightarrow> writer" where
  "auth_error r w = http_redirect r error_path 303 w"

subsection \<open>Start-up\<close>

definition post_logout_redirect_uri :: "string \<Rightarrow> go_error + string" where
  "post_logout_redirect_uri redirect_uri =
     (let msg = ''derive post-logout redirect from '' @ quoted redirect_uri @ '': ''
      in case url_parse redirect_uri of
           None \<Rightarrow> Inl (Wrap msg (Plain ''parse'') [])
         | Some u \<Rightarrow>
             if is_abs u then Inr (url_string (empty_url\<lparr> u_scheme := u_scheme u, u_host := u_host u, u_path := logged_out_path \<rparr>))
             else Inl (Plain (msg @ ''%!w(<nil>)'')))"

record oidc_config =
  oc_issuer :: string
  oc_client_id :: string
  oc_client_secret :: string
  oc_redirect_uri :: string
  oc_require_email_verified :: bool
  oc_mfa_acr_values :: "string list"

record auth_config =
  ac_oidc :: oidc_config
  ac_session_key :: string
  ac_absolute_ttl :: duration
  ac_idle_ttl :: duration
  ac_secure_cookies :: bool

definition discovery_fields :: "string field list" where
  "discovery_fields = [(''end_session_endpoint'', dec_string (\<lambda>x _. x))]"

text \<open>\<open>discover\<close> is the discovery request: the raw metadata document or an error.\<close>

definition new_oidc_auth ::
  "(string \<Rightarrow> go_error + string) \<Rightarrow> auth_config \<Rightarrow> writer \<Rightarrow> (go_error + oidc_auth) \<times> writer" where
  "new_oidc_auth discover cfg w =
     (let oc = ac_oidc cfg in
      case discover (oc_issuer oc) of
        Inl e \<Rightarrow> (Inl (Wrap (''oidc discovery for '' @ quoted (oc_issuer oc) @ '': '') e []), w)
      | Inr metadata \<Rightarrow>
          (case unmarshal discovery_fields metadata [] of
             None \<Rightarrow> (Inl (Wrap ''parse oidc discovery metadata: '' (Plain ''json'') []), w)
           | Some end_session \<Rightarrow>
               (case post_logout_redirect_uri (oc_redirect_uri oc) of
                  Inl e \<Rightarrow> (Inl e, w)
                | Inr post_logout \<Rightarrow>
                    (let w1 = (if oc_mfa_acr_values oc = []
                               then log_plain level_warn ''OIDC_MFA_ACR_VALUES is empty: MFA is not enforced at the gateway; the identity provider is trusted for authentication strength'' [] w
                               else w);
                         w2 = (if \<not> oc_require_email_verified oc
                               then log_plain level_warn ''OIDC_REQUIRE_EMAIL_VERIFIED is false: logins with an unverified email are accepted'' [] w1
                               else w1);
                         w3 = (if end_session = []
                               then log_plain level_warn ''the identity provider advertises no end_session_endpoint: logout clears the gateway session only, and the provider's SSO session stays active'' [] w2
                               else w2)
                     in (Inr \<lparr> oa_client_id = oc_client_id oc, oa_client_secret = oc_client_secret oc,
                               oa_redirect_url = oc_redirect_uri oc, oa_session_key = ac_session_key cfg,
                               oa_absolute_ttl = ac_absolute_ttl cfg, oa_idle_ttl = ac_idle_ttl cfg,
                               oa_secure_cookies = ac_secure_cookies cfg,
                               oa_require_email_verified = oc_require_email_verified oc,
                               oa_mfa_acr = oc_mfa_acr_values oc, oa_end_session_endpoint = end_session,
                               oa_post_logout_redirect = post_logout \<rparr>, w3)))))"

subsection \<open>Login\<close>

definition login_handler ::
  "oidc_provider \<Rightarrow> oidc_auth \<Rightarrow> go_error + string \<Rightarrow> go_error + string \<Rightarrow> string \<Rightarrow> 'a request_scheme \<Rightarrow> writer \<Rightarrow> writer" where
  "login_handler p a rnd1 rnd2 verifier r w = (case random_token rnd1 of
      Inl e \<Rightarrow> server_error ''generate state'' e w
    | Inr state \<Rightarrow>
        (case random_token rnd2 of
           Inl e \<Rightarrow> server_error ''generate nonce'' e w
         | Inr nonce \<Rightarrow>
             (let w1 = set_flow_cookie a cookie_state state w;
                  w2 = set_flow_cookie a cookie_nonce nonce w1;
                  w3 = set_flow_cookie a cookie_pkce verifier w2;
                  next = safe_next_path (url_query_get r ''next'');
                  w4 = (if next \<noteq> [] then set_flow_cookie a cookie_next_path next w3 else w3);
                  opts = [ONonce nonce, OChallenge verifier]
                    @ (if 0 < oa_idle_ttl a then [OParam ''max_age'' (itoa (int_seconds (oa_idle_ttl a)))] else [])
              in http_redirect r (op_auth_code_url p a state opts) 302 w4)))"

subsection \<open>Callback\<close>

text \<open>The checks on the verified claims, in the order of the code; a failed one is audited.\<close>

definition claims_refusal :: "environment \<Rightarrow> oidc_auth \<Rightarrow> id_token_claims \<Rightarrow> (string \<times> log_value) list option" where
  "claims_refusal env a c =
     (if oa_require_email_verified a \<and> \<not> cl_email_verified c
      then Some [attr_str ''email'' (cl_email c), attr_str ''reason'' ''email_not_verified'']
      else if cl_email c = [] then Some [attr_str ''reason'' ''email_missing'']
      else if oa_mfa_acr a \<noteq> [] \<and> cl_acr c \<notin> set (oa_mfa_acr a)
      then Some [attr_str ''email'' (cl_email c), attr_str ''reason'' ''mfa_missing'', attr_str ''acr'' (cl_acr c)]
      else if 0 < oa_idle_ttl a \<and> \<not> auth_time_fresh (en_clock env 0) (cl_auth_time c) (oa_idle_ttl a)
      then Some [attr_str ''email'' (cl_email c), attr_str ''reason'' ''auth_too_old'']
      else None)"

definition callback_next :: "'a request_scheme \<Rightarrow> string" where
  "callback_next r = (case request_cookie r cookie_next_path of
      None \<Rightarrow> ''/''
    | Some v \<Rightarrow> if safe_next_path v \<noteq> [] then safe_next_path v else ''/'')"

definition callback_handler ::
  "environment \<Rightarrow> oidc_provider \<Rightarrow> oidc_auth \<Rightarrow> 'a request_scheme \<Rightarrow> writer \<Rightarrow> writer" where
  "callback_handler env p a r w0 =
     (let next = callback_next r;
          w = clear_flow_cookies a w0;
          fail = (\<lambda>msg attrs. auth_error r (log_plain level_warn msg attrs w))
      in if request_cookie r cookie_state \<noteq> Some (url_query_get r ''state'')
         then fail ''oauth state missing or mismatched'' []
         else if url_query_get r ''error'' \<noteq> []
         then fail ''oidc provider returned error''
           [attr_str ''error'' (url_query_get r ''error''), attr_str ''description'' (url_query_get r ''error_description'')]
         else (case request_cookie r cookie_pkce of
           None \<Rightarrow> fail ''pkce verifier cookie missing'' []
         | Some verifier \<Rightarrow>
         (case op_exchange p (url_query_get r ''code'') verifier of
           Inl e \<Rightarrow> fail ''code exchange failed'' [attr_err e]
         | Inr None \<Rightarrow> fail ''token response missing id_token'' []
         | Inr (Some raw) \<Rightarrow>
         (case op_verify p raw of
           Inl e \<Rightarrow> fail ''id_token verification failed'' [attr_err e]
         | Inr tok \<Rightarrow>
         if request_cookie r cookie_nonce \<noteq> Some (it_nonce tok) then fail ''oidc nonce missing or mismatched'' []
         else (case token_claims tok of
           None \<Rightarrow> fail ''id_token claims decode failed'' []
         | Some c \<Rightarrow>
         (case claims_refusal env a c of
           Some attrs \<Rightarrow> auth_error r (audit_log r level_audit event_login_failed attrs w)
         | None \<Rightarrow>
         (case create_session_cookie a (en_zone env) (en_clock env 1) (en_clock env 2) (cl_email c) raw of
           Inl e \<Rightarrow> server_error ''create session'' e w
         | Inr cookie \<Rightarrow>
             http_redirect r next 302
               (audit_log r level_audit event_login
                 [attr_str ''email'' (cl_email c), attr_str ''acr'' (cl_acr c)] (set_cookie cookie w)))))))))"

subsection \<open>Lemmas\<close>

lemma clear_flow_parts [writer_simps]:
  "w_header (clear_flow_cookies a w) = w_header w" "w_committed (clear_flow_cookies a w) = w_committed w"
  "w_body (clear_flow_cookies a w) = w_body w" "w_log (clear_flow_cookies a w) = w_log w"
  "w_cookies (clear_flow_cookies a w) = w_cookies w @ map (cleared_flow_cookie a) flow_cookie_names"
  by (simp_all add: clear_flow_cookies_def flow_cookie_names_def writer_simps sanitize_cookie_def cleared_flow_cookie_def)

text \<open>What must hold for the callback to establish a session for the claims \<open>c\<close> of \<open>raw\<close>.\<close>

definition signs_in ::
  "environment \<Rightarrow> oidc_provider \<Rightarrow> oidc_auth \<Rightarrow> 'a request_scheme \<Rightarrow> string \<Rightarrow> id_token_claims \<Rightarrow> bool" where
  "signs_in env p a r raw c \<longleftrightarrow>
     request_cookie r cookie_state = Some (url_query_get r ''state'') \<and> url_query_get r ''error'' = []
     \<and> (\<exists>verifier tok. request_cookie r cookie_pkce = Some verifier
          \<and> op_exchange p (url_query_get r ''code'') verifier = Inr (Some raw)
          \<and> op_verify p raw = Inr tok \<and> request_cookie r cookie_nonce = Some (it_nonce tok)
          \<and> token_claims tok = Some c)
     \<and> claims_refusal env a c = None"

lemma claims_refusal_None:
  "claims_refusal env a c = None \<longleftrightarrow>
     cl_email c \<noteq> [] \<and> (oa_require_email_verified a \<longrightarrow> cl_email_verified c)
     \<and> (oa_mfa_acr a \<noteq> [] \<longrightarrow> cl_acr c \<in> set (oa_mfa_acr a))
     \<and> (0 < oa_idle_ttl a \<longrightarrow> auth_time_fresh (en_clock env 0) (cl_auth_time c) (oa_idle_ttl a))"
  by (auto simp: claims_refusal_def)

lemma signs_in_determined:
  "signs_in env p a r raw c \<Longrightarrow> signs_in env p a r raw' c' \<Longrightarrow> raw = raw' \<and> c = c'"
  by (auto simp: signs_in_def)

text \<open>The three ways the callback ends.\<close>

lemma callback_refused:
  assumes "\<forall>raw c. \<not> signs_in env p a r raw c"
  shows "\<exists>msg lvl e attrs. callback_handler env p a r w0 = auth_error r (log_plain lvl msg attrs (clear_flow_cookies a w0))
      \<or> callback_handler env p a r w0 = auth_error r (audit_log r lvl e attrs (clear_flow_cookies a w0))"
  using assms by (auto simp: callback_handler_def Let_def signs_in_def split: option.splits sum.splits)

lemma callback_outcome:
  obtains (refused) w where "callback_handler env p a r w0 = auth_error r w" "w_committed w = w_committed w0"
      "w_cookies w = w_cookies (clear_flow_cookies a w0)" "w_header w = w_header w0"
      "\<forall>raw c. \<not> signs_in env p a r raw c"
  | (failed) raw c e where "signs_in env p a r raw c"
      "create_session_cookie a (en_zone env) (en_clock env 1) (en_clock env 2) (cl_email c) raw = Inl e"
      "callback_handler env p a r w0 = server_error ''create session'' e (clear_flow_cookies a w0)"
  | (signed_in) raw c ck where "signs_in env p a r raw c"
      "create_session_cookie a (en_zone env) (en_clock env 1) (en_clock env 2) (cl_email c) raw = Inr ck"
      "callback_handler env p a r w0 = http_redirect r (callback_next r) 302
         (audit_log r level_audit event_login [attr_str ''email'' (cl_email c), attr_str ''acr'' (cl_acr c)]
           (set_cookie ck (clear_flow_cookies a w0)))"
proof (cases "\<exists>raw c. signs_in env p a r raw c")
  case True
  then obtain raw c where s: "signs_in env p a r raw c" by blast
  then have eq: "callback_handler env p a r w0 =
      (case create_session_cookie a (en_zone env) (en_clock env 1) (en_clock env 2) (cl_email c) raw of
          Inl e \<Rightarrow> server_error ''create session'' e (clear_flow_cookies a w0)
        | Inr cookie \<Rightarrow> http_redirect r (callback_next r) 302
            (audit_log r level_audit event_login [attr_str ''email'' (cl_email c), attr_str ''acr'' (cl_acr c)]
              (set_cookie cookie (clear_flow_cookies a w0))))"
    by (auto simp: callback_handler_def Let_def signs_in_def)
  show thesis
  proof (cases "create_session_cookie a (en_zone env) (en_clock env 1) (en_clock env 2) (cl_email c) raw")
    case (Inl e)
    with eq s show thesis by (intro failed) simp_all
  next
    case (Inr ck)
    with eq s show thesis by (intro signed_in) simp_all
  qed
next
  case False
  then have "\<forall>raw c. \<not> signs_in env p a r raw c" by blast
  from callback_refused [OF this, of w0] False show thesis by (auto intro!: refused simp: writer_simps)
qed

lemma auth_error_reply:
  assumes "w_committed w = None"
  shows "status_of (auth_error r w) = 303" "cookies_of (auth_error r w) = w_cookies w"
    "header_of (auth_error r w) ''Location'' = Some error_path"
proof -
  have "redirect_target r error_path = error_path"
    using redirect_fixed [OF fixed_paths(2,5,8), of "[]"] by simp
  moreover have "hex_escape_non_ascii error_path = error_path" by code_simp
  ultimately show "status_of (auth_error r w) = 303" "cookies_of (auth_error r w) = w_cookies w"
    "header_of (auth_error r w) ''Location'' = Some error_path"
    using assms by (simp_all add: auth_error_def http_redirect_reply)
qed

lemma server_error_reply:
  assumes "w_committed w = None"
  shows "status_of (server_error m e w) = 500" "cookies_of (server_error m e w) = w_cookies w"
    "w_body (server_error m e w) = w_body w @ ''internal server error'' @ newline"
  using assms by (simp_all add: server_error_def http_error_reply writer_simps)

lemma callback_cookies:
  assumes "w_committed w0 = None"
  shows "\<exists>cs. cookies_of (callback_handler env p a r w0)
      = w_cookies w0 @ map (cleared_flow_cookie a) flow_cookie_names @ cs
    \<and> (\<forall>ck \<in> set cs. \<exists>raw c. signs_in env p a r raw c
          \<and> create_session_cookie a (en_zone env) (en_clock env 1) (en_clock env 2) (cl_email c) raw = Inr ck)"
proof (cases rule: callback_outcome [of env p a r w0])
  case (refused w)
  then show ?thesis using assms by (intro exI [of _ "[]"]) (simp add: auth_error_reply writer_simps)
next
  case (failed raw c e)
  then show ?thesis using assms by (intro exI [of _ "[]"]) (simp add: server_error_reply writer_simps)
next
  case (signed_in raw c ck)
  then have "sanitize_cookie ck = ck"
    using sanitize_session_cookie by (auto simp: create_session_cookie_def)
  with signed_in assms show ?thesis
    by (intro exI [of _ "[ck]"]) (auto simp: http_redirect_reply writer_simps)
qed

lemma flow_names_not_session: "session_cookie_name \<notin> set flow_cookie_names"
  by (simp add: session_cookie_name_def flow_cookie_names_def flow_cookie_defs)

lemma b64_cookie_bytes: "c \<in> set (b64_encode RawURLEncoding s) \<Longrightarrow> cookie_value_byte c"
  using b64_encode_bytes [of c RawURLEncoding s]
  by (auto simp: cookie_value_byte_def b64_alphabet_def is_alnum_def is_lower_def is_upper_def is_digit_def byte_in_def)

lemma b64_cookie_id: "filter cookie_value_byte (b64_encode RawURLEncoding s) = b64_encode RawURLEncoding s"
  using b64_cookie_bytes by (intro filter_cookie_id) blast

lemma valid_b64: "valid_utf8 (b64_encode e s)"
proof (intro valid_utf8_ascii_string ballI)
  fix c assume "c \<in> set (b64_encode e s)"
  from b64_encode_bytes [OF this] show "byte c < 128"
    by (auto simp: b64_alphabet_def is_alnum_def is_lower_def is_upper_def is_digit_def byte_in_def)
qed

lemma new_cookie_admitted:
  assumes "create_session_cookie a zone t1 t2 email raw = Inr ck" "valid_utf8 email" "valid_utf8 raw" "oa_idle_ttl a = 0"
    and "request_cookie r session_cookie_name = Some (ck_value ck)" "en_clock env 0 \<le> t1 + oa_absolute_ttl a"
  shows "\<exists>d. fst (validate_session_cookie env a r w) = Inr d \<and> se_email d = email"
proof -
  let ?d = "new_session a t1 email raw"
  have g: "good_session ?d" using assms(2,3) by (simp add: good_session_def new_session_def)
  have "sign_and_encode zone ?d (oa_session_key a) = Inr (ck_value ck)"
    using assms(1) by (auto simp: create_session_cookie_def session_cookie_def bindr_eq_Inr)
  from decode_signed [OF g this, of "en_clock env 0"] assms(4-6)
  have "fst (validate_session_cookie env a r w) = Inr ?d" by (simp add: validate_session_cookie_def new_session_def)
  then show ?thesis by (auto simp: new_session_def)
qed

lemma refused_reply:
  assumes "\<forall>raw c. \<not> signs_in env p a r raw c"
  shows "status_of (callback_handler env p a r new_writer) = 303"
    and "header_of (callback_handler env p a r new_writer) ''Location'' = Some error_path"
    and "cookies_of (callback_handler env p a r new_writer) = map (cleared_flow_cookie a) flow_cookie_names"
proof -
  have "status_of (callback_handler env p a r new_writer) = 303
    \<and> header_of (callback_handler env p a r new_writer) ''Location'' = Some error_path
    \<and> cookies_of (callback_handler env p a r new_writer) = map (cleared_flow_cookie a) flow_cookie_names"
  proof (cases rule: callback_outcome [of env p a r new_writer])
    case (refused w)
    then show ?thesis by (simp add: auth_error_reply writer_simps)
  qed (use assms in blast)+
  then show "status_of (callback_handler env p a r new_writer) = 303"
    "header_of (callback_handler env p a r new_writer) ''Location'' = Some error_path"
    "cookies_of (callback_handler env p a r new_writer) = map (cleared_flow_cookie a) flow_cookie_names" by simp_all
qed

lemma accepted_reply:
  assumes "signs_in env p a r raw c"
    "create_session_cookie a (en_zone env) (en_clock env 1) (en_clock env 2) (cl_email c) raw = Inr ck"
  shows "status_of (callback_handler env p a r new_writer) = 302"
    and "cookies_of (callback_handler env p a r new_writer) = map (cleared_flow_cookie a) flow_cookie_names @ [ck]"
proof -
  have "status_of (callback_handler env p a r new_writer) = 302
    \<and> cookies_of (callback_handler env p a r new_writer) = map (cleared_flow_cookie a) flow_cookie_names @ [ck]"
  proof (cases rule: callback_outcome [of env p a r new_writer])
    case (signed_in raw' c' ck')
    then have "ck' = ck" using signs_in_determined [OF assms(1)] assms(2) by auto
    moreover have "sanitize_cookie ck = ck" using sanitize_session_cookie assms(2) by (auto simp: create_session_cookie_def)
    ultimately show ?thesis using signed_in by (simp add: http_redirect_reply writer_simps)
  next
    case (failed raw' c' e)
    then show ?thesis using signs_in_determined [OF assms(1)] assms(2) by auto
  qed (use assms(1) in blast)
  then show "status_of (callback_handler env p a r new_writer) = 302"
    "cookies_of (callback_handler env p a r new_writer) = map (cleared_flow_cookie a) flow_cookie_names @ [ck]" by simp_all
qed

subsection \<open>Reading an identity\<close>

lemma claims_field_lookup:
  "find_field claims_fields ''email'' = Some (dec_string (\<lambda>x c. c\<lparr> cl_email := x \<rparr>))"
  "find_field claims_fields ''email_verified'' = Some (dec_bool (\<lambda>x c. c\<lparr> cl_email_verified := x \<rparr>))"
  "find_field claims_fields ''nonce'' = Some (dec_string (\<lambda>x c. c\<lparr> cl_nonce := x \<rparr>))"
  "find_field claims_fields ''acr'' = Some (dec_string (\<lambda>x c. c\<lparr> cl_acr := x \<rparr>))"
  "find_field claims_fields ''auth_time'' = Some (dec_int (\<lambda>x c. c\<lparr> cl_auth_time := x \<rparr>))"
  by (rule find_field_exact, simp add: claims_fields_def)+

lemma registered_claims:
  "find_field claims_fields ''iss'' = None" "find_field claims_fields ''aud'' = None" "find_field claims_fields ''sub'' = None"
  "find_field claims_fields ''exp'' = None" "find_field claims_fields ''iat'' = None"
proof -
  have f: "map (\<lambda>f. fold_name (fst f)) claims_fields = [''EMAIL'', ''EMAIL_VERIFIED'', ''NONCE'', ''ACR'', ''AUTH_TIME'']"
    unfolding claims_fields_def by code_simp
  have n: "map fold_name [''iss'', ''aud'', ''sub'', ''exp'', ''iat''] = [''ISS'', ''AUD'', ''SUB'', ''EXP'', ''IAT'']" by code_simp
  show "find_field claims_fields ''iss'' = None" "find_field claims_fields ''aud'' = None" "find_field claims_fields ''sub'' = None"
    "find_field claims_fields ''exp'' = None" "find_field claims_fields ''iat'' = None"
    using n by (intro find_field_None; simp add: f)+
qed

text \<open>An identity decodes to itself, whatever the order of its claims and the claims the code does not read.\<close>

definition identity_member :: "string \<Rightarrow> bool \<Rightarrow> string \<Rightarrow> string \<times> json \<Rightarrow> bool" where
  "identity_member email verified nonce kv \<longleftrightarrow> kv = (''email'', jstring email) \<or> kv = (''email_verified'', JBool verified)
     \<or> kv = (''nonce'', jstring nonce)
     \<or> find_field claims_fields (fst kv) = None \<and> valid_utf8 (fst kv) \<and> good_json (snd kv) \<and> json_depth (snd kv) = 0"

lemma decode_identity:
  assumes "distinct (map fst kvs)" "\<forall>kv \<in> set kvs. identity_member email verified nonce kv" "valid_utf8 email" "valid_utf8 nonce"
  shows "\<exists>c'. decode_plain claims_fields kvs c = Some c'
    \<and> cl_email c' = (if ''email'' \<in> fst ` set kvs then email else cl_email c)
    \<and> cl_email_verified c' = (if ''email_verified'' \<in> fst ` set kvs then verified else cl_email_verified c)
    \<and> cl_nonce c' = (if ''nonce'' \<in> fst ` set kvs then nonce else cl_nonce c)"
  using assms(1,2)
proof (induction kvs arbitrary: c)
  case (Cons kv kvs)
  obtain k v where kv: "kv = (k, v)" by fastforce
  let ?P = "\<lambda>c1 c'. decode_plain claims_fields kvs c1 = Some c'
      \<and> cl_email c' = (if ''email'' \<in> fst ` set kvs then email else cl_email c1)
      \<and> cl_email_verified c' = (if ''email_verified'' \<in> fst ` set kvs then verified else cl_email_verified c1)
      \<and> cl_nonce c' = (if ''nonce'' \<in> fst ` set kvs then nonce else cl_nonce c1)"
  have ih: "\<exists>c'. ?P c1 c'" for c1 using Cons.prems by (intro Cons.IH) simp_all
  have fresh: "k \<notin> fst ` set kvs" using Cons.prems(1) by (auto simp: kv)
  have "identity_member email verified nonce (k, v)" using Cons.prems(2) by (simp add: kv)
  then consider "k = ''email''" "v = jstring email" | "k = ''email_verified''" "v = JBool verified" | "k = ''nonce''" "v = jstring nonce"
    | "k \<noteq> ''email''" "k \<noteq> ''email_verified''" "k \<noteq> ''nonce''" "find_field claims_fields k = None"
    using claims_field_lookup(1-3)
    by (cases "k \<in> {''email'', ''email_verified'', ''nonce''}") (auto simp: identity_member_def)
  then show ?case
  proof cases
    case 1
    obtain c' where "?P (c\<lparr> cl_email := email \<rparr>) c'" using ih by blast
    with 1 fresh assms(3) show ?thesis by (intro exI [of _ c']) (simp add: kv claims_field_lookup)
  next
    case 2
    obtain c' where "?P (c\<lparr> cl_email_verified := verified \<rparr>) c'" using ih by blast
    with 2 fresh show ?thesis by (intro exI [of _ c']) (simp add: kv claims_field_lookup dec_bool_def)
  next
    case 3
    obtain c' where "?P (c\<lparr> cl_nonce := nonce \<rparr>) c'" using ih by blast
    with 3 fresh assms(4) show ?thesis by (intro exI [of _ c']) (simp add: kv claims_field_lookup)
  next
    case 4
    obtain c' where "?P c c'" using ih by blast
    with 4 show ?thesis by (intro exI [of _ c']) (simp add: kv)
  qed
qed simp

lemma identity_claims:
  assumes "it_payload tok = print_json (jobject kvs)" "distinct (map fst kvs)" "\<forall>kv \<in> set kvs. identity_member email verified nonce kv"
    and "valid_utf8 email" "valid_utf8 nonce" "(''email'', jstring email) \<in> set kvs" "(''email_verified'', JBool verified) \<in> set kvs"
  obtains c where "token_claims tok = Some c" "cl_email c = email" "cl_email_verified c = verified"
    "(''nonce'', jstring nonce) \<in> set kvs \<longrightarrow> cl_nonce c = nonce"
proof -
  have "list_all valid_utf8 [''email'', ''email_verified'', ''nonce'']" by code_simp
  then have v: "\<forall>(k, v) \<in> set kvs. valid_utf8 k \<and> good_json v \<and> json_depth v = 0"
    using assms(3-5) by (fastforce simp: identity_member_def string_literal_json_escape)
  have "''email'' \<in> fst ` set kvs" "''email_verified'' \<in> fst ` set kvs" using assms(6,7) by force+
  with decode_identity [OF assms(2-5), of empty_claims]
  obtain c where c: "decode_plain claims_fields kvs empty_claims = Some c" "cl_email c = email" "cl_email_verified c = verified"
    "cl_nonce c = (if ''nonce'' \<in> fst ` set kvs then nonce else cl_nonce empty_claims)" by auto
  have "token_claims tok = Some c" by (simp add: token_claims_def assms(1) unmarshal_printed [OF v] c(1))
  with that c show thesis by force
qed

subsection \<open>An example sign-in\<close>

definition sample_payload :: string where
  "sample_payload = print_json (jobject
     [(''email'', jstring ''ada@example.org''), (''email_verified'', JBool True), (''acr'', jstring ''mfa''),
      (''auth_time'', jint 1700000000)])"

definition sample_provider :: oidc_provider where
  "sample_provider =
     \<lparr> op_auth_code_url = (\<lambda>a s os. ''https://idp.example/auth?state='' @ s),
       op_exchange = (\<lambda>code v. if code = ''c'' \<and> v = ''verifier'' then Inr (Some ''idt'') else Inl (Plain ''invalid_grant'')),
       op_verify = (\<lambda>raw. Inr \<lparr> it_nonce = b64_encode RawURLEncoding ''n'', it_payload = sample_payload \<rparr>) \<rparr>"

definition sample_callback :: gw_request where
  "sample_callback = (gw_get ''/auth/callback'')\<lparr>
     rq_url := empty_url\<lparr> u_path := ''/auth/callback'', u_raw_query := ''code=c&state=cw'' \<rparr>,
     rq_cookies := [(cookie_state, ''cw''), (cookie_nonce, b64_encode RawURLEncoding ''n''), (cookie_pkce, ''verifier'')] \<rparr>"

definition sample_claims :: id_token_claims where
  "sample_claims = \<lparr> cl_email = ''ada@example.org'', cl_email_verified = True, cl_nonce = [], cl_acr = ''mfa'',
     cl_auth_time = 1700000000 \<rparr>"

lemma sample_token_claims:
  "token_claims \<lparr> it_nonce = b64_encode RawURLEncoding ''n'', it_payload = sample_payload \<rparr> = Some sample_claims"
proof -
  have v: "valid_utf8 s" if "list_all json_safe s" for s using that by (rule json_safe_valid)
  have "list_all json_safe ''email''" "list_all json_safe ''email_verified''" "list_all json_safe ''acr''"
    "list_all json_safe ''auth_time''" "list_all json_safe ''ada@example.org''" "list_all json_safe ''mfa''"
    by (simp_all add: json_safe_def)
  note v' = this [THEN v]
  have "in_int64 1700000000" by (simp add: in_int64_def min_int64_def max_int64_def)
  with v' show ?thesis
    unfolding token_claims_def sample_payload_def id_token.select_convs
    by (subst unmarshal_printed) (simp_all add: claims_field_lookup dec_bool_def empty_claims_def sample_claims_def)
qed

lemma sample_fresh: "auth_time_fresh (1700000000 * second) 1700000000 (15 * minute)"
  by (simp add: auth_time_fresh_def unix_time_def wrap64_def time_sub_def auth_time_leeway_def duration_units
      min_int64_def max_int64_def)

lemma sample_callback_query:
  "url_query_get sample_callback ''state'' = b64_encode RawURLEncoding ''s''"
  "url_query_get sample_callback ''error'' = []" "url_query_get sample_callback ''code'' = ''c''"
proof -
  have "query_get ''code=c&state=cw'' ''state'' = b64_encode RawURLEncoding ''s''"
    "query_get ''code=c&state=cw'' ''error'' = []" "query_get ''code=c&state=cw'' ''code'' = ''c''"
    by code_simp+
  then show "url_query_get sample_callback ''state'' = b64_encode RawURLEncoding ''s''"
    "url_query_get sample_callback ''error'' = []" "url_query_get sample_callback ''code'' = ''c''"
    by (simp_all add: url_query_get_def sample_callback_def)
qed

lemma sample_callback_cookies:
  "request_cookie sample_callback cookie_state = Some (b64_encode RawURLEncoding ''s'')"
  "request_cookie sample_callback cookie_nonce = Some (b64_encode RawURLEncoding ''n'')"
  "request_cookie sample_callback cookie_pkce = Some ''verifier''"
  "request_cookie sample_callback cookie_next_path = None"
proof -
  have "b64_encode RawURLEncoding ''s'' = ''cw''" by code_simp
  then show "request_cookie sample_callback cookie_state = Some (b64_encode RawURLEncoding ''s'')"
    "request_cookie sample_callback cookie_nonce = Some (b64_encode RawURLEncoding ''n'')"
    "request_cookie sample_callback cookie_pkce = Some ''verifier''"
    "request_cookie sample_callback cookie_next_path = None"
    by (simp_all add: request_cookie_def sample_callback_def flow_cookie_defs)
qed

lemma sample_not_refused: "claims_refusal sample_env sample_auth sample_claims = None"
  using sample_fresh
  by (simp add: claims_refusal_None sample_claims_def sample_auth_def sample_env_def duration_units)

lemma sample_provider_steps:
  "op_exchange sample_provider (url_query_get sample_callback ''code'') ''verifier'' = Inr (Some ''idt'')"
  "op_verify sample_provider ''idt'' = Inr \<lparr> it_nonce = b64_encode RawURLEncoding ''n'', it_payload = sample_payload \<rparr>"
  by (simp_all add: sample_provider_def sample_callback_query)

lemma sample_signs_in: "signs_in sample_env sample_provider sample_auth sample_callback ''idt'' sample_claims"
  unfolding signs_in_def
  using sample_callback_query sample_callback_cookies sample_provider_steps sample_token_claims sample_not_refused
  by auto

lemma sample_cookie:
  "\<exists>ck. create_session_cookie sample_auth (en_zone sample_env) (en_clock sample_env 1) (en_clock sample_env 2)
      (cl_email sample_claims) ''idt'' = Inr ck \<and> ck_value ck = sample_token \<and> ck_name ck = session_cookie_name"
proof -
  have "new_session sample_auth (en_clock sample_env 1) (cl_email sample_claims) ''idt'' = sample_session"
    by (simp add: sample_session_def sample_env_def sample_claims_def)
  with sample_signed show ?thesis by (simp add: create_session_cookie_def session_cookie_def)
qed

subsection \<open>Properties\<close>

text \<open>C4: The callback sets a session cookie only if every check passed: the state of the request is
  the one in the browser's cookie, the provider reported no error, the code was exchanged with
  the browser's PKCE verifier for an ID token that verified and carries the browser's nonce, its
  claims decode and name an email, which is verified if that is required, a configured second
  factor is attested, and with an idle limit the authentication is fresh.  The session is then
  that email's, issued now, and expires after the absolute lifetime.\<close>

theorem callback_session_only_if_checked:
  assumes "ck \<in> set (cookies_of (callback_handler env p a r new_writer))" "ck_name ck = session_cookie_name"
  shows "\<exists>verifier raw tok c.
      request_cookie r cookie_state = Some (url_query_get r ''state'') \<and> url_query_get r ''error'' = []
      \<and> request_cookie r cookie_pkce = Some verifier
      \<and> op_exchange p (url_query_get r ''code'') verifier = Inr (Some raw)
      \<and> op_verify p raw = Inr tok \<and> request_cookie r cookie_nonce = Some (it_nonce tok)
      \<and> token_claims tok = Some c \<and> cl_email c \<noteq> []
      \<and> (oa_require_email_verified a \<longrightarrow> cl_email_verified c)
      \<and> (oa_mfa_acr a \<noteq> [] \<longrightarrow> cl_acr c \<in> set (oa_mfa_acr a))
      \<and> (0 < oa_idle_ttl a \<longrightarrow> auth_time_fresh (en_clock env 0) (cl_auth_time c) (oa_idle_ttl a))
      \<and> sign_and_encode (en_zone env) (new_session a (en_clock env 1) (cl_email c) raw) (oa_session_key a) = Inr (ck_value ck)"
proof -
  obtain cs where cs: "cookies_of (callback_handler env p a r new_writer)
      = w_cookies new_writer @ map (cleared_flow_cookie a) flow_cookie_names @ cs"
    and s: "\<forall>ck \<in> set cs. \<exists>raw c. signs_in env p a r raw c
          \<and> create_session_cookie a (en_zone env) (en_clock env 1) (en_clock env 2) (cl_email c) raw = Inr ck"
    using callback_cookies [OF new_writer_parts(3)] by blast
  have "ck \<notin> set (map (cleared_flow_cookie a) flow_cookie_names)"
    using assms(2) flow_names_not_session by (auto simp: cleared_flow_cookie_def)
  with assms(1) cs have "ck \<in> set cs" by (simp add: writer_simps)
  with s obtain raw c where in': "signs_in env p a r raw c"
    and ck: "create_session_cookie a (en_zone env) (en_clock env 1) (en_clock env 2) (cl_email c) raw = Inr ck" by blast
  have "sign_and_encode (en_zone env) (new_session a (en_clock env 1) (cl_email c) raw) (oa_session_key a) = Inr (ck_value ck)"
    using ck by (auto simp: create_session_cookie_def session_cookie_def bindr_eq_Inr)
  with in' show ?thesis unfolding signs_in_def claims_refusal_None by blast
qed

lemma callback_session_only_if_checked_witness:
  "\<exists>ck \<in> set (cookies_of (callback_handler sample_env sample_provider sample_auth sample_callback new_writer)).
     ck_name ck = session_cookie_name
     \<and> (\<exists>verifier raw. op_exchange sample_provider (url_query_get sample_callback ''code'') verifier = Inr (Some raw)
          \<and> request_cookie sample_callback cookie_pkce = Some verifier)"
proof -
  obtain ck where ck: "create_session_cookie sample_auth (en_zone sample_env) (en_clock sample_env 1) (en_clock sample_env 2)
      (cl_email sample_claims) ''idt'' = Inr ck" "ck_name ck = session_cookie_name" using sample_cookie by blast
  have "ck \<in> set (cookies_of (callback_handler sample_env sample_provider sample_auth sample_callback new_writer))"
  proof (cases rule: callback_outcome [of sample_env sample_provider sample_auth sample_callback new_writer])
    case (signed_in raw c ck')
    then have "raw = ''idt''" "c = sample_claims" using signs_in_determined [OF sample_signs_in] by blast+
    with signed_in ck have "ck' = ck" by simp
    moreover have "sanitize_cookie ck = ck"
      using sanitize_session_cookie ck by (auto simp: create_session_cookie_def)
    ultimately show ?thesis using signed_in by (simp add: http_redirect_reply writer_simps)
  next
    case (failed raw c e)
    then have "raw = ''idt''" "c = sample_claims" using signs_in_determined [OF sample_signs_in] by blast+
    with failed ck show ?thesis by simp
  qed (use sample_signs_in in blast)
  with callback_session_only_if_checked [OF this ck(2)] ck(2) show ?thesis by blast
qed

text \<open>Whatever happens in the callback, the four single-use flow cookies are expired in the
  reply, before any session cookie, and the session cookie is the only other one.\<close>

theorem callback_clears_flow_cookies:
  "\<exists>cs. cookies_of (callback_handler env p a r new_writer) = map (cleared_flow_cookie a) flow_cookie_names @ cs
     \<and> set (map ck_name cs) \<subseteq> {session_cookie_name}"
proof -
  obtain cs where cs: "cookies_of (callback_handler env p a r new_writer)
      = w_cookies new_writer @ map (cleared_flow_cookie a) flow_cookie_names @ cs"
    and s: "\<forall>ck \<in> set cs. \<exists>raw c. signs_in env p a r raw c
          \<and> create_session_cookie a (en_zone env) (en_clock env 1) (en_clock env 2) (cl_email c) raw = Inr ck"
    using callback_cookies [OF new_writer_parts(3)] by blast
  have "ck_name ck = session_cookie_name"
    if "create_session_cookie a z t u e i = Inr ck" for ck z t u e i
    using that by (auto simp: create_session_cookie_def session_cookie_def bindr_eq_Inr)
  with s have "set (map ck_name cs) \<subseteq> {session_cookie_name}" by fastforce
  with cs show ?thesis by (auto simp: writer_simps)
qed

text \<open>C35: A callback that fails a check sends the browser to the error page, whatever the request
  holds: the location is constant, so nothing of the request or of the reason is reflected, and
  no session is set.\<close>

theorem callback_refusal_is_uniform:
  assumes "\<forall>raw c. \<not> signs_in env p a r raw c"
  shows "status_of (callback_handler env p a r new_writer) = 303
    \<and> header_of (callback_handler env p a r new_writer) ''Location'' = Some ''/auth/error''
    \<and> cookies_of (callback_handler env p a r new_writer) = map (cleared_flow_cookie a) flow_cookie_names"
  using refused_reply [OF assms] by (simp add: error_path_def)

lemma callback_refusal_is_uniform_witness:
  "status_of (callback_handler sample_env \<lparr> op_auth_code_url = \<lambda>_ _ _. [], op_exchange = \<lambda>_ _. Inr None, op_verify = \<lambda>_. Inl (Plain []) \<rparr>
     sample_auth (gw_get ''/auth/callback'') new_writer) = 303"
proof -
  have "\<forall>raw c. \<not> signs_in sample_env \<lparr> op_auth_code_url = \<lambda>_ _ _. [], op_exchange = \<lambda>_ _. Inr None, op_verify = \<lambda>_. Inl (Plain []) \<rparr>
     sample_auth (gw_get ''/auth/callback'') raw c"
    by (simp add: signs_in_def)
  from callback_refusal_is_uniform [OF this] show ?thesis by blast
qed

text \<open>The browser's cookies after the login, and the callback that presents them.\<close>

lemma login_jar:
  assumes "lw = login_handler p0 a (Inr b1) (Inr b2) verifier lr new_writer" "list_all cookie_value_byte verifier"
    "q = safe_next_path (url_query_get lr ''next'')"
  shows "map (\<lambda>c. (ck_name c, ck_value c)) (cookies_of lw) =
      [(cookie_state, b64_encode RawURLEncoding b1), (cookie_nonce, b64_encode RawURLEncoding b2), (cookie_pkce, verifier)]
      @ (if q = [] then [] else [(cookie_next_path, filter cookie_value_byte q)])"
  using assms(2) unfolding assms(1,3) login_handler_def random_token_def
  by (simp add: Let_def set_flow_cookie_def http_redirect_reply writer_simps sanitize_cookie_def b64_cookie_id
      filter_cookie_id list_all_iff)

lemma login_signs_in:
  assumes login: "lw = login_handler p0 a (Inr b1) (Inr b2) verifier lr new_writer"
    and browser: "\<forall>n \<in> set flow_cookie_names. request_cookie r n = map_of (map (\<lambda>c. (ck_name c, ck_value c)) (cookies_of lw)) n"
    and echo: "url_query_get r ''state'' = b64_encode RawURLEncoding b1" "url_query_get r ''error'' = []"
    and provider: "op_exchange p (url_query_get r ''code'') verifier = Inr (Some raw)" "op_verify p raw = Inr tok"
      "it_nonce tok = b64_encode RawURLEncoding b2" "token_claims tok = Some c" "claims_refusal env a c = None"
    and bytes: "list_all cookie_value_byte verifier"
    and q: "q = safe_next_path (url_query_get lr ''next'')"
  shows "signs_in env p a r raw c"
    and "request_cookie r cookie_next_path = (if q = [] then None else Some (filter cookie_value_byte q))"
proof -
  have names: "set flow_cookie_names = {cookie_state, cookie_nonce, cookie_pkce, cookie_next_path}"
    by (simp add: flow_cookie_names_def)
  have held: "request_cookie r cookie_state = Some (b64_encode RawURLEncoding b1)"
    "request_cookie r cookie_nonce = Some (b64_encode RawURLEncoding b2)" "request_cookie r cookie_pkce = Some verifier"
    "request_cookie r cookie_next_path = (if q = [] then None else Some (filter cookie_value_byte q))"
    using browser unfolding names login_jar [OF login bytes q] by (simp_all add: flow_cookie_defs)
  then show "request_cookie r cookie_next_path = (if q = [] then None else Some (filter cookie_value_byte q))" by blast
  show "signs_in env p a r raw c" using held echo provider by (simp add: signs_in_def)
qed

text \<open>C14: Login and callback fit together.  When the provider echoes the state, exchanges the code
  with the verifier login stored for a token with the nonce login stored, and the claims pass,
  the callback signs the recipient in and returns to the path login was asked for, after its
  check, or to the root; that location is local.\<close>

theorem login_then_callback:
  assumes login: "lw = login_handler p a (Inr b1) (Inr b2) verifier lr new_writer"
    and browser: "\<forall>n \<in> set flow_cookie_names. request_cookie r n = map_of (map (\<lambda>c. (ck_name c, ck_value c)) (cookies_of lw)) n"
    and echo: "url_query_get r ''state'' = b64_encode RawURLEncoding b1" "url_query_get r ''error'' = []"
    and provider: "op_exchange p (url_query_get r ''code'') verifier = Inr (Some raw)" "op_verify p raw = Inr tok"
      "it_nonce tok = b64_encode RawURLEncoding b2" "token_claims tok = Some c" "claims_refusal env a c = None"
    and bytes: "list_all cookie_value_byte verifier"
    and cookie: "create_session_cookie a (en_zone env) (en_clock env 1) (en_clock env 2) (cl_email c) raw = Inr ck"
    and ret: "ret = safe_next_path (filter cookie_value_byte (safe_next_path (url_query_get lr ''next'')))"
  shows "status_of (callback_handler env p a r new_writer) = 302
    \<and> ck \<in> set (cookies_of (callback_handler env p a r new_writer))
    \<and> header_of (callback_handler env p a r new_writer) ''Location''
        = Some (hex_escape_non_ascii (redirect_target r (if ret = [] then ''/'' else ret)))
    \<and> (ret \<noteq> [] \<longrightarrow> local_path (hex_escape_non_ascii (redirect_target r ret)))"
proof -
  let ?q = "safe_next_path (url_query_get lr ''next'')"
  note held = login_signs_in [OF login browser echo provider bytes refl]
  note s = held(1)
  have "safe_next_path [] = []" by (simp add: safe_next_path_def)
  then have n: "callback_next r = (if ret = [] then ''/'' else ret)"
    using held(2) ret by (auto simp: callback_next_def)
  have sane: "sanitize_cookie ck = ck"
    using sanitize_session_cookie cookie by (auto simp: create_session_cookie_def)
  have loc: "ret \<noteq> [] \<longrightarrow> local_path (hex_escape_non_ascii (redirect_target r ret))"
    using checked_twice_local [OF ret [symmetric]] by blast
  show ?thesis
  proof (cases rule: callback_outcome [of env p a r new_writer])
    case (signed_in raw' c' ck')
    with signs_in_determined [OF s] cookie have "ck' = ck" by auto
    with signed_in n sane loc show ?thesis by (simp add: http_redirect_reply writer_simps)
  next
    case (failed raw' c' e)
    with signs_in_determined [OF s] cookie show ?thesis by auto
  qed (use s in blast)
qed

lemma login_then_callback_witness:
  "status_of (callback_handler sample_env sample_provider sample_auth sample_callback new_writer) = 302"
proof -
  define lw where "lw = login_handler sample_provider sample_auth (Inr ''s'') (Inr ''n'') ''verifier'' (gw_get ''/auth/login'') new_writer"
  have q: "safe_next_path (url_query_get (gw_get ''/auth/login'') ''next'') = []"
  proof -
    have "query_get [] ''next'' = []" by code_simp
    then show ?thesis by (simp add: url_query_get_def empty_url_def safe_next_path_def)
  qed
  have bytes: "list_all cookie_value_byte ''verifier''" by (simp add: cookie_value_byte_def)
  have names: "set flow_cookie_names = {cookie_state, cookie_nonce, cookie_pkce, cookie_next_path}"
    by (simp add: flow_cookie_names_def)
  have "map (\<lambda>c. (ck_name c, ck_value c)) (cookies_of lw) =
      [(cookie_state, b64_encode RawURLEncoding ''s''), (cookie_nonce, b64_encode RawURLEncoding ''n''), (cookie_pkce, ''verifier'')]"
    using bytes q unfolding lw_def login_handler_def random_token_def
    by (simp add: Let_def set_flow_cookie_def http_redirect_reply writer_simps sanitize_cookie_def b64_cookie_id)
  then have "\<forall>n \<in> set flow_cookie_names. request_cookie sample_callback n = map_of (map (\<lambda>c. (ck_name c, ck_value c)) (cookies_of lw)) n"
    using sample_callback_cookies unfolding names by (simp add: flow_cookie_defs)
  moreover obtain ck where "create_session_cookie sample_auth (en_zone sample_env) (en_clock sample_env 1) (en_clock sample_env 2)
      (cl_email sample_claims) ''idt'' = Inr ck" using sample_cookie by blast
  ultimately show ?thesis
    using login_then_callback [OF lw_def _ sample_callback_query(1,2) sample_provider_steps _ sample_token_claims
      sample_not_refused bytes _ refl] by simp
qed

text \<open>The freshness check accepts an attested authentication exactly when it is at most the idle
  window and the leeway old, for every time the claim can name without overflow; a missing
  claim, decoded as zero, is never fresh.\<close>

theorem auth_time_fresh_iff:
  assumes "0 \<le> t" "t \<le> 2 ^ 62" "0 \<le> within" "within + auth_time_leeway < max_int64"
  shows "auth_time_fresh now t within \<longleftrightarrow> t \<noteq> 0 \<and> now - t * second \<le> within + 30 * second"
proof -
  have "in_int64 (t + 62135596800)" using assms(1,2) by (simp add: in_int64_def min_int64_def max_int64_def)
  then have u: "unix_time t = t * second" by (simp add: unix_time_def wrap64_id)
  have "in_int64 (within + auth_time_leeway)"
    using assms(3,4) by (simp add: in_int64_def min_int64_def max_int64_def auth_time_leeway_def second_def)
  then have w: "wrap64 (within + auth_time_leeway) = within + auth_time_leeway" by (rule wrap64_id)
  have "time_sub now (t * second) \<le> within + auth_time_leeway \<longleftrightarrow> now - t * second \<le> within + auth_time_leeway"
    using assms(3,4) by (auto simp: time_sub_def min_int64_def auth_time_leeway_def second_def)
  then show ?thesis unfolding auth_time_fresh_def u w by (simp add: auth_time_leeway_def)
qed

lemma auth_time_fresh_iff_witness:
  "auth_time_fresh (1700000930 * second) 1700000000 (15 * minute) \<and> \<not> auth_time_fresh (1700000931 * second) 1700000000 (15 * minute)"
proof -
  have b: "(0::int) \<le> 1700000000" "(1700000000::int) \<le> 2 ^ 62" "0 \<le> 15 * minute" "15 * minute + auth_time_leeway < max_int64"
    by (simp_all add: duration_units auth_time_leeway_def max_int64_def)
  show ?thesis unfolding auth_time_fresh_iff [OF b] by (simp add: duration_units)
qed

end
