(* ===== verification/Config.thy ===== *)
theory Config
  imports Go_Parse Go_Rfc3339 Go_Crypto Oidc
begin

section \<open>Configuration (\<open>internal/config\<close>)\<close>

text \<open>
  \<open>Load\<close> and its parsers.  The process environment is a function from names to values, empty
  for an unset variable, as \<open>os.Getenv\<close> reads it.  \<open>config_ok\<close> states what the rest of the
  gateway relies on; every configuration that \<open>Load\<close> returns satisfies it, and every other
  environment gives an error, so the process does not start on a bad value.
\<close>

type_synonym environ = "string \<Rightarrow> string"

subsection \<open>State\<close>

record brand_config =
  bc_name :: string
  bc_sub :: string
  bc_accent_color :: string
  bc_default_theme :: string

record log_config =
  lc_pseudonymize :: bool
  lc_salt :: string

record provider_config =
  pv_type :: string
  pv_base_url :: string
  pv_private_key_pem :: string
  pv_max_upload_size :: int
  pv_stream_timeout :: duration

record tos_config =
  tc_enabled :: bool
  tc_path :: string
  tc_version :: string

record config =
  cf_addr :: string
  cf_oidc :: oidc_config
  cf_session_key :: string
  cf_absolute_ttl :: duration
  cf_idle_ttl :: duration
  cf_secure_cookies :: bool
  cf_tos :: tos_config
  cf_provider :: provider_config
  cf_audit :: log_config
  cf_log_level :: int
  cf_branding_dir :: string
  cf_brand :: brand_config

subsection \<open>Parsers\<close>

definition default_max_upload_size :: int where "default_max_upload_size = 100 * 2 ^ 20"

definition parse_max_upload_size :: "string \<Rightarrow> go_error + int" where
  "parse_max_upload_size raw =
     (if raw = [] then Inr default_max_upload_size
      else case parse_int ''ParseInt'' raw of
          Inl e \<Rightarrow> Inl (Wrap ''MAX_UPLOAD_SIZE must be an integer number of bytes: '' e [])
        | Inr n \<Rightarrow> if n \<le> 0 then Inl (Plain (''MAX_UPLOAD_SIZE must be positive, got '' @ itoa n)) else Inr n)"

text \<open>\<open>time.Duration.String\<close>.\<close>

definition frac_digits :: "nat \<Rightarrow> nat \<Rightarrow> string" where
  "frac_digits prec n =
     (let ds = rev (dropWhile (\<lambda>c. c = CHR ''0'') (rev (fixed_digits prec n))) in if ds = [] then [] else CHR ''.'' # ds)"

definition duration_text :: "duration \<Rightarrow> string" where
  "duration_text d =
     (let u = nat \<bar>d\<bar>; part = (\<lambda>prec. show_nat (u div 10 ^ prec) @ frac_digits prec (u mod 10 ^ prec)); s = u div 10 ^ 9;
          frac = frac_digits 9 (u mod 10 ^ 9)
      in (if d < 0 then ''-'' else []) @
         (if u = 0 then ''0s''
          else if u < 10 ^ 3 then show_nat u @ ''ns''
          else if u < 10 ^ 6 then part 3 @ map char_of [0xC2, 0xB5, 0x73 :: nat]
          else if u < 10 ^ 9 then part 6 @ ''ms''
          else if s < 60 then show_nat s @ frac @ ''s''
          else if s < 3600 then show_nat (s div 60) @ ''m'' @ show_nat (s mod 60) @ frac @ ''s''
          else show_nat (s div 3600) @ ''h'' @ show_nat (s div 60 mod 60) @ ''m'' @ show_nat (s mod 60) @ frac @ ''s''))"

definition parse_provider_timeout :: "string \<Rightarrow> go_error + duration" where
  "parse_provider_timeout raw =
     (if raw = [] then Inr (30 * minute)
      else case parse_duration raw of
          Inl e \<Rightarrow> Inl (Wrap ''PROVIDER_TIMEOUT must be a valid Go duration: '' e [])
        | Inr d \<Rightarrow> if d \<le> 0 then Inl (Plain (''PROVIDER_TIMEOUT must be positive, got '' @ duration_text d)) else Inr d)"

definition zero_tos_config :: tos_config where
  "zero_tos_config = \<lparr> tc_enabled = False, tc_path = [], tc_version = [] \<rparr>"

definition load_tos :: "environ \<Rightarrow> go_error + tos_config" where
  "load_tos env =
     (let raw = env ''TOS_ENABLED''
      in if raw = [] then Inr zero_tos_config
         else case parse_bool raw of
             Inl e \<Rightarrow> Inl (Wrap ''TOS_ENABLED must be a boolean: '' e [])
           | Inr enabled \<Rightarrow>
               if \<not> enabled then Inr zero_tos_config
               else (let path = env ''TOS_PATH''
                     in if path = [] then Inl (Plain ''TOS_ENABLED is true but TOS_PATH is not set'')
                        else Inr \<lparr> tc_enabled = True, tc_path = path, tc_version = env ''TOS_VERSION'' \<rparr>))"

definition is_hex_byte :: "char \<Rightarrow> bool" where
  "is_hex_byte c \<longleftrightarrow> byte_in 48 57 c \<or> byte_in 97 102 c \<or> byte_in 65 70 c"

definition is_hex_color :: "string \<Rightarrow> bool" where
  "is_hex_color s =
     (if s = [] \<or> hd s \<noteq> CHR ''#'' \<or> length s - 1 \<notin> {3, 4, 6, 8} then False
      else list_all is_hex_byte (drop 1 s))"

definition load_brand :: "environ \<Rightarrow> go_error + brand_config" where
  "load_brand env =
     (let theme = env ''BRAND_DEFAULT_THEME''; accent = env ''BRAND_ACCENT_COLOR''
      in if theme \<noteq> [] \<and> theme \<noteq> ''light'' \<and> theme \<noteq> ''dark''
         then Inl (Plain (''BRAND_DEFAULT_THEME must be light or dark, got '' @ quoted theme))
         else if accent \<noteq> [] \<and> \<not> is_hex_color accent
         then Inl (Plain (''BRAND_ACCENT_COLOR must be a hex colour like #2563eb, got '' @ quoted accent))
         else Inr \<lparr> bc_name = env ''BRAND_NAME'', bc_sub = env ''BRAND_SUB'', bc_accent_color = accent, bc_default_theme = theme \<rparr>)"

text \<open>The first of the four variants that decodes the text.\<close>

fun first_decoding :: "b64_encoding list \<Rightarrow> string \<Rightarrow> string option" where
  "first_decoding [] raw = None"
| "first_decoding (e # es) raw = (case b64_decode e raw of Some key \<Rightarrow> Some key | None \<Rightarrow> first_decoding es raw)"

definition key_encodings :: "b64_encoding list" where
  "key_encodings = [StdEncoding, URLEncoding, RawStdEncoding, RawURLEncoding]"

definition decode_session_key :: "string \<Rightarrow> go_error + string" where
  "decode_session_key raw =
     (if raw = [] then Inl (Plain ''missing required environment variable SESSION_KEY'')
      else case first_decoding key_encodings raw of
          None \<Rightarrow> Inl (Wrap ''SESSION_KEY must be valid base64: '' (Plain ''illegal base64 data'') [])
        | Some key \<Rightarrow>
            if length key < 32
            then Inl (Plain (''SESSION_KEY must decode to at least 32 bytes, got '' @ itoa (int (length key))))
            else Inr key)"

definition parse_session_absolute_ttl :: "string \<Rightarrow> go_error + duration" where
  "parse_session_absolute_ttl raw =
     (if raw = [] then Inr (12 * hour)
      else case parse_duration raw of
          Inl e \<Rightarrow> Inl (Wrap ''SESSION_ABSOLUTE_TTL must be a valid Go duration: '' e [])
        | Inr d \<Rightarrow> if d \<le> 0 then Inl (Plain (''SESSION_ABSOLUTE_TTL must be positive, got '' @ duration_text d)) else Inr d)"

definition parse_session_idle_ttl :: "string \<Rightarrow> go_error + duration" where
  "parse_session_idle_ttl raw =
     (if raw = [] then Inr 0
      else case parse_duration raw of
          Inl e \<Rightarrow> Inl (Wrap ''SESSION_IDLE_TTL must be a valid Go duration: '' e [])
        | Inr d \<Rightarrow> if d < 0 then Inl (Plain (''SESSION_IDLE_TTL must not be negative, got '' @ duration_text d)) else Inr d)"

definition parse_bool_default :: "environ \<Rightarrow> string \<Rightarrow> bool \<Rightarrow> go_error + bool" where
  "parse_bool_default env key def =
     (let raw = env key
      in if raw = [] then Inr def
         else case parse_bool raw of
             Inl e \<Rightarrow> Inl (Wrap (key @ '' must be a boolean: '') e [])
           | Inr v \<Rightarrow> Inr v)"

definition parse_log_level :: "string \<Rightarrow> go_error + int" where
  "parse_log_level raw =
     (if raw = [] then Inr level_info
      else case unmarshal_level raw of
          Inl e \<Rightarrow> Inl (Wrap ''LOG_LEVEL must be one of debug, info, warn, error: '' e [])
        | Inr l \<Rightarrow> Inr l)"

definition parse_csv :: "string \<Rightarrow> string list" where
  "parse_csv raw = filter (\<lambda>v. v \<noteq> []) (map trim_space (split_on CHR '','' raw))"

definition getenv :: "environ \<Rightarrow> string \<Rightarrow> string \<Rightarrow> string" where
  "getenv env key fallback = (if env key \<noteq> [] then env key else fallback)"

subsection \<open>Load\<close>

definition required_names :: "string list" where
  "required_names = [''OIDC_ISSUER'', ''OIDC_CLIENT_ID'', ''OIDC_CLIENT_SECRET'', ''OIDC_REDIRECT_URI'', ''PROVIDER_TYPE'',
     ''PROVIDER_BASE_URL'', ''PROVIDER_JWT_PRIVATE_KEY'']"

fun check_required :: "environ \<Rightarrow> string list \<Rightarrow> go_error + unit" where
  "check_required env [] = Inr ()"
| "check_required env (n # ns) =
     (if env n = [] then Inl (Plain (''missing required environment variable '' @ n)) else check_required env ns)"

definition redirect_scheme :: "string \<Rightarrow> go_error + string" where
  "redirect_scheme uri =
     (let bad = Inl (Plain (''OIDC_REDIRECT_URI must be an absolute URL: '' @ quoted uri))
      in case url_parse uri of None \<Rightarrow> bad | Some u \<Rightarrow> if is_abs u then Inr (u_scheme u) else bad)"

definition check_idle :: "duration \<Rightarrow> duration \<Rightarrow> go_error + unit" where
  "check_idle idle absolute =
     (if absolute < idle
      then Inl (Plain (''SESSION_IDLE_TTL ('' @ duration_text idle @ '') must not exceed SESSION_ABSOLUTE_TTL ('' @ duration_text absolute @ '')''))
      else Inr ())"

definition load :: "environ \<Rightarrow> go_error + config" where
  "load env =
     bindr (check_required env required_names) (\<lambda>_.
     bindr (redirect_scheme (env ''OIDC_REDIRECT_URI'')) (\<lambda>scheme.
     bindr (parse_bool_default env ''OIDC_REQUIRE_EMAIL_VERIFIED'' True) (\<lambda>verified.
     bindr (decode_session_key (env ''SESSION_KEY'')) (\<lambda>key.
     bindr (parse_session_absolute_ttl (env ''SESSION_ABSOLUTE_TTL'')) (\<lambda>absolute.
     bindr (parse_session_idle_ttl (env ''SESSION_IDLE_TTL'')) (\<lambda>idle.
     bindr (check_idle idle absolute) (\<lambda>_.
     bindr (load_tos env) (\<lambda>tos.
     bindr (parse_max_upload_size (env ''MAX_UPLOAD_SIZE'')) (\<lambda>max_upload.
     bindr (parse_provider_timeout (env ''PROVIDER_TIMEOUT'')) (\<lambda>timeout.
     bindr (parse_bool_default env ''AUDIT_PSEUDONYMIZE'' True) (\<lambda>pseudonymize.
     bindr (parse_log_level (env ''LOG_LEVEL'')) (\<lambda>level.
     bindr (load_brand env) (\<lambda>brand.
       Inr \<lparr> cf_addr = getenv env ''ATRIUM_ADDR'' '':8080'',
             cf_oidc = \<lparr> oc_issuer = env ''OIDC_ISSUER'', oc_client_id = env ''OIDC_CLIENT_ID'',
               oc_client_secret = env ''OIDC_CLIENT_SECRET'', oc_redirect_uri = env ''OIDC_REDIRECT_URI'',
               oc_require_email_verified = verified, oc_mfa_acr_values = parse_csv (env ''OIDC_MFA_ACR_VALUES'') \<rparr>,
             cf_session_key = key, cf_absolute_ttl = absolute, cf_idle_ttl = idle,
             cf_secure_cookies = (scheme = ''https''), cf_tos = tos,
             cf_provider = \<lparr> pv_type = env ''PROVIDER_TYPE'', pv_base_url = env ''PROVIDER_BASE_URL'',
               pv_private_key_pem = env ''PROVIDER_JWT_PRIVATE_KEY'', pv_max_upload_size = max_upload, pv_stream_timeout = timeout \<rparr>,
             cf_audit = \<lparr> lc_pseudonymize = pseudonymize, lc_salt = env ''AUDIT_SALT'' \<rparr>,
             cf_log_level = level, cf_branding_dir = env ''BRANDING_DIR'', cf_brand = brand \<rparr>)))))))))))))"

subsection \<open>What a loaded configuration guarantees\<close>

definition hex_color_or_empty :: "string \<Rightarrow> bool" where
  "hex_color_or_empty s \<longleftrightarrow> s = [] \<or> (\<exists>ds. s = CHR ''#'' # ds \<and> length ds \<in> {3, 4, 6, 8} \<and> (\<forall>c \<in> set ds. is_hex_byte c))"

definition provider_config_ok :: "provider_config \<Rightarrow> bool" where
  "provider_config_ok p \<longleftrightarrow> pv_type p \<noteq> [] \<and> pv_base_url p \<noteq> [] \<and> pv_private_key_pem p \<noteq> []
     \<and> 0 < pv_max_upload_size p \<and> pv_max_upload_size p \<le> max_int64
     \<and> 0 < pv_stream_timeout p \<and> pv_stream_timeout p \<le> max_int64"

definition oidc_config_ok :: "oidc_config \<Rightarrow> bool" where
  "oidc_config_ok o1 \<longleftrightarrow> oc_issuer o1 \<noteq> [] \<and> oc_client_id o1 \<noteq> [] \<and> oc_client_secret o1 \<noteq> []
     \<and> [] \<notin> set (oc_mfa_acr_values o1) \<and> (\<forall>v \<in> set (oc_mfa_acr_values o1). CHR '','' \<notin> set v)"

definition config_ok :: "config \<Rightarrow> bool" where
  "config_ok cfg \<longleftrightarrow> cf_addr cfg \<noteq> [] \<and> oidc_config_ok (cf_oidc cfg)
     \<and> (\<exists>u. url_parse (oc_redirect_uri (cf_oidc cfg)) = Some u \<and> is_abs u \<and> cf_secure_cookies cfg = (u_scheme u = ''https''))
     \<and> 32 \<le> length (cf_session_key cfg)
     \<and> 0 < cf_absolute_ttl cfg \<and> cf_absolute_ttl cfg \<le> max_int64
     \<and> 0 \<le> cf_idle_ttl cfg \<and> cf_idle_ttl cfg \<le> cf_absolute_ttl cfg
     \<and> (tc_enabled (cf_tos cfg) \<longrightarrow> tc_path (cf_tos cfg) \<noteq> [])
     \<and> provider_config_ok (cf_provider cfg) \<and> in_int64 (cf_log_level cfg)
     \<and> hex_color_or_empty (bc_accent_color (cf_brand cfg)) \<and> bc_default_theme (cf_brand cfg) \<in> {[], ''light'', ''dark''}"

lemma duration_literals: "in_int64 (30 * minute)" "in_int64 (12 * hour)" "in_int64 0" "0 < 30 * minute" "0 < 12 * hour"
  by (simp_all add: duration_units in_int64_def min_int64_def max_int64_def)

lemma parse_max_upload_size_ok: "parse_max_upload_size raw = Inr n \<Longrightarrow> 0 < n \<and> n \<le> max_int64"
  using parse_int_range [of "''ParseInt''" raw n]
  by (auto simp: parse_max_upload_size_def default_max_upload_size_def max_int64_def in_int64_def split: if_splits sum.splits)

lemma parse_provider_timeout_ok: "parse_provider_timeout raw = Inr d \<Longrightarrow> 0 < d \<and> d \<le> max_int64"
  using parse_duration_range [of raw d] duration_literals
  by (auto simp: parse_provider_timeout_def in_int64_def split: if_splits sum.splits)

lemma parse_session_absolute_ttl_ok: "parse_session_absolute_ttl raw = Inr d \<Longrightarrow> 0 < d \<and> d \<le> max_int64"
  using parse_duration_range [of raw d] duration_literals
  by (auto simp: parse_session_absolute_ttl_def in_int64_def split: if_splits sum.splits)

lemma parse_session_idle_ttl_ok: "parse_session_idle_ttl raw = Inr d \<Longrightarrow> 0 \<le> d"
  by (auto simp: parse_session_idle_ttl_def split: if_splits sum.splits)

lemma load_tos_ok: "load_tos env = Inr t \<Longrightarrow> tc_enabled t \<longrightarrow> tc_path t \<noteq> []"
  by (auto simp: load_tos_def Let_def zero_tos_config_def split: if_splits sum.splits)

lemma is_hex_color_ok: "is_hex_color s \<Longrightarrow> hex_color_or_empty s"
  by (cases s) (auto simp: is_hex_color_def hex_color_or_empty_def list_all_iff split: if_splits)

lemma load_brand_ok:
  "load_brand env = Inr b \<Longrightarrow> hex_color_or_empty (bc_accent_color b) \<and> bc_default_theme b \<in> {[], ''light'', ''dark''}"
  using is_hex_color_ok [of "env ''BRAND_ACCENT_COLOR''"] hex_color_or_empty_def [of "[]"]
  by (auto simp: load_brand_def Let_def split: if_splits)

lemma decode_session_key_ok: "decode_session_key raw = Inr key \<Longrightarrow> 32 \<le> length key"
  by (auto simp: decode_session_key_def split: if_splits option.splits)

lemma level_literals:
  "in_int64 level_info" by (simp add: level_info_def in_int64_def min_int64_def max_int64_def)

lemma parse_log_level_ok: "parse_log_level raw = Inr l \<Longrightarrow> in_int64 l"
  using wrap64_in level_literals
  by (auto simp: parse_log_level_def unmarshal_level_def Let_def split: if_splits sum.splits option.splits)

lemma redirect_scheme_ok: "redirect_scheme uri = Inr s \<Longrightarrow> \<exists>u. url_parse uri = Some u \<and> is_abs u \<and> u_scheme u = s"
  by (auto simp: redirect_scheme_def Let_def split: if_splits option.splits)

lemma check_required_ok: "check_required env ns = Inr u \<Longrightarrow> \<forall>n \<in> set ns. env n \<noteq> []"
  by (induction ns) (auto split: if_splits)

lemma check_idle_ok: "check_idle i a = Inr u \<Longrightarrow> i \<le> a"
  by (simp add: check_idle_def split: if_splits)

lemma parse_csv_ok: "v \<in> set (parse_csv raw) \<Longrightarrow> v \<noteq> [] \<and> CHR '','' \<notin> set v"
  using trim_space_subset split_on_no_sep by (fastforce simp: parse_csv_def)

lemma load_parts:
  assumes "load env = Inr cfg"
  shows "check_required env required_names = Inr ()"
    "decode_session_key (env ''SESSION_KEY'') = Inr (cf_session_key cfg)"
    "parse_session_absolute_ttl (env ''SESSION_ABSOLUTE_TTL'') = Inr (cf_absolute_ttl cfg)"
    "parse_session_idle_ttl (env ''SESSION_IDLE_TTL'') = Inr (cf_idle_ttl cfg)"
    "check_idle (cf_idle_ttl cfg) (cf_absolute_ttl cfg) = Inr ()"
    "load_tos env = Inr (cf_tos cfg)"
    "parse_max_upload_size (env ''MAX_UPLOAD_SIZE'') = Inr (pv_max_upload_size (cf_provider cfg))"
    "parse_provider_timeout (env ''PROVIDER_TIMEOUT'') = Inr (pv_stream_timeout (cf_provider cfg))"
    "parse_log_level (env ''LOG_LEVEL'') = Inr (cf_log_level cfg)"
    "load_brand env = Inr (cf_brand cfg)"
    "\<exists>s. redirect_scheme (env ''OIDC_REDIRECT_URI'') = Inr s \<and> cf_secure_cookies cfg = (s = ''https'')"
    "oc_issuer (cf_oidc cfg) = env ''OIDC_ISSUER''" "oc_client_id (cf_oidc cfg) = env ''OIDC_CLIENT_ID''"
    "oc_client_secret (cf_oidc cfg) = env ''OIDC_CLIENT_SECRET''" "oc_redirect_uri (cf_oidc cfg) = env ''OIDC_REDIRECT_URI''"
    "oc_mfa_acr_values (cf_oidc cfg) = parse_csv (env ''OIDC_MFA_ACR_VALUES'')"
    "cf_addr cfg = getenv env ''ATRIUM_ADDR'' '':8080''"
    "pv_type (cf_provider cfg) = env ''PROVIDER_TYPE''" "pv_base_url (cf_provider cfg) = env ''PROVIDER_BASE_URL''"
    "pv_private_key_pem (cf_provider cfg) = env ''PROVIDER_JWT_PRIVATE_KEY''"
    "cf_branding_dir cfg = env ''BRANDING_DIR''" "lc_salt (cf_audit cfg) = env ''AUDIT_SALT''"
  using assms unfolding load_def by (auto simp: bindr_eq_Inr)

lemma required_present:
  assumes "load env = Inr cfg" "n \<in> set required_names"
  shows "env n \<noteq> []"
  using check_required_ok [OF load_parts(1) [OF assms(1)]] assms(2) by blast

lemma load_ok:
  assumes "load env = Inr cfg"
  shows "config_ok cfg"
proof -
  note p = load_parts [OF assms]
  have r: "env ''OIDC_ISSUER'' \<noteq> []" "env ''OIDC_CLIENT_ID'' \<noteq> []" "env ''OIDC_CLIENT_SECRET'' \<noteq> []"
    "env ''PROVIDER_TYPE'' \<noteq> []" "env ''PROVIDER_BASE_URL'' \<noteq> []" "env ''PROVIDER_JWT_PRIVATE_KEY'' \<noteq> []"
    by (rule required_present [OF assms], simp add: required_names_def)+
  have "oidc_config_ok (cf_oidc cfg)"
    unfolding oidc_config_ok_def p(12-16) using r(1-3) parse_csv_ok by blast
  moreover have "provider_config_ok (cf_provider cfg)"
    unfolding provider_config_ok_def p(18-20)
    using r(4-6) parse_max_upload_size_ok [OF p(7)] parse_provider_timeout_ok [OF p(8)] by blast
  moreover have "\<exists>u. url_parse (oc_redirect_uri (cf_oidc cfg)) = Some u \<and> is_abs u \<and> cf_secure_cookies cfg = (u_scheme u = ''https'')"
    unfolding p(15) using p(11) redirect_scheme_ok by blast
  moreover have "cf_addr cfg \<noteq> []" unfolding p(17) by (simp add: getenv_def)
  moreover note load_tos_ok [OF p(6)] decode_session_key_ok [OF p(2)] parse_session_absolute_ttl_ok [OF p(3)]
    parse_session_idle_ttl_ok [OF p(4)] check_idle_ok [OF p(5)] parse_log_level_ok [OF p(9)] load_brand_ok [OF p(10)]
  ultimately show ?thesis unfolding config_ok_def by (intro conjI) (simp_all only: not_False_eq_True)
qed

text \<open>C19: The process starts only on a valid configuration.  Whatever the environment, a configuration
  that \<open>Load\<close> returns has an issuer, a client and a secret, an absolute redirect URI whose scheme decides
  the cookies' Secure attribute, a session key of at least 32 bytes, a positive session lifetime
  that the inactivity window does not exceed, a positive upload limit and transfer timeout within 64
  bits, a terms file when consent is on, and an accent colour that is a plain hexadecimal colour.\<close>

theorem loaded_config_is_valid:
  assumes "load env = Inr cfg"
  shows "config_ok cfg"
  using assms by (rule load_ok)

lemma check_required_first:
  "\<exists>n \<in> set ns. env n = [] \<Longrightarrow>
   check_required env ns = Inl (Plain (''missing required environment variable '' @ hd (dropWhile (\<lambda>n. env n \<noteq> []) ns)))"
proof (induction ns)
  case (Cons n ns)
  then show ?case by (cases "env n = []") simp_all
qed simp

text \<open>A missing setting is named.  When some required variable is unset or empty, \<open>Load\<close> fails with
  the error that names the first one, in the order the code lists them, before it reads any other
  setting.\<close>

theorem missing_setting_is_named:
  assumes "\<exists>n \<in> set required_names. env n = []"
  shows "load env = Inl (Plain (''missing required environment variable ''
    @ hd (dropWhile (\<lambda>n. env n \<noteq> []) required_names)))"
  unfolding load_def check_required_first [OF assms] by (rule bindr_simps)

lemma b64_val_agree: "b64_val u c = Some v \<Longrightarrow> b64_val u' c = Some w \<Longrightarrow> v = w"
  by (auto simp: b64_val_def split: if_splits)

lemma b64_quantum:
  assumes "b64_quanta e (a # b # c # d # s) = Some x"
  obtains v0 v1 where "b64_val (b64_url e) a = Some v0" "b64_val (b64_url e) b = Some v1"
    "(\<exists>v2 v3 t. b64_val (b64_url e) c = Some v2 \<and> b64_val (b64_url e) d = Some v3 \<and> b64_quanta e s = Some t
        \<and> x = [octet0 v0 v1, octet1 v1 v2, octet2 v2 v3] @ t)
     \<or> (\<exists>v2. b64_val (b64_url e) c = Some v2 \<and> d = CHR ''='' \<and> s = [] \<and> x = [octet0 v0 v1, octet1 v1 v2])
     \<or> c = CHR ''='' \<and> d = CHR ''='' \<and> s = [] \<and> x = [octet0 v0 v1]"
proof -
  have v: "b64_val (b64_url e) a \<noteq> None" "b64_val (b64_url e) b \<noteq> None"
    using assms by (auto split: option.splits)
  then obtain v0 v1 where v01: "b64_val (b64_url e) a = Some v0" "b64_val (b64_url e) b = Some v1" by blast
  show ?thesis
    by (rule that [OF v01]) (use assms v01 in \<open>auto split: option.splits if_splits\<close>)
qed

lemma b64_quanta_agree: "b64_quanta e s = Some x \<Longrightarrow> b64_quanta e' s = Some y \<Longrightarrow> x = y"
proof (induction e s arbitrary: x y rule: b64_quanta.induct)
  case (5 e a b c d s)
  obtain v0 v1 where v: "b64_val (b64_url e) a = Some v0" "b64_val (b64_url e) b = Some v1"
    and x: "(\<exists>v2 v3 t. b64_val (b64_url e) c = Some v2 \<and> b64_val (b64_url e) d = Some v3 \<and> b64_quanta e s = Some t
        \<and> x = [octet0 v0 v1, octet1 v1 v2, octet2 v2 v3] @ t)
     \<or> (\<exists>v2. b64_val (b64_url e) c = Some v2 \<and> d = CHR ''='' \<and> s = [] \<and> x = [octet0 v0 v1, octet1 v1 v2])
     \<or> c = CHR ''='' \<and> d = CHR ''='' \<and> s = [] \<and> x = [octet0 v0 v1]" (is "?X0 \<or> ?X1 \<or> ?X2")
    using "5.prems"(1) by (rule b64_quantum)
  obtain w0 w1 where w: "b64_val (b64_url e') a = Some w0" "b64_val (b64_url e') b = Some w1"
    and y: "(\<exists>v2 v3 t. b64_val (b64_url e') c = Some v2 \<and> b64_val (b64_url e') d = Some v3 \<and> b64_quanta e' s = Some t
        \<and> y = [octet0 w0 w1, octet1 w1 v2, octet2 v2 v3] @ t)
     \<or> (\<exists>v2. b64_val (b64_url e') c = Some v2 \<and> d = CHR ''='' \<and> s = [] \<and> y = [octet0 w0 w1, octet1 w1 v2])
     \<or> c = CHR ''='' \<and> d = CHR ''='' \<and> s = [] \<and> y = [octet0 w0 w1]"
    using "5.prems"(2) by (rule b64_quantum)
  have eq: "v0 = w0" "v1 = w1" using v w b64_val_agree by blast+
  from x show ?case
  proof (elim disjE)
    assume ?X0
    then obtain v2 v3 t where X: "b64_val (b64_url e) c = Some v2" "b64_val (b64_url e) d = Some v3"
      "b64_quanta e s = Some t" "x = [octet0 v0 v1, octet1 v1 v2, octet2 v2 v3] @ t" by blast
    from X(1,2) y obtain w2 w3 u where "b64_val (b64_url e') c = Some w2" "b64_val (b64_url e') d = Some w3"
      "b64_quanta e' s = Some u" "y = [octet0 w0 w1, octet1 w1 w2, octet2 w2 w3] @ u" by fastforce
    with X "5.IH" [OF refl v X(1,2,3)] b64_val_agree show ?thesis unfolding eq by metis
  next
    assume ?X1
    with y show ?thesis unfolding eq using b64_val_agree by fastforce
  next
    assume ?X2
    with y show ?thesis unfolding eq by fastforce
  qed
next
  case (3 e a b)
  then show ?case by (auto split: if_splits option.splits) (metis b64_val_agree)
next
  case (4 e a b c)
  then show ?case by (auto split: if_splits option.splits) (metis b64_val_agree)+
qed simp_all

lemma first_decoding_agree:
  "b64_decode e raw = Some key \<Longrightarrow> e \<in> set es \<Longrightarrow> first_decoding es raw = Some key"
proof (induction es)
  case (Cons e1 es)
  then show ?case using b64_quanta_agree [of e1 _ _ e key] by (auto simp: b64_decode_def split: option.splits)
qed simp

lemma decode_encoded_key:
  "decode_session_key (b64_encode e key) =
     (if key = [] then Inl (Plain ''missing required environment variable SESSION_KEY'')
      else if length key < 32 then Inl (Plain (''SESSION_KEY must decode to at least 32 bytes, got '' @ itoa (int (length key))))
      else Inr key)"
proof -
  have "e \<in> set key_encodings" by (cases e) (simp_all add: key_encodings_def)
  then have f: "first_decoding key_encodings (b64_encode e key) = Some key" by (rule first_decoding_agree [OF b64_decode_encode])
  have nil: "b64_encode e [] = []" by (simp add: b64_encode_def b64_padding_def)
  have "b64_encode e key = [] \<longleftrightarrow> key = []" using b64_encode_inject [of e key "[]"] unfolding nil .
  then show ?thesis by (simp add: decode_session_key_def f)
qed

text \<open>The session key may be written in any of the four base64 variants.  The text of a key of at
  least 32 bytes, in whichever variant, is decoded to that key although the code tries the
  variants in a fixed order; the text of a shorter key is refused, with its length in the error.\<close>

theorem session_key_text_roundtrip:
  "decode_session_key (b64_encode e key) =
     (if key = [] then Inl (Plain ''missing required environment variable SESSION_KEY'')
      else if length key < 32 then Inl (Plain (''SESSION_KEY must decode to at least 32 bytes, got '' @ itoa (int (length key))))
      else Inr key)"
  by (rule decode_encoded_key)

subsection \<open>Examples\<close>

definition sample_environ :: environ where
  "sample_environ name = (case map_of
     [(''OIDC_ISSUER'', ''https://idp.example''), (''OIDC_CLIENT_ID'', ''atrium''), (''OIDC_CLIENT_SECRET'', ''secret''),
      (''OIDC_REDIRECT_URI'', ''https://gw.example/auth/callback''), (''PROVIDER_TYPE'', ''nextcloud''),
      (''PROVIDER_BASE_URL'', ''https://cloud.example''), (''PROVIDER_JWT_PRIVATE_KEY'', ''pem''),
      (''SESSION_KEY'', b64_encode StdEncoding (oa_session_key sample_auth)), (''SESSION_ABSOLUTE_TTL'', ''8h''),
      (''SESSION_IDLE_TTL'', ''15m''), (''MAX_UPLOAD_SIZE'', ''100''), (''BRAND_ACCENT_COLOR'', ''#2563eb'')] name
   of Some v \<Rightarrow> v | None \<Rightarrow> [])"

definition sample_config :: config where
  "sample_config =
     \<lparr> cf_addr = '':8080'',
       cf_oidc = \<lparr> oc_issuer = ''https://idp.example'', oc_client_id = ''atrium'', oc_client_secret = ''secret'',
         oc_redirect_uri = ''https://gw.example/auth/callback'', oc_require_email_verified = True, oc_mfa_acr_values = [] \<rparr>,
       cf_session_key = oa_session_key sample_auth, cf_absolute_ttl = 8 * hour, cf_idle_ttl = 15 * minute,
       cf_secure_cookies = True, cf_tos = zero_tos_config,
       cf_provider = \<lparr> pv_type = ''nextcloud'', pv_base_url = ''https://cloud.example'', pv_private_key_pem = ''pem'',
         pv_max_upload_size = 100, pv_stream_timeout = 30 * minute \<rparr>,
       cf_audit = \<lparr> lc_pseudonymize = True, lc_salt = [] \<rparr>, cf_log_level = level_info, cf_branding_dir = [],
       cf_brand = \<lparr> bc_name = [], bc_sub = [], bc_accent_color = ''#2563eb'', bc_default_theme = [] \<rparr> \<rparr>"

lemma sample_durations: "duration_sum 0 ''8h'' = Some (8 * hour)" "duration_sum 0 ''15m'' = Some (15 * minute)"
  by (simp_all add: duration_sum.simps duration_item_def unit_byte_def is_digit_def byte_in_def fraction_part_def digit_val_def
      unit_map_def duration_units)

lemma sample_key: "decode_session_key (b64_encode StdEncoding (oa_session_key sample_auth)) = Inr (oa_session_key sample_auth)"
  by (subst decode_encoded_key) (simp add: sample_auth_def)

lemma sample_redirect: "redirect_scheme ''https://gw.example/auth/callback'' = Inr ''https''"
  by code_simp

lemma trim_space_Nil [simp]: "trim_space [] = []"
proof -
  have "strip_any ps [] = None" for ps by (induction ps) (auto simp: has_prefix_iff)
  then show ?thesis by (simp add: trim_space_def trim_left_any.simps)
qed

lemma sample_csv: "parse_csv [] = []"
  by (simp add: parse_csv_def)

lemma sample_limits:
  "parse_session_absolute_ttl ''8h'' = Inr (8 * hour)" "parse_session_idle_ttl ''15m'' = Inr (15 * minute)"
  "parse_max_upload_size ''100'' = Inr 100" "check_idle (15 * minute) (8 * hour) = Inr ()"
  using sample_durations
  by (simp_all add: parse_session_absolute_ttl_def parse_session_idle_ttl_def parse_max_upload_size_def parse_duration_def
      check_idle_def duration_units max_int64_def parse_int_def is_digit_def byte_in_def digit_val_def)

lemma sample_load: "load sample_environ = Inr sample_config"
  by (simp add: load_def required_names_def sample_environ_def sample_limits sample_redirect sample_csv sample_key
      parse_bool_default_def load_tos_def parse_provider_timeout_def parse_log_level_def load_brand_def is_hex_color_def
      is_hex_byte_def byte_in_def getenv_def sample_config_def)

lemma loaded_config_is_valid_witness: "config_ok sample_config"
  by (rule loaded_config_is_valid [OF sample_load])

lemma missing_setting_is_named_witness:
  "load (\<lambda>n. if n = ''OIDC_ISSUER'' then ''https://idp.example'' else [])
    = Inl (Plain ''missing required environment variable OIDC_CLIENT_ID'')"
proof -
  let ?env = "\<lambda>n. if n = ''OIDC_ISSUER'' then ''https://idp.example'' else []"
  have "\<exists>n \<in> set required_names. ?env n = []" by (simp add: required_names_def)
  from missing_setting_is_named [OF this] show ?thesis by (simp add: required_names_def)
qed

end
