(* ===== verification/Terms.thy ===== *)
theory Terms
  imports Middleware
begin

section \<open>The consent gate (\<open>internal/tos\<close>)\<close>

text \<open>
  The terms-of-service manager, its acceptance cookie, the gate \<open>RequireTOS\<close> and the two
  consent handlers.  A nil \<open>*Manager\<close>, the disabled feature, is \<open>None\<close>.  The acceptance
  cookie reuses the sealed codec of the session cookie, under the same key; the last
  properties show that neither token passes for the other.
\<close>

subsection \<open>State\<close>

record tos_manager =
  tm_content :: string
  tm_content_hash :: string
  tm_version :: string
  tm_signing_key :: string
  tm_secure_cookies :: bool

definition acceptance_cookie_name :: string where "acceptance_cookie_name = ''tos_accepted''"
definition version_hash_len :: nat where "version_hash_len = 12"
definition tos_content_path :: string where "tos_content_path = ''/api/tos''"
definition tos_accept_path :: string where "tos_accept_path = ''/api/tos/accept''"
definition acceptance_ttl :: duration where "acceptance_ttl = 365 * 24 * hour"

text \<open>\<open>read_file\<close> is the file system.\<close>

definition new_manager ::
  "(string \<Rightarrow> go_error + string) \<Rightarrow> string \<Rightarrow> string \<Rightarrow> string \<Rightarrow> bool \<Rightarrow> go_error + tos_manager" where
  "new_manager read_file path explicit_version signing_key secure_cookies =
     (case read_file path of
        Inl e \<Rightarrow> Inl (Wrap (''read tos file '' @ quoted path @ '': '') e [])
      | Inr content \<Rightarrow>
          (let hash = hex_encode (sha256 content);
               version = (if explicit_version = [] then take version_hash_len hash else explicit_version)
           in Inr \<lparr> tm_content = content, tm_content_hash = hash, tm_version = version,
                    tm_signing_key = signing_key, tm_secure_cookies = secure_cookies \<rparr>))"

definition tos_enabled :: "tos_manager option \<Rightarrow> bool" where
  "tos_enabled m \<longleftrightarrow> m \<noteq> None"

definition tos_version :: "tos_manager \<Rightarrow> string" where
  "tos_version m = tm_version m"

subsection \<open>The acceptance cookie\<close>

record tos_cookie_data =
  td_email_hash :: string
  td_tos_hash :: string
  td_accepted_at :: instant

definition empty_tos_data :: tos_cookie_data where
  "empty_tos_data = \<lparr> td_email_hash = [], td_tos_hash = [], td_accepted_at = zero_time \<rparr>"

definition tos_json :: "tos_cookie_data \<Rightarrow> json option" where
  "tos_json d = map_option
     (\<lambda>at. jobject [(''eh'', jstring (td_email_hash d)), (''th'', jstring (td_tos_hash d)), (''at'', at)])
     (json_time 0 (td_accepted_at d))"

definition tos_fields :: "tos_cookie_data field list" where
  "tos_fields =
     [(''eh'', dec_string (\<lambda>x d. d\<lparr> td_email_hash := x \<rparr>)),
      (''th'', dec_string (\<lambda>x d. d\<lparr> td_tos_hash := x \<rparr>)),
      (''at'', dec_time (\<lambda>x d. d\<lparr> td_accepted_at := x \<rparr>))]"

definition marshal_tos :: "unit \<Rightarrow> tos_cookie_data \<Rightarrow> string option" where
  "marshal_tos _ d = map_option print_json (tos_json d)"

definition unmarshal_tos :: "string \<Rightarrow> tos_cookie_data option" where
  "unmarshal_tos payload = unmarshal tos_fields payload empty_tos_data"

definition tos_hash_email :: "unicode_ops \<Rightarrow> string \<Rightarrow> string" where
  "tos_hash_email un email = hex_encode (sha256 (canonical un email))"

definition sign_tos_cookie :: "tos_manager \<Rightarrow> tos_cookie_data \<Rightarrow> go_error + string" where
  "sign_tos_cookie m d = (case marshal_tos () d of
      None \<Rightarrow> Inl (Plain ''json: error calling MarshalJSON for type time.Time'')
    | Some payload \<Rightarrow> Inr (seal (tm_signing_key m) payload))"

definition verify_tos_cookie :: "tos_manager \<Rightarrow> string \<Rightarrow> go_error + tos_cookie_data" where
  "verify_tos_cookie m token = (case open_token (tm_signing_key m) token of
      Inl e \<Rightarrow> Inl e
    | Inr payload \<Rightarrow> of_option (Plain ''json'') (unmarshal_tos payload))"

definition check_acceptance :: "unicode_ops \<Rightarrow> tos_manager \<Rightarrow> 'a request_scheme \<Rightarrow> string \<Rightarrow> bool" where
  "check_acceptance un m r email = (case request_cookie r acceptance_cookie_name of
      None \<Rightarrow> False
    | Some v \<Rightarrow> (case verify_tos_cookie m v of
          Inl e \<Rightarrow> False
        | Inr d \<Rightarrow> td_email_hash d = tos_hash_email un email \<and> td_tos_hash d = tm_content_hash m))"

definition set_acceptance_cookie ::
  "unicode_ops \<Rightarrow> tos_manager \<Rightarrow> string \<Rightarrow> instant \<Rightarrow> writer \<Rightarrow> go_error + writer" where
  "set_acceptance_cookie un m email now w =
     bindr (sign_tos_cookie m \<lparr> td_email_hash = tos_hash_email un email, td_tos_hash = tm_content_hash m,
              td_accepted_at = now \<rparr>) (\<lambda>token.
       Inr (set_cookie \<lparr> ck_name = acceptance_cookie_name, ck_value = token, ck_path = ''/'',
              ck_max_age = int_seconds acceptance_ttl, ck_http_only = True,
              ck_secure = tm_secure_cookies m, ck_same_site = SameSiteLax \<rparr> w))"

subsection \<open>Handlers\<close>

definition write_json :: "nat \<Rightarrow> json \<Rightarrow> writer \<Rightarrow> writer" where
  "write_json status v w =
     encode_json v (write_header status (w_set ''Content-Type'' json_content_type w))"

definition require_tos :: "unicode_ops \<Rightarrow> tos_manager option \<Rightarrow> handler \<Rightarrow> handler" where
  "require_tos un mo next = (case mo of
      None \<Rightarrow> next
    | Some m \<Rightarrow> (\<lambda>r w. case session_from_context r of
          None \<Rightarrow> http_error ''internal server error'' 500 w
        | Some s \<Rightarrow>
            if \<not> check_acceptance un m r (se_email s)
            then write_json 403 (jobject [(''error'', jstring ''tos_required'')]) w
            else next r w))"

text \<open>A JSON map is written with its keys in order.\<close>

definition content_handler :: "tos_manager \<Rightarrow> handler" where
  "content_handler m r w =
     write_json 200 (jobject [(''content'', jstring (tm_content m)), (''version'', jstring (tm_version m))]) w"

definition accept_handler :: "environment \<Rightarrow> unicode_ops \<Rightarrow> tos_manager \<Rightarrow> handler" where
  "accept_handler env un m r w = (case session_from_context r of
      None \<Rightarrow> http_error ''internal server error'' 500 w
    | Some s \<Rightarrow>
        (let w1 = audit_log r level_audit event_accept_tos
               [attr_str ''email'' (se_email s), attr_str ''tos_version'' (tm_version m)] w
         in case set_acceptance_cookie un m (se_email s) (en_clock env 6) w1 of
              Inl e \<Rightarrow> http_error ''internal server error'' 500
                        (log_plain level_error ''set tos cookie'' [attr_err e] w1)
            | Inr w2 \<Rightarrow> write_header 204 w2))"

subsection \<open>The codec\<close>

definition good_tos :: "tos_cookie_data \<Rightarrow> bool" where
  "good_tos d \<longleftrightarrow> valid_utf8 (td_email_hash d) \<and> valid_utf8 (td_tos_hash d)"

lemma tos_field_lookup:
  "find_field tos_fields ''eh'' = Some (dec_string (\<lambda>x d. d\<lparr> td_email_hash := x \<rparr>))"
  "find_field tos_fields ''th'' = Some (dec_string (\<lambda>x d. d\<lparr> td_tos_hash := x \<rparr>))"
  "find_field tos_fields ''at'' = Some (dec_time (\<lambda>x d. d\<lparr> td_accepted_at := x \<rparr>))"
  by (rule find_field_exact, simp add: tos_fields_def)+

lemma tos_keys_valid: "valid_utf8 ''eh''" "valid_utf8 ''th''" "valid_utf8 ''at''"
  by (rule json_safe_valid, simp add: json_safe_def)+

lemma tos_members_good:
  assumes "good_tos d" "json_time 0 (td_accepted_at d) = Some at"
  shows "\<forall>(k, v) \<in> set [(''eh'', jstring (td_email_hash d)), (''th'', jstring (td_tos_hash d)), (''at'', at)].
      valid_utf8 k \<and> good_json v \<and> json_depth v = 0"
  using assms(1) json_time_good [OF assms(2)] tos_keys_valid by (simp add: good_tos_def)

lemma unmarshal_marshal_tos:
  assumes "good_tos d" "marshal_tos u d = Some b"
  shows "unmarshal_tos b = Some d"
proof -
  obtain at where at: "json_time 0 (td_accepted_at d) = Some at"
    and b: "b = print_json (jobject [(''eh'', jstring (td_email_hash d)), (''th'', jstring (td_tos_hash d)), (''at'', at)])"
    using assms(2) by (auto simp: marshal_tos_def tos_json_def)
  show ?thesis
    unfolding unmarshal_tos_def b unmarshal_printed [OF tos_members_good [OF assms(1) at]]
    using assms(1)
    by (cases d) (simp add: tos_field_lookup good_tos_def empty_tos_data_def dec_time_json_time [OF at])
qed

interpretation tos_codec: sealed_codec seal open_token marshal_tos unmarshal_tos good_tos
  by unfold_locales (rule unmarshal_marshal_tos)

lemma hex_lower_safe: "list_all json_safe (hex_encode s)"
  using hex_encode_lower [of s]
  by (auto simp: list_all_iff json_safe_def is_hex_lower_def is_digit_def byte_in_def)

lemma tos_hash_email_valid: "valid_utf8 (tos_hash_email un e)"
  using hex_lower_safe by (simp add: tos_hash_email_def json_safe_valid)

lemma tos_hash_email_nonempty: "tos_hash_email un e \<noteq> []"
proof -
  have "length (tos_hash_email un e) = 64" by (simp add: tos_hash_email_def)
  then show ?thesis by force
qed

lemma verify_signed_tos:
  assumes "good_tos d" "sign_tos_cookie m d = Inr t"
  shows "verify_tos_cookie m t = Inr d"
proof -
  have "map_option (seal (tm_signing_key m)) (marshal_tos () d) = Some t"
    using assms(2) by (simp add: sign_tos_cookie_def split: option.splits)
  from tos_codec.open_encoded [OF assms(1) this] show ?thesis by (auto simp: verify_tos_cookie_def)
qed

lemma sign_tos_bytes: "sign_tos_cookie m d = Inr t \<Longrightarrow> filter cookie_value_byte t = t"
  using seal_bytes by (auto simp: sign_tos_cookie_def split: option.splits intro: filter_cookie_id)

subsection \<open>The two cookies under one key\<close>

lemma folded_keys:
  "fold_name ''email'' = ''EMAIL''" "fold_name ''iat'' = ''IAT''" "fold_name ''exp'' = ''EXP''"
  "fold_name ''seen'' = ''SEEN''" "fold_name ''idt'' = ''IDT''"
  "fold_name ''eh'' = ''EH''" "fold_name ''th'' = ''TH''" "fold_name ''at'' = ''AT''"
  by code_simp+

lemma folded_names:
  "map (\<lambda>f. fold_name (fst f)) session_fields = [''EMAIL'', ''IAT'', ''EXP'', ''SEEN'', ''IDT'']"
  "map (\<lambda>f. fold_name (fst f)) tos_fields = [''EH'', ''TH'', ''AT'']"
  by (simp_all add: session_fields_def tos_fields_def folded_keys del: fold_name.simps)

lemma foreign_fields:
  "find_field session_fields ''eh'' = None" "find_field session_fields ''th'' = None" "find_field session_fields ''at'' = None"
  "find_field tos_fields ''email'' = None" "find_field tos_fields ''iat'' = None" "find_field tos_fields ''exp'' = None"
  "find_field tos_fields ''seen'' = None" "find_field tos_fields ''idt'' = None"
  by (rule find_field_None; unfold folded_names folded_keys; simp)+

lemma acceptance_as_session:
  assumes "good_tos d" "marshal_tos u d = Some b"
  shows "unmarshal_session b = Some empty_session"
proof -
  obtain at where at: "json_time 0 (td_accepted_at d) = Some at"
    and b: "b = print_json (jobject [(''eh'', jstring (td_email_hash d)), (''th'', jstring (td_tos_hash d)), (''at'', at)])"
    using assms(2) by (auto simp: marshal_tos_def tos_json_def)
  show ?thesis
    unfolding unmarshal_session_def b unmarshal_printed [OF tos_members_good [OF assms(1) at]]
    by (simp add: foreign_fields)
qed

lemma session_as_acceptance:
  assumes "good_session d" "marshal_session zone d = Some b"
  shows "unmarshal_tos b = Some empty_tos_data"
  using assms
proof (rule marshal_session_cases)
  fix iat expiry seen
  let ?kvs = "session_members d iat expiry seen"
  assume b: "b = print_json (jobject ?kvs)" and g: "\<forall>(k, v) \<in> set ?kvs. valid_utf8 k \<and> good_json v \<and> json_depth v = 0"
  have "set (map fst kvs) \<subseteq> {''email'', ''iat'', ''exp'', ''seen'', ''idt''} \<Longrightarrow> decode_plain tos_fields kvs s = Some s" for kvs s
    by (induction kvs) (auto simp: foreign_fields)
  from this [OF session_member_names] show ?thesis unfolding unmarshal_tos_def b unmarshal_printed [OF g] .
qed

subsection \<open>Properties\<close>

definition manager_of :: "tos_manager \<Rightarrow> bool" where
  "manager_of m \<longleftrightarrow> tm_content_hash m = hex_encode (sha256 (tm_content m))"

lemma new_manager_of: "new_manager rf path ev key sec = Inr m \<Longrightarrow> manager_of m"
  by (auto simp: new_manager_def manager_of_def Let_def split: sum.splits)

lemma accepted_cookie:
  assumes "manager_of m" "session_from_context r = Some s"
    "status_of (accept_handler env un m r new_writer) = 204"
  shows "\<exists>c. cookies_of (accept_handler env un m r new_writer) = [c] \<and> ck_name c = acceptance_cookie_name
    \<and> verify_tos_cookie m (ck_value c) = Inr \<lparr> td_email_hash = tos_hash_email un (se_email s),
        td_tos_hash = tm_content_hash m, td_accepted_at = en_clock env 6 \<rparr>"
proof -
  let ?d = "\<lparr> td_email_hash = tos_hash_email un (se_email s), td_tos_hash = tm_content_hash m, td_accepted_at = en_clock env 6 \<rparr>"
  have good: "good_tos ?d"
    using assms(1) hex_lower_safe by (simp add: good_tos_def tos_hash_email_valid manager_of_def json_safe_valid)
  show ?thesis
  proof (cases "sign_tos_cookie m ?d")
    case (Inl e)
    with assms(2,3) show ?thesis
      by (simp add: accept_handler_def set_acceptance_cookie_def Let_def http_error_reply writer_simps)
  next
    case (Inr t)
    with assms(2) verify_signed_tos [OF good Inr] sign_tos_bytes [OF Inr] show ?thesis
      by (simp add: accept_handler_def set_acceptance_cookie_def Let_def write_header_status writer_simps sanitize_cookie_def)
  qed
qed

text \<open>C5: Consent is durable and bound.  After the accept handler answered 204 to a recipient, a
  request that carries its cookie passes the consent check of any gateway with the same key for
  an email exactly when the email has the recipient's canonical digest and the gateway's terms
  have the digest of the accepted ones: no other recipient and no changed document.\<close>

theorem acceptance_is_durable_and_bound:
  assumes "new_manager rf path ev key sec = Inr m" "session_from_context r = Some s"
    "status_of (accept_handler env un m r new_writer) = 204"
    "cookies_of (accept_handler env un m r new_writer) = [c]"
    "request_cookie r' acceptance_cookie_name = Some (ck_value c)" "tm_signing_key m' = tm_signing_key m"
  shows "check_acceptance un m' r' email \<longleftrightarrow>
    sha256 (canonical un (se_email s)) = sha256 (canonical un email) \<and> tm_content_hash m' = tm_content_hash m"
proof -
  have "verify_tos_cookie m (ck_value c) = Inr \<lparr> td_email_hash = tos_hash_email un (se_email s),
      td_tos_hash = tm_content_hash m, td_accepted_at = en_clock env 6 \<rparr>"
    using accepted_cookie [OF new_manager_of [OF assms(1)] assms(2,3)] assms(4) by auto
  then have "verify_tos_cookie m' (ck_value c) = Inr \<lparr> td_email_hash = tos_hash_email un (se_email s),
      td_tos_hash = tm_content_hash m, td_accepted_at = en_clock env 6 \<rparr>"
    using assms(6) by (simp add: verify_tos_cookie_def)
  with assms(5) show ?thesis by (auto simp: check_acceptance_def tos_hash_email_def hex_encode_inject)
qed

text \<open>C31: The session cookie and the acceptance cookie are sealed with the same key, but neither
  passes for the other: a session token is never a valid acceptance, and an acceptance token is
  an expired session.\<close>

theorem cookies_are_not_interchangeable:
  assumes "good_session d" "sign_and_encode zone d key = Inr session_token"
    and "good_tos e" "sign_tos_cookie m e = Inr tos_token" "tm_signing_key m = key" "zero_time < now"
    and "request_cookie r acceptance_cookie_name = Some session_token"
  shows "\<not> check_acceptance un m r email \<and> decode_and_verify now tos_token key = Inl err_session_expired"
proof
  obtain b where b: "marshal_session zone d = Some b" "session_token = seal key b"
    using assms(2) by (auto simp: sign_and_encode_def split: option.splits)
  then have "verify_tos_cookie m session_token = Inr empty_tos_data"
    using session_as_acceptance [OF assms(1) b(1)] assms(5) by (simp add: verify_tos_cookie_def cookie_envelope.open_seal)
  then show "\<not> check_acceptance un m r email"
    using assms(7) tos_hash_email_nonempty [of un email] by (auto simp: check_acceptance_def empty_tos_data_def)
  obtain p where p: "marshal_tos () e = Some p" "tos_token = seal key p"
    using assms(4,5) by (auto simp: sign_tos_cookie_def split: option.splits)
  then show "decode_and_verify now tos_token key = Inl err_session_expired"
    using acceptance_as_session [OF assms(3) p(1)] assms(6)
    by (simp add: decode_and_verify_def cookie_envelope.open_seal empty_session_def)
qed

subsection \<open>Examples\<close>

definition sample_unicode :: unicode_ops where
  "sample_unicode = \<lparr> un_nfkc = id, un_lower = id \<rparr>"

definition sample_manager :: tos_manager where
  "sample_manager =
     \<lparr> tm_content = ''# Terms'', tm_content_hash = hex_encode (sha256 ''# Terms''), tm_version = ''v1'',
       tm_signing_key = oa_session_key sample_auth, tm_secure_cookies = True \<rparr>"

lemma sample_new_manager:
  "new_manager (\<lambda>_. Inr ''# Terms'') ''tos.md'' ''v1'' (oa_session_key sample_auth) True = Inr sample_manager"
  by (simp add: new_manager_def sample_manager_def Let_def)

definition sample_consent :: tos_cookie_data where
  "sample_consent = \<lparr> td_email_hash = tos_hash_email sample_unicode ''ada@example.org'',
     td_tos_hash = tm_content_hash sample_manager, td_accepted_at = 1700000000 * second \<rparr>"

lemma sample_consent_signed:
  "good_tos sample_consent" "\<exists>t. sign_tos_cookie sample_manager sample_consent = Inr t"
proof -
  show "good_tos sample_consent"
    using hex_lower_safe by (simp add: good_tos_def sample_consent_def tos_hash_email_valid sample_manager_def json_safe_valid)
  show "\<exists>t. sign_tos_cookie sample_manager sample_consent = Inr t"
    using sample_times(1) by (auto simp: sign_tos_cookie_def marshal_tos_def tos_json_def sample_consent_def)
qed

lemma sample_accept_status:
  "status_of (accept_handler sample_env sample_unicode sample_manager (with_session (gw_get ''/'') sample_session) new_writer) = 204"
proof -
  obtain t where "sign_tos_cookie sample_manager sample_consent = Inr t" using sample_consent_signed by blast
  then show ?thesis
    by (simp add: accept_handler_def session_from_context_def with_session_def set_acceptance_cookie_def Let_def
        sample_consent_def sample_session_def new_session_def sample_env_def write_header_status writer_simps)
qed

lemma acceptance_is_durable_and_bound_witness:
  "\<exists>r' :: gw_request. check_acceptance sample_unicode sample_manager r' ''ada@example.org''"
proof -
  let ?r = "with_session (gw_get ''/'') sample_session"
  have s: "session_from_context ?r = Some sample_session" by (simp add: session_from_context_def with_session_def)
  obtain c where c: "cookies_of (accept_handler sample_env sample_unicode sample_manager ?r new_writer) = [c]"
    using accepted_cookie [OF new_manager_of [OF sample_new_manager] s sample_accept_status] by blast
  let ?q = "(gw_get ''/'')\<lparr> rq_cookies := [(acceptance_cookie_name, ck_value c)] \<rparr>"
  have q: "request_cookie ?q acceptance_cookie_name = Some (ck_value c)" by (simp add: request_cookie_def)
  have "check_acceptance sample_unicode sample_manager ?q ''ada@example.org''"
    unfolding acceptance_is_durable_and_bound [OF sample_new_manager s sample_accept_status c q refl]
    by (simp add: sample_session_def new_session_def)
  then show ?thesis by blast
qed

lemma cookies_are_not_interchangeable_witness:
  "\<not> check_acceptance sample_unicode sample_manager
      ((gw_get ''/'')\<lparr> rq_cookies := [(acceptance_cookie_name, sample_token)] \<rparr>) ''ada@example.org''"
proof -
  obtain t where t: "sign_tos_cookie sample_manager sample_consent = Inr t" using sample_consent_signed by blast
  have "request_cookie ((gw_get ''/'')\<lparr> rq_cookies := [(acceptance_cookie_name, sample_token)] \<rparr>) acceptance_cookie_name
      = Some sample_token" by (simp add: request_cookie_def)
  moreover have "tm_signing_key sample_manager = oa_session_key sample_auth" by (simp add: sample_manager_def)
  moreover have "zero_time < 0" by (simp add: zero_time_def second_def)
  ultimately show ?thesis
    using cookies_are_not_interchangeable [OF sample_good sample_signed sample_consent_signed(1) t] by blast
qed

end
