(* ===== verification/Provider.thy ===== *)
theory Provider
  imports Audit_Trail Go_Json_Decode
begin

section \<open>The storage provider client (\<open>internal/provider\<close>)\<close>

text \<open>
  The REST client every backend shares: the signed token of a call, the request and the
  mapping of its answer, the operations of \<open>Service\<close>, the key checks and the constructor.
  The network, the JWT signer and the parsers of PEM and DER keys are arguments (the records
  \<open>provider_net\<close> and \<open>key_ops\<close>).  A call takes the reading of the clock that dates its
  token, and the writer it records its outgoing request on; it changes nothing else there.
\<close>

subsection \<open>Data\<close>

definition err_forbidden :: go_error where "err_forbidden = Sentinel ''provider denied the request''"
definition err_share_not_found :: go_error where "err_share_not_found = Sentinel ''share not found''"
definition err_share_gone :: go_error where "err_share_gone = Sentinel ''share expired or download limit reached''"
definition err_trust_not_configured :: go_error where
  "err_trust_not_configured = Sentinel ''provider trust relationship not configured''"
definition err_unexpected_status :: go_error where "err_unexpected_status = Sentinel ''unexpected provider response''"

lemmas provider_errors = err_forbidden_def err_share_not_found_def err_share_gone_def
  err_trust_not_configured_def err_unexpected_status_def

text \<open>A decoded \<open>*time.Time\<close> keeps the zone offset, in minutes, of the text it was read from.\<close>

type_synonym stamp = "instant \<times> int"

definition zone_of_text :: "string \<Rightarrow> int" where
  "zone_of_text r =
     (if has_suffix r ''Z'' then 0
      else case get_zone (drop (length r - 6) r) of Some z \<Rightarrow> z | None \<Rightarrow> 0)"

definition stamp_value :: "json \<Rightarrow> stamp option" where
  "stamp_value v = (case v of
      JStr r \<Rightarrow> map_option (\<lambda>t. (t, zone_of_text r)) (parse_rfc3339 r)
    | _ \<Rightarrow> None)"

record content =
  ct_body :: string
  ct_body_error :: "go_error option"
  ct_type :: string
  ct_disposition :: string
  ct_length :: int

record share =
  sh_id :: string
  sh_recipient_email :: string
  sh_display_name :: string
  sh_file_name :: string
  sh_size :: "int option"
  sh_is_folder :: bool
  sh_mode :: int
  sh_max_downloads :: "int option"
  sh_download_count :: int
  sh_expires_at :: "stamp option"
  sh_created_at :: "stamp option"

definition zero_share :: share where
  "zero_share = \<lparr> sh_id = [], sh_recipient_email = [], sh_display_name = [], sh_file_name = [], sh_size = None,
     sh_is_folder = False, sh_mode = 0, sh_max_downloads = None, sh_download_count = 0,
     sh_expires_at = None, sh_created_at = None \<rparr>"

definition share_fields :: "share field list" where
  "share_fields =
     [(''id'', dec_string (\<lambda>x s. s\<lparr> sh_id := x \<rparr>)),
      (''recipient_email'', dec_string (\<lambda>x s. s\<lparr> sh_recipient_email := x \<rparr>)),
      (''display_name'', dec_string (\<lambda>x s. s\<lparr> sh_display_name := x \<rparr>)),
      (''file_name'', dec_string (\<lambda>x s. s\<lparr> sh_file_name := x \<rparr>)),
      (''size'', dec_ptr int_value (\<lambda>x s. s\<lparr> sh_size := x \<rparr>)),
      (''is_folder'', dec_bool (\<lambda>x s. s\<lparr> sh_is_folder := x \<rparr>)),
      (''mode'', dec_int (\<lambda>x s. s\<lparr> sh_mode := x \<rparr>)),
      (''max_downloads'', dec_ptr int_value (\<lambda>x s. s\<lparr> sh_max_downloads := x \<rparr>)),
      (''download_count'', dec_int (\<lambda>x s. s\<lparr> sh_download_count := x \<rparr>)),
      (''expires_at'', dec_ptr stamp_value (\<lambda>x s. s\<lparr> sh_expires_at := x \<rparr>)),
      (''created_at'', dec_ptr stamp_value (\<lambda>x s. s\<lparr> sh_created_at := x \<rparr>))]"

record folder_entry =
  fe_id :: string
  fe_name :: string
  fe_size :: "int option"
  fe_mime_type :: string
  fe_is_folder :: bool
  fe_is_own :: bool
  fe_uploaded_at :: "stamp option"

definition zero_entry :: folder_entry where
  "zero_entry = \<lparr> fe_id = [], fe_name = [], fe_size = None, fe_mime_type = [], fe_is_folder = False,
     fe_is_own = False, fe_uploaded_at = None \<rparr>"

definition entry_fields :: "folder_entry field list" where
  "entry_fields =
     [(''id'', dec_string (\<lambda>x e. e\<lparr> fe_id := x \<rparr>)),
      (''name'', dec_string (\<lambda>x e. e\<lparr> fe_name := x \<rparr>)),
      (''size'', dec_ptr int_value (\<lambda>x e. e\<lparr> fe_size := x \<rparr>)),
      (''mime_type'', dec_string (\<lambda>x e. e\<lparr> fe_mime_type := x \<rparr>)),
      (''is_folder'', dec_bool (\<lambda>x e. e\<lparr> fe_is_folder := x \<rparr>)),
      (''is_own'', dec_bool (\<lambda>x e. e\<lparr> fe_is_own := x \<rparr>)),
      (''uploaded_at'', dec_ptr stamp_value (\<lambda>x e. e\<lparr> fe_uploaded_at := x \<rparr>))]"

record folder_listing =
  fl_is_file :: bool
  fl_entries :: "folder_entry list"
  fl_entry :: "folder_entry option"

definition zero_listing :: folder_listing where
  "zero_listing = \<lparr> fl_is_file = False, fl_entries = [], fl_entry = None \<rparr>"

definition listing_fields :: "folder_listing field list" where
  "listing_fields =
     [(''is_file'', dec_bool (\<lambda>x l. l\<lparr> fl_is_file := x \<rparr>)),
      (''entries'', dec_list entry_fields zero_entry (\<lambda>x l. l\<lparr> fl_entries := x \<rparr>)),
      (''entry'', dec_struct_ptr entry_fields zero_entry fl_entry (\<lambda>x l. l\<lparr> fl_entry := x \<rparr>))]"

subsection \<open>Request metadata\<close>

record client_meta =
  mt_ip :: string
  mt_xff :: string

type_synonym call_context = "client_meta option"

definition context_with_meta :: "call_context \<Rightarrow> client_meta \<Rightarrow> call_context" where
  "context_with_meta ctx meta = Some meta"

definition meta_from_context :: "call_context \<Rightarrow> client_meta" where
  "meta_from_context ctx = (case ctx of None \<Rightarrow> \<lparr> mt_ip = [], mt_xff = [] \<rparr> | Some m \<Rightarrow> m)"

definition meta_from_request :: "'a request_scheme \<Rightarrow> client_meta" where
  "meta_from_request r =
     \<lparr> mt_ip = (case split_host (rq_remote_addr r) of Some h \<Rightarrow> h | None \<Rightarrow> rq_remote_addr r),
       mt_xff = header_get (rq_headers r) ''X-Forwarded-For'' \<rparr>"

subsection \<open>Keys\<close>

text \<open>A parsed private key: whether it is an EC key, its curve and its public half in DER.\<close>

record parsed_key =
  pk_is_ec :: bool
  pk_curve :: string
  pk_public_der :: "go_error + string"

record key_ops =
  ko_pem_decode :: "string \<Rightarrow> string option"
  ko_parse_sec1 :: "string \<Rightarrow> go_error + parsed_key"
  ko_parse_pkcs8 :: "string \<Rightarrow> go_error + parsed_key"
  ko_pem_encode :: "string \<Rightarrow> string \<Rightarrow> string"
  ko_signer :: "parsed_key \<Rightarrow> go_error option"

definition parse_ec_private_key :: "key_ops \<Rightarrow> string \<Rightarrow> go_error + parsed_key" where
  "parse_ec_private_key ko der = (case ko_parse_sec1 ko der of
      Inr key \<Rightarrow> Inr key
    | Inl _ \<Rightarrow>
        (case ko_parse_pkcs8 ko der of
           Inl e \<Rightarrow> Inl (Wrap ''not a valid SEC1 or PKCS#8 EC key: '' e [])
         | Inr key \<Rightarrow> if pk_is_ec key then Inr key else Inl (Plain ''not an ECDSA key'')))"

definition load_private_key :: "key_ops \<Rightarrow> string \<Rightarrow> go_error + parsed_key" where
  "load_private_key ko pem = (case ko_pem_decode ko pem of
      None \<Rightarrow> Inl (Plain ''provider private key: no PEM block found'')
    | Some der \<Rightarrow>
        (case parse_ec_private_key ko der of
           Inl e \<Rightarrow> Inl (Wrap ''provider private key: '' e [])
         | Inr key \<Rightarrow>
             if pk_curve key \<noteq> ''P-256''
             then Inl (Plain (''provider private key: curve must be P-256 for ES256, got '' @ pk_curve key))
             else Inr key))"

definition public_key_pem :: "key_ops \<Rightarrow> parsed_key \<Rightarrow> go_error + string" where
  "public_key_pem ko key = (case pk_public_der key of
      Inl e \<Rightarrow> Inl (Wrap ''marshal provider public key: '' e [])
    | Inr der \<Rightarrow> Inr (ko_pem_encode ko ''PUBLIC KEY'' der))"

subsection \<open>The client\<close>

record provider_client =
  pc_base_url :: string
  pc_key :: parsed_key
  pc_timeout :: duration
  pc_stream_timeout :: duration
  pc_public_key_pem :: string
  pc_audience :: string

record provider_net =
  pn_transport :: "outgoing \<Rightarrow> go_error + reply"
  pn_sign :: "parsed_key \<Rightarrow> (string \<times> json) list \<Rightarrow> go_error + string"

definition token_issuer :: string where "token_issuer = ''atrium-core''"
definition token_ttl :: duration where "token_ttl = 30 * second"
definition nextcloud_audience :: string where "nextcloud_audience = ''atrium-plugin-nextcloud''"

definition new_signer :: "key_ops \<Rightarrow> parsed_key \<Rightarrow> go_error + parsed_key" where
  "new_signer ko key = (case ko_signer ko key of
      Some e \<Rightarrow> Inl (Wrap ''create provider JWT signer: '' e [])
    | None \<Rightarrow> Inr key)"

definition new_client :: "key_ops \<Rightarrow> string \<Rightarrow> string \<Rightarrow> string \<Rightarrow> duration \<Rightarrow> go_error + provider_client" where
  "new_client ko base_url private_key_pem audience stream_timeout =
     (case url_parse base_url of
        None \<Rightarrow> Inl (Plain (''provider base URL must be absolute: '' @ quoted base_url))
      | Some u \<Rightarrow>
          if \<not> is_abs u then Inl (Plain (''provider base URL must be absolute: '' @ quoted base_url))
          else bindr (load_private_key ko private_key_pem) (\<lambda>key.
            bindr (new_signer ko key) (\<lambda>signer.
            bindr (public_key_pem ko key) (\<lambda>pub.
              Inr \<lparr> pc_base_url = url_string u, pc_key = signer, pc_timeout = 10 * second,
                    pc_stream_timeout = stream_timeout, pc_public_key_pem = pub, pc_audience = audience \<rparr>))))"

definition new_nextcloud :: "key_ops \<Rightarrow> string \<Rightarrow> string \<Rightarrow> duration \<Rightarrow> go_error + provider_client" where
  "new_nextcloud ko base_url private_key_pem stream_timeout =
     new_client ko base_url private_key_pem nextcloud_audience stream_timeout"

definition token_claim_set ::
  "provider_client \<Rightarrow> instant \<Rightarrow> string \<Rightarrow> string \<Rightarrow> string \<Rightarrow> client_meta \<Rightarrow> (string \<times> json) list" where
  "token_claim_set c now share_id email action meta =
     [(''iss'', jstring token_issuer), (''aud'', jstring (pc_audience c)), (''iat'', jint (unix_seconds now)),
      (''exp'', jint (unix_seconds (now + token_ttl))), (''action'', jstring action)]
     @ (if share_id \<noteq> [] then [(''share_id'', jstring share_id)] else [])
     @ (if email \<noteq> [] then [(''email'', jstring email)] else [])
     @ (if mt_ip meta \<noteq> [] then [(''ip'', jstring (mt_ip meta))] else [])
     @ (if mt_xff meta \<noteq> [] then [(''xff'', jstring (mt_xff meta))] else [])"

definition create_token ::
  "provider_net \<Rightarrow> provider_client \<Rightarrow> instant \<Rightarrow> string \<Rightarrow> string \<Rightarrow> string \<Rightarrow> client_meta \<Rightarrow> go_error + string" where
  "create_token net c now share_id email action meta =
     (case pn_sign net (pc_key c) (token_claim_set c now share_id email action meta) of
        Inl e \<Rightarrow> Inl (Wrap ''sign provider token: '' e [])
      | Inr t \<Rightarrow> Inr t)"

definition map_error_status :: "nat \<Rightarrow> go_error" where
  "map_error_status status =
     (if status = 403 then err_forbidden
      else if status = 404 then err_share_not_found
      else if status = 410 then err_share_gone
      else Wrap [] err_unexpected_status ('': '' @ itoa (int status)))"

definition build_request ::
  "provider_client \<Rightarrow> duration \<Rightarrow> string \<Rightarrow> string \<Rightarrow> string \<Rightarrow> string \<times> go_error option \<Rightarrow> (string \<times> string) list \<Rightarrow> outgoing" where
  "build_request c timeout meth path token body headers =
     \<lparr> og_method = meth, og_url = pc_base_url c @ path,
       og_header = fold (\<lambda>(k, v) h. if v \<noteq> [] then h(k \<mapsto> v) else h) headers
         [''Authorization'' \<mapsto> ''Bearer '' @ token],
       og_body = fst body, og_body_error = snd body, og_timeout = timeout \<rparr>"

definition provider_request ::
  "provider_net \<Rightarrow> provider_client \<Rightarrow> instant \<Rightarrow> call_context \<Rightarrow> duration \<Rightarrow> string \<Rightarrow> string \<Rightarrow> string \<Rightarrow> string \<Rightarrow> string
   \<Rightarrow> string \<times> go_error option \<Rightarrow> (string \<times> string) list \<Rightarrow> writer \<Rightarrow> (go_error + reply) \<times> writer" where
  "provider_request net c now ctx timeout meth path share_id email action body headers w =
     (case create_token net c now share_id email action (meta_from_context ctx) of
        Inl e \<Rightarrow> (Inl e, w)
      | Inr token \<Rightarrow>
          if url_parse (pc_base_url c @ path) = None
          then (Inl (Wrap ''build provider request: '' (Plain ''parse'') []), w)
          else
            (let q = build_request c timeout meth path token body headers;
                 w' = record_sent q w
             in case pn_transport net q of
                  Inl e \<Rightarrow> (Inl (Wrap (''call provider '' @ meth @ '' '' @ path @ '': '') e []), w')
                | Inr resp \<Rightarrow>
                    if 200 \<le> rp_status resp \<and> rp_status resp < 300 then (Inr resp, w')
                    else (Inl (map_error_status (rp_status resp)), w')))"

definition no_body :: "string \<times> go_error option" where "no_body = ([], None)"

definition provider_do ::
  "provider_net \<Rightarrow> provider_client \<Rightarrow> instant \<Rightarrow> call_context \<Rightarrow> string \<Rightarrow> string \<Rightarrow> string \<Rightarrow> string \<Rightarrow> string
   \<Rightarrow> writer \<Rightarrow> (go_error + reply) \<times> writer" where
  "provider_do net c now ctx meth path share_id email action w =
     provider_request net c now ctx (pc_timeout c) meth path share_id email action no_body [] w"

definition content_of_reply :: "reply \<Rightarrow> content" where
  "content_of_reply resp =
     \<lparr> ct_body = rp_body resp, ct_body_error = rp_body_error resp,
       ct_type = header_get (rp_header resp) ''Content-Type'',
       ct_disposition = header_get (rp_header resp) ''Content-Disposition'',
       ct_length = rp_content_length resp \<rparr>"

definition map_result :: "('a \<Rightarrow> 'b) \<Rightarrow> (go_error + 'a) \<times> writer \<Rightarrow> (go_error + 'b) \<times> writer" where
  "map_result f x = (case x of (Inl e, w) \<Rightarrow> (Inl e, w) | (Inr a, w) \<Rightarrow> (Inr (f a), w))"

subsection \<open>The operations of a service\<close>

definition share_path :: "string \<Rightarrow> string" where
  "share_path share_id = ''/api/v1/shares/'' @ path_escape share_id"

definition with_path :: "string \<Rightarrow> string \<Rightarrow> string" where
  "with_path p path = (if path \<noteq> [] then p @ ''?path='' @ query_escape path else p)"

definition download ::
  "provider_net \<Rightarrow> provider_client \<Rightarrow> instant \<Rightarrow> call_context \<Rightarrow> string \<Rightarrow> string \<Rightarrow> writer \<Rightarrow> (go_error + content) \<times> writer" where
  "download net c now ctx share_id email w =
     map_result content_of_reply
       (provider_request net c now ctx (pc_stream_timeout c) ''GET''
         (share_path share_id @ ''/content'') share_id email ''download'' no_body [] w)"

text \<open>The upload also reports how many bytes of its body were read, as the caller's reader counts.\<close>

definition upload ::
  "provider_net \<Rightarrow> provider_client \<Rightarrow> instant \<Rightarrow> call_context \<Rightarrow> string \<Rightarrow> string \<Rightarrow> string \<Rightarrow> string \<Rightarrow> string
   \<Rightarrow> string \<times> go_error option \<Rightarrow> writer \<Rightarrow> (go_error + nat) \<times> writer" where
  "upload net c now ctx share_id email filename content_type path body w =
     map_result rp_taken
       (provider_request net c now ctx (pc_stream_timeout c) ''POST''
         (with_path (share_path share_id @ ''/upload'') path) share_id email ''upload'' body
         [(''Content-Type'', content_type), (''X-Atrium-Filename'', filename)] w)"

definition list_folder ::
  "provider_net \<Rightarrow> provider_client \<Rightarrow> instant \<Rightarrow> call_context \<Rightarrow> string \<Rightarrow> string \<Rightarrow> string \<Rightarrow> writer
   \<Rightarrow> (go_error + folder_listing) \<times> writer" where
  "list_folder net c now ctx share_id email path w =
     (case provider_do net c now ctx ''GET'' (with_path (share_path share_id @ ''/folder'') path)
             share_id email ''list-folder'' w of
        (Inl e, w') \<Rightarrow> (Inl e, w')
      | (Inr resp, w') \<Rightarrow>
          (case Option.bind (decode_first (rp_body resp)) (\<lambda>v. decode_struct listing_fields v zero_listing) of
             None \<Rightarrow> (Inl (Wrap ''decode provider folder listing: '' (Plain ''json'') []), w')
           | Some l \<Rightarrow> (Inr l, w')))"

definition download_folder_file ::
  "provider_net \<Rightarrow> provider_client \<Rightarrow> instant \<Rightarrow> call_context \<Rightarrow> string \<Rightarrow> string \<Rightarrow> string \<Rightarrow> writer
   \<Rightarrow> (go_error + content) \<times> writer" where
  "download_folder_file net c now ctx share_id file_id email w =
     map_result content_of_reply
       (provider_request net c now ctx (pc_stream_timeout c) ''GET''
         (share_path share_id @ ''/folder/'' @ path_escape file_id @ ''/content'')
         share_id email ''download-file'' no_body [] w)"

definition list_shares ::
  "provider_net \<Rightarrow> provider_client \<Rightarrow> instant \<Rightarrow> call_context \<Rightarrow> string \<Rightarrow> writer \<Rightarrow> (go_error + share list) \<times> writer" where
  "list_shares net c now ctx email w =
     (case provider_do net c now ctx ''GET'' ''/api/v1/shares'' [] email ''list-shares'' w of
        (Inl e, w') \<Rightarrow> (Inl e, w')
      | (Inr resp, w') \<Rightarrow>
          (case Option.bind (decode_first (rp_body resp)) (decode_list share_fields zero_share) of
             None \<Rightarrow> (Inl (Wrap ''decode provider shares: '' (Plain ''json'') []), w')
           | Some l \<Rightarrow> (Inr l, w')))"

definition health_check ::
  "provider_net \<Rightarrow> provider_client \<Rightarrow> instant \<Rightarrow> call_context \<Rightarrow> writer \<Rightarrow> go_error option \<times> writer" where
  "health_check net c now ctx w =
     (case provider_do net c now ctx ''GET'' ''/api/v1/health'' [] [] ''healthcheck'' w of
        (Inl e, w') \<Rightarrow>
          if errors_is e err_forbidden
          then (Some (Wrap [] err_trust_not_configured
                 (''; install this core public key on the provider:'' @ newline @ pc_public_key_pem c)), w')
          else (Some e, w')
      | (Inr resp, w') \<Rightarrow> (None, w'))"

subsection \<open>The service contract\<close>

text \<open>
  What the gateway relies on in a backend: a call only sends requests, and its outcome is one
  of the conditions of \<open>Service\<close> or a fault of the operator.  The locale states it for any
  operation; the client's operations are its instances.
\<close>

definition share_condition :: "go_error \<Rightarrow> bool" where
  "share_condition e \<longleftrightarrow> errors_is e err_forbidden \<or> errors_is e err_share_not_found \<or> errors_is e err_share_gone"

lemma provider_request_result:
  "provider_request net c now ctx timeout meth path share_id email action body headers w = (res, w') \<Longrightarrow>
     (w' = w \<and> (\<exists>e. res = Inl e)) \<or>
     (\<exists>token q. create_token net c now share_id email action (meta_from_context ctx) = Inr token
        \<and> q = build_request c timeout meth path token body headers \<and> w' = record_sent q w
        \<and> (case pn_transport net q of
             Inl e \<Rightarrow> res = Inl (Wrap (''call provider '' @ meth @ '' '' @ path @ '': '') e [])
           | Inr resp \<Rightarrow> res = (if 200 \<le> rp_status resp \<and> rp_status resp < 300 then Inr resp
                              else Inl (map_error_status (rp_status resp)))))"
  by (auto simp: provider_request_def Let_def split: sum.splits if_splits)

lemma provider_request_answered:
  assumes "create_token net c now share_id email action (meta_from_context ctx) = Inr token"
    "url_parse (pc_base_url c @ path) \<noteq> None"
    "pn_transport net (build_request c timeout meth path token body headers) = Inr resp"
  shows "provider_request net c now ctx timeout meth path share_id email action body headers w =
    (if 200 \<le> rp_status resp \<and> rp_status resp < 300 then Inr resp else Inl (map_error_status (rp_status resp)),
     record_sent (build_request c timeout meth path token body headers) w)"
proof -
  from assms(2) obtain u where "url_parse (pc_base_url c @ path) = Some u" by blast
  then show ?thesis by (simp add: provider_request_def Let_def assms(1,3))
qed

lemma provider_request_only_sends:
  "only_sends w (snd (provider_request net c now ctx timeout meth path share_id email action body headers w))"
  by (auto simp: provider_request_def Let_def only_sends_record split: sum.splits)

lemma map_result_snd [simp]: "snd (map_result f x) = snd x"
  by (auto simp: map_result_def split: prod.splits sum.splits)

lemma service_only_sends:
  "only_sends w (snd (download net c now ctx share_id email w))"
  "only_sends w (snd (download_folder_file net c now ctx share_id file_id email w))"
  "only_sends w (snd (upload net c now ctx share_id email filename content_type path body w))"
  "only_sends w (snd (list_folder net c now ctx share_id email path w))"
  "only_sends w (snd (list_shares net c now ctx email w))"
  "only_sends w (snd (health_check net c now ctx w))"
proof -
  note r = provider_request_only_sends
  show "only_sends w (snd (download net c now ctx share_id email w))"
    "only_sends w (snd (download_folder_file net c now ctx share_id file_id email w))"
    "only_sends w (snd (upload net c now ctx share_id email filename content_type path body w))"
    by (simp_all add: download_def download_folder_file_def upload_def r)
  have d: "provider_do net c now ctx meth p s e a w = (res, w') \<Longrightarrow> only_sends w w'" for meth p s e a res w'
    using r unfolding provider_do_def by (metis snd_conv)
  show "only_sends w (snd (list_folder net c now ctx share_id email path w))"
    "only_sends w (snd (list_shares net c now ctx email w))" "only_sends w (snd (health_check net c now ctx w))"
    by (auto simp: list_folder_def list_shares_def health_check_def split: prod.splits sum.splits option.splits dest: d)
qed

subsection \<open>What is on the wire\<close>

text \<open>The claims a token carries, read back by name.\<close>

lemma token_claims_by_name:
  "map_of (token_claim_set c now s e a m) ''iss'' = Some (jstring ''atrium-core'')"
  "map_of (token_claim_set c now s e a m) ''aud'' = Some (jstring (pc_audience c))"
  "map_of (token_claim_set c now s e a m) ''iat'' = Some (jint (unix_seconds now))"
  "map_of (token_claim_set c now s e a m) ''exp'' = Some (jint (unix_seconds now + 30))"
  "map_of (token_claim_set c now s e a m) ''action'' = Some (jstring a)"
  "map_of (token_claim_set c now s e a m) ''share_id'' = (if s = [] then None else Some (jstring s))"
  "map_of (token_claim_set c now s e a m) ''email'' = (if e = [] then None else Some (jstring e))"
  "map_of (token_claim_set c now s e a m) ''ip'' = (if mt_ip m = [] then None else Some (jstring (mt_ip m)))"
  "map_of (token_claim_set c now s e a m) ''xff'' = (if mt_xff m = [] then None else Some (jstring (mt_xff m)))"
proof -
  have "unix_seconds (now + token_ttl) = unix_seconds now + 30"
    by (simp add: unix_seconds_def token_ttl_def second_def)
  then show "map_of (token_claim_set c now s e a m) ''iss'' = Some (jstring ''atrium-core'')"
    "map_of (token_claim_set c now s e a m) ''aud'' = Some (jstring (pc_audience c))"
    "map_of (token_claim_set c now s e a m) ''iat'' = Some (jint (unix_seconds now))"
    "map_of (token_claim_set c now s e a m) ''exp'' = Some (jint (unix_seconds now + 30))"
    "map_of (token_claim_set c now s e a m) ''action'' = Some (jstring a)"
    "map_of (token_claim_set c now s e a m) ''share_id'' = (if s = [] then None else Some (jstring s))"
    "map_of (token_claim_set c now s e a m) ''email'' = (if e = [] then None else Some (jstring e))"
    "map_of (token_claim_set c now s e a m) ''ip'' = (if mt_ip m = [] then None else Some (jstring (mt_ip m)))"
    "map_of (token_claim_set c now s e a m) ''xff'' = (if mt_xff m = [] then None else Some (jstring (mt_xff m)))"
    by (simp_all add: token_claim_set_def token_issuer_def)
qed

text \<open>A request on behalf of a recipient: signed for the share, the email and the action.\<close>

definition signed_for :: "provider_net \<Rightarrow> provider_client \<Rightarrow> instant \<Rightarrow> string \<Rightarrow> string \<Rightarrow> string \<Rightarrow> outgoing \<Rightarrow> bool" where
  "signed_for net c now share_id email action q \<longleftrightarrow>
     (\<exists>claims token. pn_sign net (pc_key c) claims = Inr token
        \<and> og_header q ''Authorization'' = Some (''Bearer '' @ token)
        \<and> map_of claims ''share_id'' = (if share_id = [] then None else Some (jstring share_id))
        \<and> map_of claims ''email'' = (if email = [] then None else Some (jstring email))
        \<and> map_of claims ''action'' = Some (jstring action)
        \<and> map_of claims ''aud'' = Some (jstring (pc_audience c))
        \<and> map_of claims ''exp'' = Some (jint (unix_seconds now + 30)))"

lemma build_request_header:
  assumes "''Authorization'' \<notin> set (map fst headers)"
  shows "og_header (build_request c timeout meth path token body headers) ''Authorization'' = Some (''Bearer '' @ token)"
proof -
  have "k \<notin> set (map fst hs) \<Longrightarrow> fold (\<lambda>(k, v) h. if v \<noteq> [] then h(k \<mapsto> v) else h) hs h k = h k"
    for k :: string and hs :: "(string \<times> string) list" and h
    by (induction hs arbitrary: h) auto
  with assms show ?thesis by (simp add: build_request_def)
qed

lemma provider_request_signed:
  assumes "''Authorization'' \<notin> set (map fst headers)"
  shows "w_sent (snd (provider_request net c now ctx timeout meth path share_id email action body headers w)) = w_sent w
    \<or> (\<exists>q. w_sent (snd (provider_request net c now ctx timeout meth path share_id email action body headers w)) = w_sent w @ [q]
         \<and> og_method q = meth \<and> og_url q = pc_base_url c @ path \<and> og_body q = fst body \<and> og_body_error q = snd body
         \<and> signed_for net c now share_id email action q)"
proof -
  obtain res w' where r: "provider_request net c now ctx timeout meth path share_id email action body headers w = (res, w')"
    by fastforce
  from provider_request_result [OF r] show ?thesis
  proof (elim disjE exE conjE)
    fix token q
    assume t: "create_token net c now share_id email action (meta_from_context ctx) = Inr token"
      and q: "q = build_request c timeout meth path token body headers" and w': "w' = record_sent q w"
    have "pn_sign net (pc_key c) (token_claim_set c now share_id email action (meta_from_context ctx)) = Inr token"
      using t by (simp add: create_token_def split: sum.splits)
    then have "signed_for net c now share_id email action q"
      unfolding signed_for_def q
      by (intro exI conjI) (assumption | simp add: build_request_header [OF assms] token_claims_by_name)+
    moreover have "og_method q = meth" "og_url q = pc_base_url c @ path" "og_body q = fst body" "og_body_error q = snd body"
      by (simp_all add: q build_request_def)
    ultimately show ?thesis by (simp add: r w' writer_simps)
  qed (simp add: r)
qed

subsection \<open>Examples\<close>

definition sample_client :: provider_client where
  "sample_client =
     \<lparr> pc_base_url = ''http://p'', pc_key = \<lparr> pk_is_ec = True, pk_curve = ''P-256'', pk_public_der = Inr ''der'' \<rparr>,
       pc_timeout = 10 * second, pc_stream_timeout = hour, pc_public_key_pem = ''pem'', pc_audience = nextcloud_audience \<rparr>"

definition sample_net :: "nat \<Rightarrow> string \<Rightarrow> provider_net" where
  "sample_net status body =
     \<lparr> pn_transport = (\<lambda>q. case og_body_error q of
          Some e \<Rightarrow> Inl (Wrap ''Post: '' e [])
        | None \<Rightarrow> Inr \<lparr> rp_status = status, rp_header = [''Content-Type'' \<mapsto> ''text/plain''], rp_content_length = int (length body),
            rp_body = body, rp_body_error = None, rp_taken = length (og_body q) \<rparr>),
       pn_sign = (\<lambda>_ _. Inr ''a.b.c'') \<rparr>"

lemma sample_net_simps [simp]:
  "pn_sign (sample_net n b) k cl = Inr ''a.b.c''"
  "create_token (sample_net n b) c now s e a m = Inr ''a.b.c''"
  "og_body_error q = None \<Longrightarrow> pn_transport (sample_net n b) q = Inr \<lparr> rp_status = n, rp_header = [''Content-Type'' \<mapsto> ''text/plain''],
     rp_content_length = int (length b), rp_body = b, rp_body_error = None, rp_taken = length (og_body q) \<rparr>"
  by (simp_all add: sample_net_def create_token_def)

lemma build_request_parts [simp]:
  "og_body (build_request c t m p tok body hs) = fst body" "og_body_error (build_request c t m p tok body hs) = snd body"
  "og_method (build_request c t m p tok body hs) = m" "og_url (build_request c t m p tok body hs) = pc_base_url c @ p"
  by (simp_all add: build_request_def)

lemma sample_urls:
  "path_escape ''7'' = ''7''" "url_parse (pc_base_url sample_client @ share_path ''7'' @ ''/content'') \<noteq> None"
  "url_parse (pc_base_url sample_client @ share_path ''7'' @ ''/upload'') \<noteq> None"
proof -
  show p: "path_escape ''7'' = ''7''" by code_simp
  have "url_parse ''http://p/api/v1/shares/7/content'' \<noteq> None" "url_parse ''http://p/api/v1/shares/7/upload'' \<noteq> None"
    by code_simp+
  then show "url_parse (pc_base_url sample_client @ share_path ''7'' @ ''/content'') \<noteq> None"
    "url_parse (pc_base_url sample_client @ share_path ''7'' @ ''/upload'') \<noteq> None"
    by (simp_all add: sample_client_def share_path_def p)
qed

end
