(* ===== verification/Proxy.thy ===== *)
theory Proxy
  imports Provider Middleware
begin

section \<open>The stream proxy (\<open>internal/proxy/proxy.go\<close>)\<close>

text \<open>
  The three transfer handlers and what they share.  The backend is a \<open>streamer\<close>, the record
  of the interface's three methods; the locale \<open>streaming\<close> states what the handlers rely on
  (a call leaves no trace on the reply) and is interpreted on the provider client.  A body is
  the bytes its reader yields and the error it ends with; \<open>room\<close> is how many bytes of a
  reply the recipient's connection takes before it breaks, \<open>None\<close> when it does not.
\<close>

subsection \<open>The handlers\<close>

record streamer =
  st_download :: "call_context \<Rightarrow> string \<Rightarrow> string \<Rightarrow> writer \<Rightarrow> (go_error + content) \<times> writer"
  st_download_file :: "call_context \<Rightarrow> string \<Rightarrow> string \<Rightarrow> string \<Rightarrow> writer \<Rightarrow> (go_error + content) \<times> writer"
  st_upload :: "call_context \<Rightarrow> string \<Rightarrow> string \<Rightarrow> string \<Rightarrow> string \<Rightarrow> string
    \<Rightarrow> string \<times> go_error option \<Rightarrow> writer \<Rightarrow> (go_error + nat) \<times> writer"

record stream_proxy =
  px_provider :: streamer
  px_max_upload_size :: int

definition new_proxy :: "streamer \<Rightarrow> int \<Rightarrow> stream_proxy" where
  "new_proxy s max_upload_size = \<lparr> px_provider = s, px_max_upload_size = max_upload_size \<rparr>"

definition share_attrs :: "string \<Rightarrow> string \<Rightarrow> (string \<times> log_value) list" where
  "share_attrs share_id email = [attr_str ''share_id'' share_id, attr_str ''email'' email]"

definition too_large :: "stream_proxy \<Rightarrow> writer \<Rightarrow> writer" where
  "too_large p w =
     http_error (''File too large. Maximum: '' @ itoa (px_max_upload_size p) @ '' bytes'') 413 w"

definition write_provider_error ::
  "'a request_scheme \<Rightarrow> string \<Rightarrow> string \<Rightarrow> string \<Rightarrow> go_error \<Rightarrow> writer \<Rightarrow> writer" where
  "write_provider_error r op share_id email e w =
     (if errors_is e err_share_not_found then
        http_error ''Share not found'' 404
          (audit_log r level_audit event_access_denied
            (share_attrs share_id email @ [attr_str ''reason'' ''share_not_found'']) w)
      else if errors_is e err_forbidden then
        http_error ''Access denied'' 403
          (audit_log r level_audit event_access_denied
            (share_attrs share_id email @ [attr_str ''reason'' ''forbidden'']) w)
      else if errors_is e err_share_gone then
        http_error ''Share expired or download limit reached'' 410
          (audit_log r level_audit event_share_expired (share_attrs share_id email) w)
      else if errors_is e err_unexpected_status then
        http_error ''An error occurred'' 500
          (log_plain level_error (''provider '' @ op @ '' failed'') [attr_str ''share_id'' share_id, attr_err e] w)
      else
        http_error ''Service temporarily unavailable'' 503
          (log_plain level_error (''provider '' @ op @ '' unreachable'') [attr_str ''share_id'' share_id, attr_err e] w))"

text \<open>\<open>io.Copy\<close> to the reply: the bytes written and the error that ended it.\<close>

definition io_copy :: "nat option \<Rightarrow> string \<times> go_error option \<Rightarrow> writer \<Rightarrow> (nat \<times> go_error option) \<times> writer" where
  "io_copy room body w =
     (let (sent, e) = (case room of
            Some n \<Rightarrow> if n < length (fst body) then (take n (fst body), Some (Plain ''write: broken pipe'')) else body
          | None \<Rightarrow> body)
      in ((length sent, e), if fst body = [] then w else write_body sent w))"

definition stream_content ::
  "nat option \<Rightarrow> 'a request_scheme \<Rightarrow> string \<Rightarrow> string \<Rightarrow> content \<Rightarrow> (string \<times> log_value) list \<Rightarrow> writer \<Rightarrow> writer" where
  "stream_content room r share_id email c extra w =
     (let w1 = audit_log r level_audit event_download_start (share_attrs share_id email @ extra) w;
          w2 = (if ct_type c \<noteq> [] then w_set ''Content-Type'' (ct_type c) w1 else w1);
          w3 = (if ct_disposition c \<noteq> [] then w_set ''Content-Disposition'' (ct_disposition c) w2 else w2);
          w4 = (if 0 \<le> ct_length c then w_set ''Content-Length'' (itoa (ct_length c)) w3 else w3);
          ((n, e), w5) = io_copy room (ct_body c, ct_body_error c) w4
      in case e of
           Some e \<Rightarrow> log_plain level_warn ''download stream interrupted'' [attr_str ''share_id'' share_id, attr_err e] w5
         | None \<Rightarrow> audit_log r level_info event_download_complete
                    (share_attrs share_id email @ extra @ [(''file_size'', LInt (int n))]) w5)"

definition handle_download :: "nat option \<Rightarrow> stream_proxy \<Rightarrow> gw_request \<Rightarrow> writer \<Rightarrow> writer" where
  "handle_download room p r w =
     (let share_id = path_value r ''shareID''
      in case session_from_context r of
           None \<Rightarrow> http_error ''internal server error'' 500 w
         | Some s \<Rightarrow>
             (let ctx = context_with_meta None (meta_from_request r)
              in case st_download (px_provider p) ctx share_id (se_email s) w of
                   (Inl e, w') \<Rightarrow> write_provider_error r ''download'' share_id (se_email s) e w'
                 | (Inr c, w') \<Rightarrow> stream_content room r share_id (se_email s) c [] w'))"

definition handle_folder_file_download :: "nat option \<Rightarrow> stream_proxy \<Rightarrow> gw_request \<Rightarrow> writer \<Rightarrow> writer" where
  "handle_folder_file_download room p r w =
     (let share_id = path_value r ''shareID''; file_id = path_value r ''fileID''
      in case session_from_context r of
           None \<Rightarrow> http_error ''internal server error'' 500 w
         | Some s \<Rightarrow>
             (let ctx = context_with_meta None (meta_from_request r)
              in case st_download_file (px_provider p) ctx share_id file_id (se_email s) w of
                   (Inl e, w') \<Rightarrow> write_provider_error r ''download'' share_id (se_email s) e w'
                 | (Inr c, w') \<Rightarrow> stream_content room r share_id (se_email s) c [attr_str ''file_id'' file_id] w'))"

text \<open>\<open>http.MaxBytesReader\<close>: the bytes up to the limit, then its error if there are more.\<close>

definition max_bytes_reader :: "int \<Rightarrow> string \<times> go_error option \<Rightarrow> string \<times> go_error option" where
  "max_bytes_reader n body =
     (let m = nat n
      in if length (fst body) \<le> m then body else (take m (fst body), Some (MaxBytesError (max 0 n))))"

text \<open>The number a streamer returns for an upload is what the \<open>countingReader\<close> around its body counted.\<close>

definition handle_upload :: "stream_proxy \<Rightarrow> gw_request \<Rightarrow> writer \<Rightarrow> writer" where
  "handle_upload p r w =
     (let share_id = path_value r ''shareID''
      in case session_from_context r of
           None \<Rightarrow> http_error ''internal server error'' 500 w
         | Some s \<Rightarrow>
             if px_max_upload_size p < rq_content_length r then too_large p w
             else
               (let filename = header_get (rq_headers r) ''X-Atrium-Filename''
                in if filename = [] then http_error ''missing X-Atrium-Filename header'' 400 w
                   else
                     (let path = url_query_get r ''path'';
                          named = share_attrs share_id (se_email s) @ [attr_str ''file_name'' filename];
                          w1 = audit_log r level_audit event_upload_start
                            (named @ (if 0 \<le> rq_content_length r
                                      then [(''file_size'', LInt (rq_content_length r))] else [])) w;
                          body = max_bytes_reader (px_max_upload_size p) (rq_body r, rq_body_error r);
                          ctx = context_with_meta None (meta_from_request r)
                      in case st_upload (px_provider p) ctx share_id (se_email s) filename
                                (header_get (rq_headers r) ''Content-Type'') path body w1 of
                           (Inl e, w') \<Rightarrow>
                             if is_max_bytes e then too_large p w'
                             else write_provider_error r ''upload'' share_id (se_email s) e w'
                         | (Inr n, w') \<Rightarrow>
                             write_header 201 (audit_log r level_info event_upload_complete
                               (named @ [(''file_size'', LInt (int n))]) w'))))"

subsection \<open>The contract of a streamer\<close>

text \<open>
  What the handlers need of a backend: a call sends requests and touches nothing of the reply.
  Inside the locale a handler's reply is computed from the outcome of its one call.
\<close>

locale streaming =
  fixes s :: streamer
  assumes download_sends: "only_sends w (snd (st_download s ctx share_id email w))"
    and file_sends: "only_sends w (snd (st_download_file s ctx share_id file_id email w))"
    and upload_sends: "only_sends w (snd (st_upload s ctx share_id email filename ctype path body w))"
begin

lemma download_call:
  "st_download s ctx share_id email w = (res, v) \<Longrightarrow> only_sends w v"
  using download_sends [of w ctx share_id email] by simp

lemma file_call:
  "st_download_file s ctx share_id file_id email w = (res, v) \<Longrightarrow> only_sends w v"
  using file_sends [of w ctx share_id file_id email] by simp

lemma upload_call:
  "st_upload s ctx share_id email filename ctype path body w = (res, v) \<Longrightarrow> only_sends w v"
  using upload_sends [of w ctx share_id email filename ctype path body] by simp

end

definition client_streamer :: "provider_net \<Rightarrow> provider_client \<Rightarrow> instant \<Rightarrow> streamer" where
  "client_streamer net c now =
     \<lparr> st_download = download net c now, st_download_file = download_folder_file net c now,
       st_upload = upload net c now \<rparr>"

interpretation client_streaming: streaming "client_streamer net c now" for net c now
  by unfold_locales (simp_all add: client_streamer_def service_only_sends)

subsection \<open>Replies\<close>

definition refusal_text :: "nat \<Rightarrow> string" where
  "refusal_text n =
     (if n = 404 then ''Share not found'' else if n = 403 then ''Access denied''
      else if n = 410 then ''Share expired or download limit reached''
      else if n = 500 then ''An error occurred'' else ''Service temporarily unavailable'')"

definition refusal_status :: "go_error \<Rightarrow> nat" where
  "refusal_status e =
     (if errors_is e err_share_not_found then 404 else if errors_is e err_forbidden then 403
      else if errors_is e err_share_gone then 410 else if errors_is e err_unexpected_status then 500 else 503)"

lemma write_provider_error_reply:
  assumes "w_committed w = None"
  shows "status_of (write_provider_error r op share_id email e w) = refusal_status e"
    and "w_body (write_provider_error r op share_id email e w) = w_body w @ refusal_text (refusal_status e) @ newline"
    and "cookies_of (write_provider_error r op share_id email e w) = w_cookies w"
    and "w_sent (write_provider_error r op share_id email e w) = w_sent w"
    and "header_of (write_provider_error r op share_id email e w) =
       (w_header w)(''Content-Length'' := None, ''Content-Type'' \<mapsto> ''text/plain; charset=utf-8'',
         ''X-Content-Type-Options'' \<mapsto> ''nosniff'')"
  using assms
  by (simp_all add: write_provider_error_def refusal_status_def refusal_text_def http_error_reply writer_simps)

lemma write_provider_error_log:
  assumes "w_committed w = None"
  shows "\<exists>rec. w_log (write_provider_error r op share_id email e w) = w_log w @ [rec]
    \<and> (if share_condition e
       then lg_level rec = level_audit \<and> set (share_attrs share_id email) \<subseteq> set (lg_attrs rec)
       else lg_level rec = level_error)"
  using assms
  by (auto simp: write_provider_error_def share_condition_def http_error_reply writer_simps audit_record_def)

lemma only_sends_sent: "only_sends w v \<Longrightarrow> \<exists>qs. w_sent v = w_sent w @ qs"
  by (auto simp: only_sends_def)

lemma reply_parts:
  assumes "w_committed v = w_committed w" "w_header v = w_header w" "w_cookies v = w_cookies w"
  shows "status_of v = status_of w" "header_of v = header_of w" "cookies_of v = cookies_of w"
  using assms by (simp_all add: status_of_def header_of_def cookies_of_def finish_def write_header_def split: option.splits)

lemma log_reply:
  "status_of (log_plain l m a w) = status_of w" "header_of (log_plain l m a w) = header_of w"
  "cookies_of (log_plain l m a w) = cookies_of w"
  "status_of (audit_log r l m a w) = status_of w" "header_of (audit_log r l m a w) = header_of w"
  "cookies_of (audit_log r l m a w) = cookies_of w"
  by (rule reply_parts; simp add: writer_simps)+

lemma io_copy_reply:
  assumes "w_committed w = None" "io_copy room b w = ((n, e), v)"
  shows "\<exists>sent rest. fst b = sent @ rest \<and> w_body v = w_body w @ sent \<and> n = length sent \<and> status_of v = 200
     \<and> header_of v = w_header w \<and> cookies_of v = w_cookies w \<and> w_log v = w_log w \<and> w_sent v = w_sent w
     \<and> (e = None \<longleftrightarrow> rest = [] \<and> snd b = None)"
proof -
  have r: "status_of w = 200" "header_of w = w_header w" "cookies_of w = w_cookies w"
    using reply_uncommitted [OF assms(1)] by blast+
  show ?thesis
  proof (cases "\<exists>k. room = Some k \<and> k < length (fst b)")
    case True
    then obtain k where k: "room = Some k" "k < length (fst b)" by blast
    then have "fst b \<noteq> []" by auto
    with k assms(2) have v: "n = k" "e = Some (Plain ''write: broken pipe'')" "v = write_body (take k (fst b)) w"
      by (auto simp: io_copy_def)
    show ?thesis
      by (rule exI [of _ "take k (fst b)"], rule exI [of _ "drop k (fst b)"])
        (use k r in \<open>simp add: v write_body_reply writer_simps\<close>)
  next
    case False
    obtain bs be where b: "b = (bs, be)" by (cases b)
    from False have v: "n = length (fst b)" "e = snd b" "v = (if fst b = [] then w else write_body (fst b) w)"
      using assms(2) by (auto simp: b io_copy_def Let_def split: option.splits if_splits)
    show ?thesis
      by (rule exI [of _ "fst b"], rule exI [of _ "[]"])
        (use r in \<open>simp add: v write_body_reply writer_simps\<close>)
  qed
qed

text \<open>What a recipient and the log get of a content that is streamed.\<close>

definition content_header :: "content \<Rightarrow> string header_map \<Rightarrow> string header_map" where
  "content_header c h =
     (let h1 = (if ct_type c \<noteq> [] then h(''Content-Type'' \<mapsto> ct_type c) else h);
          h2 = (if ct_disposition c \<noteq> [] then h1(''Content-Disposition'' \<mapsto> ct_disposition c) else h1)
      in if 0 \<le> ct_length c then h2(''Content-Length'' \<mapsto> itoa (ct_length c)) else h2)"

lemma content_header_get:
  "content_header c h ''Content-Type'' = (if ct_type c \<noteq> [] then Some (ct_type c) else h ''Content-Type'')"
  "content_header c h ''Content-Disposition'' = (if ct_disposition c \<noteq> [] then Some (ct_disposition c) else h ''Content-Disposition'')"
  "k \<notin> {''Content-Type'', ''Content-Disposition'', ''Content-Length''} \<Longrightarrow> content_header c h k = h k"
  by (simp_all add: content_header_def Let_def)

lemma stream_content_reply:
  assumes "w_committed w = None" "v = stream_content room r share_id email c extra w"
  obtains sent rest fin where "ct_body c = sent @ rest" "w_body v = w_body w @ sent" "status_of v = 200"
    "cookies_of v = w_cookies w" "w_sent v = w_sent w" "header_of v = content_header c (w_header w)"
    "w_log v = w_log w @ [audit_record r level_audit event_download_start (share_attrs share_id email @ extra), fin]"
    "if rest = [] \<and> ct_body_error c = None
     then fin = audit_record r level_info event_download_complete
                  (share_attrs share_id email @ extra @ [(''file_size'', LInt (int (length sent)))])
     else lg_level fin = level_warn \<and> lg_msg fin = ''download stream interrupted''"
proof -
  let ?start = "audit_record r level_audit event_download_start (share_attrs share_id email @ extra)"
  let ?w1 = "audit_log r level_audit event_download_start (share_attrs share_id email @ extra) w"
  let ?w2 = "if ct_type c \<noteq> [] then w_set ''Content-Type'' (ct_type c) ?w1 else ?w1"
  let ?w3 = "if ct_disposition c \<noteq> [] then w_set ''Content-Disposition'' (ct_disposition c) ?w2 else ?w2"
  define w4 where "w4 = (if 0 \<le> ct_length c then w_set ''Content-Length'' (itoa (ct_length c)) ?w3 else ?w3)"
  have w4: "w_committed w4 = None" "w_body w4 = w_body w" "w_cookies w4 = w_cookies w" "w_sent w4 = w_sent w"
    "w_log w4 = w_log w @ [?start]" "w_header w4 = content_header c (w_header w)"
    using assms(1) by (simp_all add: w4_def content_header_def Let_def writer_simps)
  obtain n e w5 where cp: "io_copy room (ct_body c, ct_body_error c) w4 = ((n, e), w5)" by (metis surj_pair)
  obtain sent rest where io: "ct_body c = sent @ rest" "w_body w5 = w_body w @ sent" "n = length sent"
    "status_of w5 = 200" "header_of w5 = content_header c (w_header w)" "cookies_of w5 = w_cookies w"
    "w_log w5 = w_log w @ [?start]" "w_sent w5 = w_sent w" "e = None \<longleftrightarrow> rest = [] \<and> ct_body_error c = None"
    using io_copy_reply [OF w4(1) cp] unfolding w4 by auto
  have v: "v = (case e of
           Some e \<Rightarrow> log_plain level_warn ''download stream interrupted'' [attr_str ''share_id'' share_id, attr_err e] w5
         | None \<Rightarrow> audit_log r level_info event_download_complete
                    (share_attrs share_id email @ extra @ [(''file_size'', LInt (int n))]) w5)"
    unfolding assms(2) stream_content_def Let_def using cp by (simp add: w4_def)
  show thesis
  proof (cases e)
    case None
    with io(9) have "rest = [] \<and> ct_body_error c = None" by blast
    then show thesis
      by (intro that [of sent rest "audit_record r level_info event_download_complete
                  (share_attrs share_id email @ extra @ [(''file_size'', LInt (int (length sent)))])"])
        (use io(1-8) None in \<open>simp_all add: v log_reply writer_simps\<close>)
  next
    case (Some x)
    with io(9) have r: "\<not> (rest = [] \<and> ct_body_error c = None)" by simp
    show thesis
      by (intro that [of sent rest "\<lparr> lg_level = level_warn, lg_msg = ''download stream interrupted'',
                  lg_attrs = [attr_str ''share_id'' share_id, attr_err x] \<rparr>"], unfold if_not_P [OF r])
        (use io(1-8) Some in \<open>simp_all add: v log_reply writer_simps\<close>)
  qed
qed

subsection \<open>Properties\<close>

abbreviation gateway_proxy :: "provider_net \<Rightarrow> provider_client \<Rightarrow> instant \<Rightarrow> int \<Rightarrow> stream_proxy" where
  "gateway_proxy net c now lim \<equiv> new_proxy (client_streamer net c now) lim"

lemma new_proxy_parts [simp]:
  "px_provider (new_proxy s m) = s" "px_max_upload_size (new_proxy s m) = m"
  by (simp_all add: new_proxy_def)

lemma client_streamer_parts [simp]:
  "st_download (client_streamer net c now) = download net c now"
  "st_download_file (client_streamer net c now) = download_folder_file net c now"
  "st_upload (client_streamer net c now) = upload net c now"
  by (simp_all add: client_streamer_def)

lemma event_names_differ:
  "event_download_start \<noteq> event_download_complete" "event_download_complete \<noteq> ''download stream interrupted''"
  by (simp_all add: event_defs)


text \<open>C27: What the backend says in a refusal never reaches the recipient.  The reply to a download the
  provider answered with a non-success status is one of four fixed texts, chosen by the status
  alone; nothing of the provider's headers or body is in it.  A refusal about the share (403, 404,
  410) leaves one audit record with the share and the recipient, any other one operator error.\<close>

theorem backend_refusal_is_opaque:
  assumes "session_from_context r = Some s" "path_value r ''shareID'' = share_id"
    and "create_token net c now share_id (se_email s) ''download'' (meta_from_request r) = Inr token"
    and "url_parse (pc_base_url c @ share_path share_id @ ''/content'') \<noteq> None"
    and "pn_transport net (build_request c (pc_stream_timeout c) ''GET'' (share_path share_id @ ''/content'') token no_body [])
       = Inr resp" "\<not> (200 \<le> rp_status resp \<and> rp_status resp < 300)"
    and "v = handle_download room (gateway_proxy net c now lim) r new_writer"
  shows "status_of v = (if rp_status resp \<in> {403, 404, 410} then rp_status resp else 500)
    \<and> w_body v = refusal_text (status_of v) @ newline \<and> cookies_of v = []
    \<and> header_of v = [''Content-Type'' \<mapsto> ''text/plain; charset=utf-8'', ''X-Content-Type-Options'' \<mapsto> ''nosniff'']
    \<and> (\<exists>rec. w_log v = [rec] \<and> (if rp_status resp \<in> {403, 404, 410}
          then lg_level rec = level_audit \<and> set (share_attrs share_id (se_email s)) \<subseteq> set (lg_attrs rec)
          else lg_level rec = level_error))"
proof -
  let ?e = "map_error_status (rp_status resp)"
  let ?w = "record_sent (build_request c (pc_stream_timeout c) ''GET'' (share_path share_id @ ''/content'') token no_body []) new_writer"
  have "download net c now (Some (meta_from_request r)) share_id (se_email s) new_writer = (Inl ?e, ?w)"
    unfolding download_def
    by (subst provider_request_answered [OF _ assms(4,5)])
      (use assms(3,6) in \<open>auto simp: meta_from_context_def map_result_def\<close>)
  then have "v = write_provider_error r ''download'' share_id (se_email s) ?e ?w"
    using assms(1,2,7) by (simp add: handle_download_def Let_def context_with_meta_def)
  moreover have "refusal_status ?e = (if rp_status resp \<in> {403, 404, 410} then rp_status resp else 500)"
    "share_condition ?e \<longleftrightarrow> rp_status resp \<in> {403, 404, 410}"
    by (simp_all add: refusal_status_def share_condition_def map_error_status_def provider_errors)
  ultimately show ?thesis
    using write_provider_error_reply [of ?w r "''download''" share_id "se_email s" ?e]
      write_provider_error_log [of ?w r "''download''" share_id "se_email s" ?e]
    by (simp add: writer_simps fun_upd_twist)
qed

lemma max_bytes_reader_parts:
  "length (fst (max_bytes_reader n b)) \<le> nat n" "\<exists>rest. fst b = fst (max_bytes_reader n b) @ rest"
  "nat n < length (fst b) \<Longrightarrow> snd (max_bytes_reader n b) = Some (MaxBytesError (max 0 n))"
  "length (fst b) \<le> nat n \<Longrightarrow> max_bytes_reader n b = b"
proof -
  show "\<exists>rest. fst b = fst (max_bytes_reader n b) @ rest"
    by (rule exI [of _ "drop (nat n) (fst b)"]) (simp add: max_bytes_reader_def Let_def)
qed (simp_all add: max_bytes_reader_def Let_def)

lemma handle_upload_call:
  assumes "session_from_context r = Some s"
  shows "(\<exists>st m. (px_max_upload_size p < rq_content_length r \<longleftrightarrow> st = 413) \<and> handle_upload p r w = http_error m st w)
    \<or> (\<exists>w1 f ctx x. rq_content_length r \<le> px_max_upload_size p \<and> f \<noteq> []
         \<and> f = header_get (rq_headers r) ''X-Atrium-Filename'' \<and> ctx = Some (meta_from_request r)
         \<and> x = share_attrs (path_value r ''shareID'') (se_email s) @ [attr_str ''file_name'' f]
         \<and> w1 = audit_log r level_audit event_upload_start
             (x @ (if 0 \<le> rq_content_length r then [(''file_size'', LInt (rq_content_length r))] else [])) w
         \<and> handle_upload p r w =
             (case st_upload (px_provider p) ctx (path_value r ''shareID'') (se_email s) f
                (header_get (rq_headers r) ''Content-Type'') (url_query_get r ''path'')
                (max_bytes_reader (px_max_upload_size p) (rq_body r, rq_body_error r)) w1 of
                (Inl e, w') \<Rightarrow> if is_max_bytes e then too_large p w'
                               else write_provider_error r ''upload'' (path_value r ''shareID'') (se_email s) e w'
              | (Inr n, w') \<Rightarrow> write_header 201 (audit_log r level_info event_upload_complete (x @ [(''file_size'', LInt (int n))]) w')))"
  using assms by (auto simp: handle_upload_def Let_def too_large_def context_with_meta_def intro: exI [of _ 400])

lemma upload_call_sent:
  assumes "upload net c now ctx share_id email f ctype path body w = (res, v)"
  shows "w_sent v = w_sent w \<or> (\<exists>q. w_sent v = w_sent w @ [q] \<and> og_method q = ''POST'' \<and> og_body q = fst body
    \<and> og_body_error q = snd body \<and> signed_for net c now share_id email ''upload'' q)"
proof -
  let ?hs = "[(''Content-Type'', ctype), (''X-Atrium-Filename'', f)]"
  let ?p = "with_path (share_path share_id @ ''/upload'') path"
  have "v = snd (provider_request net c now ctx (pc_stream_timeout c) ''POST'' ?p share_id email ''upload'' body ?hs w)"
    using assms by (metis upload_def map_result_snd snd_conv)
  with provider_request_signed [of ?hs net c now ctx "pc_stream_timeout c" "''POST''" ?p share_id email "''upload''" body w]
  show ?thesis by auto
qed

lemma handle_upload_sent:
  assumes "session_from_context r = Some s"
  shows "w_sent (handle_upload (gateway_proxy net c now lim) r new_writer) = []
    \<or> rq_content_length r \<le> lim \<and> (\<exists>q. w_sent (handle_upload (gateway_proxy net c now lim) r new_writer) = [q]
         \<and> og_method q = ''POST'' \<and> (og_body q, og_body_error q) = max_bytes_reader lim (rq_body r, rq_body_error r)
         \<and> signed_for net c now (path_value r ''shareID'') (se_email s) ''upload'' q)"
  using handle_upload_call [OF assms, of "gateway_proxy net c now lim" new_writer]
proof (elim disjE exE conjE)
  fix w1 f ctx x
  let ?b = "max_bytes_reader lim (rq_body r, rq_body_error r)"
  let ?call = "upload net c now ctx (path_value r ''shareID'') (se_email s) f (header_get (rq_headers r) ''Content-Type'')
    (url_query_get r ''path'') ?b w1"
  assume len: "rq_content_length r \<le> px_max_upload_size (gateway_proxy net c now lim)"
    and w1: "w1 = audit_log r level_audit event_upload_start
      (x @ (if 0 \<le> rq_content_length r then [(''file_size'', LInt (rq_content_length r))] else [])) new_writer"
    and h: "handle_upload (gateway_proxy net c now lim) r new_writer =
      (case st_upload (px_provider (gateway_proxy net c now lim)) ctx (path_value r ''shareID'') (se_email s) f
          (header_get (rq_headers r) ''Content-Type'') (url_query_get r ''path'')
          (max_bytes_reader (px_max_upload_size (gateway_proxy net c now lim)) (rq_body r, rq_body_error r)) w1 of
         (Inl e, w') \<Rightarrow> if is_max_bytes e then too_large (gateway_proxy net c now lim) w'
                        else write_provider_error r ''upload'' (path_value r ''shareID'') (se_email s) e w'
       | (Inr n, w') \<Rightarrow> write_header 201 (audit_log r level_info event_upload_complete (x @ [(''file_size'', LInt (int n))]) w'))"
  obtain res w' where u: "?call = (res, w')" by fastforce
  have c: "w_committed w1 = None" "w_sent w1 = []" by (simp_all add: w1 writer_simps)
  have "w_committed w' = None"
    using only_sends_parts(3) [OF client_streaming.upload_call [unfolded client_streamer_parts, OF u]] c(1) by simp
  then have "w_sent (handle_upload (gateway_proxy net c now lim) r new_writer) = w_sent w'"
    by (simp add: h u too_large_def http_error_reply write_provider_error_reply writer_simps split: sum.splits)
  with upload_call_sent [OF u] c(2) len show ?thesis by auto
qed (simp add: http_error_reply writer_simps)

text \<open>C6: The upload limit holds whatever the client declares.  An upload sends the provider at most
  one request, a prefix of the body the client sent of at most the configured number of bytes,
  signed for the session's recipient and the share of the path; a prefix cut short ends with the
  limit's error, so it never passes for the whole file.  A body declared larger is refused with 413
  before anything is sent or audited.\<close>

theorem upload_limit_is_enforced:
  assumes "session_from_context r = Some s" "0 \<le> lim" "v = handle_upload (gateway_proxy net c now lim) r new_writer"
  shows "length (w_sent v) \<le> 1
    \<and> (\<forall>q \<in> set (w_sent v). int (length (og_body q)) \<le> lim
         \<and> (\<exists>rest. rq_body r = og_body q @ rest \<and> (rest \<noteq> [] \<longrightarrow> og_body_error q = Some (MaxBytesError lim)))
         \<and> signed_for net c now (path_value r ''shareID'') (se_email s) ''upload'' q)
    \<and> (lim < rq_content_length r \<longrightarrow> status_of v = 413 \<and> w_sent v = [] \<and> w_log v = [])"
proof -
  let ?b = "max_bytes_reader lim (rq_body r, rq_body_error r)"
  have "status_of v = 413 \<and> w_sent v = [] \<and> w_log v = []" if "lim < rq_content_length r"
    using that assms by (simp add: handle_upload_def Let_def too_large_def http_error_reply writer_simps)
  moreover have "int (length (fst ?b)) \<le> lim"
    using max_bytes_reader_parts(1) [of lim "(rq_body r, rq_body_error r)"] assms(2) by linarith
  moreover have "\<exists>rest. rq_body r = fst ?b @ rest \<and> (rest \<noteq> [] \<longrightarrow> snd ?b = Some (MaxBytesError lim))"
    using assms(2) by (auto simp: max_bytes_reader_def Let_def intro: exI [of _ "drop (nat lim) (rq_body r)"])
  ultimately show ?thesis
    using handle_upload_sent [OF assms(1), of net c now lim] unfolding assms(3) [symmetric]
    by (elim disjE conjE exE; simp) (metis fst_conv snd_conv)
qed

text \<open>An upload is acknowledged only as a whole.  With a transport that hands the reader's error on,
  a body over the limit is answered 413, and a body within it that the provider accepts is answered
  201 and logged as complete with the bytes the provider took.\<close>

theorem upload_acknowledged_or_too_large:
  assumes "session_from_context r = Some s" "header_get (rq_headers r) ''X-Atrium-Filename'' = f" "f \<noteq> []"
    and "rq_content_length r \<le> lim" "0 \<le> lim" "rq_body_error r = None"
    and "\<And>s e a m. \<exists>t. create_token net c now s e a m = Inr t"
    and "url_parse (pc_base_url c @ with_path (share_path (path_value r ''shareID'') @ ''/upload'') (url_query_get r ''path'')) \<noteq> None"
    and "\<And>q e. og_body_error q = Some e \<Longrightarrow> \<exists>e'. pn_transport net q = Inl e' \<and> is_max_bytes e' = is_max_bytes e"
    and "\<And>q. og_body_error q = None \<Longrightarrow> \<exists>resp. pn_transport net q = Inr resp \<and> 200 \<le> rp_status resp \<and> rp_status resp < 300
          \<and> rp_taken resp = length (og_body q)"
    and "v = handle_upload (gateway_proxy net c now lim) r new_writer"
  shows "if lim < int (length (rq_body r)) then status_of v = 413
    else status_of v = 201 \<and> last (w_log v) = audit_record r level_info event_upload_complete
      (share_attrs (path_value r ''shareID'') (se_email s) @
        [attr_str ''file_name'' f, (''file_size'', LInt (int (length (rq_body r))))])"
proof -
  let ?ctx = "Some (meta_from_request r)"
  let ?sid = "path_value r ''shareID''"
  let ?b = "max_bytes_reader lim (rq_body r, rq_body_error r)"
  let ?hs = "[(''Content-Type'', header_get (rq_headers r) ''Content-Type''), (''X-Atrium-Filename'', f)]"
  let ?p = "with_path (share_path ?sid @ ''/upload'') (url_query_get r ''path'')"
  let ?named = "share_attrs ?sid (se_email s) @ [attr_str ''file_name'' f]"
  obtain t where t: "create_token net c now ?sid (se_email s) ''upload'' (meta_from_context ?ctx) = Inr t" using assms(7) by blast
  define w1 where "w1 = audit_log r level_audit event_upload_start
      (?named @ (if 0 \<le> rq_content_length r then [(''file_size'', LInt (rq_content_length r))] else [])) new_writer"
  let ?q = "build_request c (pc_stream_timeout c) ''POST'' ?p t ?b ?hs"
  let ?w = "record_sent ?q w1"
  have w: "w_committed ?w = None" by (simp add: w1_def writer_simps)
  have v: "v = (case upload net c now ?ctx ?sid (se_email s) f (header_get (rq_headers r) ''Content-Type'') (url_query_get r ''path'') ?b w1 of
      (Inl e, w') \<Rightarrow> if is_max_bytes e then too_large (gateway_proxy net c now lim) w'
                     else write_provider_error r ''upload'' ?sid (se_email s) e w'
    | (Inr n, w') \<Rightarrow> write_header 201 (audit_log r level_info event_upload_complete (?named @ [(''file_size'', LInt (int n))]) w'))"
    using assms(1-4) unfolding assms(11) w1_def by (simp add: handle_upload_def Let_def context_with_meta_def)
  show ?thesis
  proof (cases "lim < int (length (rq_body r))")
    case True
    then have e: "og_body_error ?q = Some (MaxBytesError lim)"
      using assms(5) max_bytes_reader_parts(3) [of lim "(rq_body r, rq_body_error r)"] by simp
    obtain e' where e': "pn_transport net ?q = Inl e'" "is_max_bytes e'" using assms(9) [OF e] by auto
    obtain u where "url_parse (pc_base_url c @ ?p) = Some u" using assms(8) by blast
    then have "provider_request net c now ?ctx (pc_stream_timeout c) ''POST'' ?p ?sid (se_email s) ''upload'' ?b ?hs w1
        = (Inl (Wrap (''call provider '' @ ''POST'' @ '' '' @ ?p @ '': '') e' []), ?w)"
      using t e'(1) by (simp add: provider_request_def Let_def)
    then have "v = too_large (gateway_proxy net c now lim) ?w"
      using e'(2) unfolding v upload_def by (simp add: map_result_def)
    with w True show ?thesis by (simp add: too_large_def http_error_reply)
  next
    case False
    then have b: "?b = (rq_body r, None)"
      using assms(5,6) max_bytes_reader_parts(4) [of "(rq_body r, rq_body_error r)" lim] by simp
    obtain resp where resp: "pn_transport net ?q = Inr resp" "200 \<le> rp_status resp \<and> rp_status resp < 300"
      "rp_taken resp = length (rq_body r)" using assms(10) [of ?q] unfolding b by auto
    have "v = write_header 201 (audit_log r level_info event_upload_complete (?named @ [(''file_size'', LInt (int (length (rq_body r))))]) ?w)"
      using resp(2,3) provider_request_answered [OF t assms(8) resp(1), of w1] unfolding v upload_def by (simp add: map_result_def)
    with w False show ?thesis by (simp add: write_header_status writer_simps)
  qed
qed

subsection \<open>Examples\<close>

definition sample_transfer :: gw_request where
  "sample_transfer = (with_session (gw_get ''/'') sample_session)
     \<lparr> rq_path_values := [''shareID'' \<mapsto> ''7''], rq_headers := [''X-Atrium-Filename'' \<mapsto> ''a.txt''],
       rq_content_length := -1, rq_body := ''hello'' \<rparr>"

lemma sample_transfer_parts [simp]:
  "session_from_context sample_transfer = Some sample_session" "path_value sample_transfer ''shareID'' = ''7''"
  "header_get (rq_headers sample_transfer) ''X-Atrium-Filename'' = ''a.txt''" "rq_content_length sample_transfer = -1"
  "rq_body sample_transfer = ''hello''" "rq_body_error sample_transfer = None"
  by (simp_all add: sample_transfer_def session_from_context_def with_session_def path_value_def header_get_def gw_get_def
      get_request_def request.defs gw_request.defs)

lemma sample_transfer_query: "url_query_get sample_transfer ''path'' = []"
proof -
  have "query_get [] ''path'' = []" by code_simp
  then show ?thesis
    by (simp add: sample_transfer_def with_session_def url_query_get_def gw_get_def get_request_def request.defs
        gw_request.defs empty_url_def)
qed


lemma backend_refusal_is_opaque_witness:
  "\<exists>v. status_of v = 410 \<and> w_body v = ''Share expired or download limit reached'' @ newline
    \<and> v = handle_download None (gateway_proxy (sample_net 410 ''SQL error'') sample_client 0 100) sample_transfer new_writer"
proof -
  let ?resp = "\<lparr> rp_status = 410, rp_header = [''Content-Type'' \<mapsto> ''text/plain''],
     rp_content_length = 9, rp_body = ''SQL error'', rp_body_error = None, rp_taken = 0 \<rparr>"
  have "pn_transport (sample_net 410 ''SQL error'') (build_request sample_client (pc_stream_timeout sample_client) ''GET''
      (share_path ''7'' @ ''/content'') ''a.b.c'' no_body []) = Inr ?resp"
    by (simp add: no_body_def)
  from backend_refusal_is_opaque [OF sample_transfer_parts(1,2) _ sample_urls(2) this _ refl, of 0 None 100]
  show ?thesis by (simp add: refusal_text_def)
qed

lemma upload_limit_is_enforced_witness:
  "length (w_sent (handle_upload (gateway_proxy (sample_net 201 []) sample_client 0 3) sample_transfer new_writer)) \<le> 1"
  using upload_limit_is_enforced [OF sample_transfer_parts(1) _ refl, of 3 "sample_net 201 []" sample_client 0] by simp

lemma upload_acknowledged_or_too_large_witness:
  "status_of (handle_upload (gateway_proxy (sample_net 201 []) sample_client 0 3) sample_transfer new_writer) = 413
   \<and> status_of (handle_upload (gateway_proxy (sample_net 201 []) sample_client 0 5) sample_transfer new_writer) = 201"
proof -
  let ?net = "sample_net 201 []"
  have t: "\<exists>t. create_token ?net sample_client 0 s e a m = Inr t" for s e a m by simp
  have u: "url_parse (pc_base_url sample_client @ with_path (share_path (path_value sample_transfer ''shareID'') @ ''/upload'')
      (url_query_get sample_transfer ''path'')) \<noteq> None"
    using sample_urls(3) by (simp add: with_path_def sample_transfer_query)
  have bad: "\<exists>e'. pn_transport ?net q = Inl e' \<and> is_max_bytes e' = is_max_bytes e" if "og_body_error q = Some e" for q e
    using that by (simp add: sample_net_def)
  have ok: "\<exists>resp. pn_transport ?net q = Inr resp \<and> 200 \<le> rp_status resp \<and> rp_status resp < 300
      \<and> rp_taken resp = length (og_body q)" if "og_body_error q = None" for q
    using that by simp
  note c = upload_acknowledged_or_too_large [OF sample_transfer_parts(1,3) _ _ _ sample_transfer_parts(6) t u bad ok refl]
  show ?thesis using c [of 3] c [of 5] by simp
qed

end
