(* ===== verification/Reply_Invariant.thy ===== *)
theory Reply_Invariant
  imports Middleware
begin

section \<open>Invariants of a reply\<close>

text \<open>
  A property of the whole gateway, such as a header every reply carries or a condition on every
  request sent to the provider, is an invariant of the response writer.  The locale
  \<open>reply_invariant\<close> fixes one by its behaviour under the writer's primitive operations; inside
  it the invariant is carried through the helpers of \<open>net/http\<close>, the middleware and, in later
  theories, every handler.  The invariant the gateway's properties use, \<open>reply_ok\<close>, is the
  interpretation at the end.
\<close>

definition newly_sent :: "writer \<Rightarrow> writer \<Rightarrow> outgoing list" where
  "newly_sent w v = drop (length (w_sent w)) (w_sent v)"

text \<open>The headers handlers set freely.\<close>

definition open_headers :: "string set" where
  "open_headers = {''Content-Type'', ''Content-Length'', ''Content-Disposition'', ''Content-Encoding'',
      ''Content-Range'', ''Accept-Ranges'', ''Last-Modified'', ''Etag'', ''Location'', ''Allow'', ''Connection'',
      ''Cache-Control'', session_expires_header}"

locale reply_invariant =
  fixes inv :: "writer \<Rightarrow> bool"
    and guarded :: "string set"
    and allowed :: "outgoing \<Rightarrow> bool"
  assumes inv_set: "k \<notin> guarded \<Longrightarrow> inv w \<Longrightarrow> inv (w_set k v w)"
    and inv_nosniff: "inv w \<Longrightarrow> inv (w_set ''X-Content-Type-Options'' ''nosniff'' w)"
    and inv_del: "k \<notin> guarded \<Longrightarrow> inv w \<Longrightarrow> inv (w_del k w)"
    and inv_cookie: "inv w \<Longrightarrow> inv (set_cookie c w)"
    and inv_commit: "inv w \<Longrightarrow> inv (write_header n w)"
    and inv_body: "inv w \<Longrightarrow> inv (w\<lparr> w_body := b \<rparr>)"
    and inv_log: "inv w \<Longrightarrow> inv (w\<lparr> w_log := l \<rparr>)"
    and inv_sends: "inv w \<Longrightarrow> only_sends w w2 \<Longrightarrow> (\<And>q. q \<in> set (newly_sent w w2) \<Longrightarrow> allowed q) \<Longrightarrow> inv w2"
    and free_headers: "guarded \<inter> open_headers = {}"
begin

lemma free:
  "''Content-Type'' \<notin> guarded" "''Content-Length'' \<notin> guarded" "''Content-Disposition'' \<notin> guarded"
  "''Content-Encoding'' \<notin> guarded" "''Content-Range'' \<notin> guarded" "''Accept-Ranges'' \<notin> guarded"
  "''Last-Modified'' \<notin> guarded" "''Etag'' \<notin> guarded" "''Location'' \<notin> guarded" "''Allow'' \<notin> guarded"
  "''Connection'' \<notin> guarded" "''Cache-Control'' \<notin> guarded" "session_expires_header \<notin> guarded"
proof -
  have f: "k \<in> open_headers \<Longrightarrow> k \<notin> guarded" for k using free_headers by blast
  show "''Content-Type'' \<notin> guarded" "''Content-Length'' \<notin> guarded" "''Content-Disposition'' \<notin> guarded"
    "''Content-Encoding'' \<notin> guarded" "''Content-Range'' \<notin> guarded" "''Accept-Ranges'' \<notin> guarded"
    "''Last-Modified'' \<notin> guarded" "''Etag'' \<notin> guarded" "''Location'' \<notin> guarded" "''Allow'' \<notin> guarded"
    "''Connection'' \<notin> guarded" "''Cache-Control'' \<notin> guarded" "session_expires_header \<notin> guarded"
    by (rule f, simp add: open_headers_def)+
qed

lemmas keep_set = free [THEN inv_set]
lemmas keep_del = free [THEN inv_del]

lemma keep_write_body: "inv w \<Longrightarrow> inv (write_body s w)"
  by (simp add: write_body_def Let_def inv_commit inv_body)

lemma keep_log_to: "inv w \<Longrightarrow> inv (log_to e w)"
  by (simp add: log_to_def inv_log)

lemma keep_log_plain: "inv w \<Longrightarrow> inv (log_plain l m a w)"
  by (simp add: log_plain_def keep_log_to)

lemma keep_audit_log: "inv w \<Longrightarrow> inv (audit_log r l e x w)"
  by (simp add: audit_log_def keep_log_to)

lemma keep_encode_json: "inv w \<Longrightarrow> inv (encode_json v w)"
  by (simp add: encode_json_def keep_write_body)

lemma keep_if: "inv a \<Longrightarrow> inv b \<Longrightarrow> inv (if c then a else b)"
  by simp

lemmas keep_basic = keep_if keep_set keep_del inv_nosniff inv_cookie inv_commit keep_write_body keep_log_to keep_log_plain
  keep_audit_log keep_encode_json

lemma keep_http_error: "inv w \<Longrightarrow> inv (http_error m n w)"
  by (simp add: http_error_def keep_basic)

lemma keep_redirect: "inv w \<Longrightarrow> inv (http_redirect r t n w)"
  by (simp add: http_redirect_def Let_def keep_basic)

lemmas keep_replies = keep_basic keep_http_error keep_redirect

lemma keep_validate: "inv w \<Longrightarrow> inv (snd (validate_session_cookie env a r w))"
  by (auto simp: validate_session_cookie_def Let_def keep_replies split: option.splits sum.splits)

lemma keep_deny: "inv w \<Longrightarrow> inv (deny_unauthenticated r w)"
  by (simp add: deny_unauthenticated_def Let_def keep_replies)

lemma keep_touch: "inv w \<Longrightarrow> inv (snd (touch_session env a w d))"
  by (auto simp: touch_session_def Let_def keep_replies split: sum.splits)

text \<open>
  Behind \<open>RequireAuth\<close> a handler may rely on a session whose identity is that of the
  validated cookie.
\<close>

lemma keep_require_auth:
  assumes "inv w"
    and "\<And>d d' w'. fst (validate_session_cookie env a r w) = Inr d \<Longrightarrow> se_email d' = se_email d \<Longrightarrow> inv w'
      \<Longrightarrow> inv (h (with_session r d') w')"
  shows "inv (require_auth env a h r w)"
proof -
  obtain res w1 where v: "validate_session_cookie env a r w = (res, w1)" by fastforce
  have w1: "inv w1" using keep_validate [OF assms(1), of env a r] by (simp add: v)
  show ?thesis
  proof (cases res)
    case (Inl e)
    with w1 show ?thesis by (simp add: require_auth_def v keep_deny inv_cookie)
  next
    case (Inr d)
    obtain d' w' where t: "touch_session env a w1 d = (d', w')" by fastforce
    have "se_email d' = se_email d" using touch_session_identity [of env a w1 d] by (auto simp: t)
    moreover have "inv w'" using keep_touch [OF w1, of env a d] by (simp add: t)
    ultimately show ?thesis using assms(2) [of d d' w'] Inr by (simp add: require_auth_def v t)
  qed
qed

lemma keep_logout: "inv w \<Longrightarrow> inv (logout_handler env a r w)"
proof -
  assume w: "inv w"
  obtain res w1 where v: "validate_session_cookie env a r w = (res, w1)" by fastforce
  have "inv w1" using keep_validate [OF w, of env a r] by (simp add: v)
  then show ?thesis
    by (cases res) (auto simp: logout_handler_def v Let_def keep_replies)
qed

end

subsection \<open>The invariant of the gateway\<close>

text \<open>
  The guarded headers have their values from \<open>h\<close>, set and already committed ones alike, and
  every request sent is allowed.
\<close>

definition reply_ok :: "string set \<Rightarrow> string header_map \<Rightarrow> (outgoing \<Rightarrow> bool) \<Rightarrow> writer \<Rightarrow> bool" where
  "reply_ok guarded h allowed w \<longleftrightarrow>
     (\<forall>k \<in> guarded. w_header w k = h k)
     \<and> (\<forall>c. w_committed w = Some c \<longrightarrow> (\<forall>k \<in> guarded. cm_header c k = h k))
     \<and> (\<forall>q \<in> set (w_sent w). allowed q)"

lemma reply_ok_headers: "reply_ok guarded h allowed w \<Longrightarrow> k \<in> guarded \<Longrightarrow> header_of w k = h k"
  by (cases "w_committed w") (auto simp: reply_ok_def header_of_def finish_def write_header_def)

lemma reply_ok_sent: "reply_ok guarded h allowed w \<Longrightarrow> q \<in> set (w_sent w) \<Longrightarrow> allowed q"
  by (simp add: reply_ok_def)

lemma reply_ok_invariant:
  assumes "guarded \<inter> open_headers = {}" "h ''X-Content-Type-Options'' = Some ''nosniff''"
  shows "reply_invariant (reply_ok guarded h allowed) guarded allowed"
proof
  show "reply_ok guarded h allowed w \<Longrightarrow> reply_ok guarded h allowed (write_header n w)" for w n
    by (cases "w_committed w") (auto simp: reply_ok_def write_header_def)
  show "reply_ok guarded h allowed v"
    if w: "reply_ok guarded h allowed w" and s: "only_sends w v" and q: "\<And>q. q \<in> set (newly_sent w v) \<Longrightarrow> allowed q" for w v
  proof -
    obtain qs where v: "v = w\<lparr> w_sent := w_sent w @ qs \<rparr>" using s by (auto simp: only_sends_def)
    then have "newly_sent w v = qs" by (simp add: newly_sent_def)
    with w q show ?thesis by (auto simp: reply_ok_def v)
  qed
qed (use assms in \<open>auto simp: reply_ok_def writer_simps\<close>)

text \<open>With nothing guarded it is a statement about the requests sent alone.\<close>

interpretation sent_invariant: reply_invariant "reply_ok {} [''X-Content-Type-Options'' \<mapsto> ''nosniff''] allowed" "{}" allowed
  for allowed
  by (rule reply_ok_invariant) simp_all

end
