(* ===== verification/Go_Mux.thy ===== *)
theory Go_Mux
  imports Reply_Invariant
begin

section \<open>Request routing (\<open>net/http.ServeMux\<close>)\<close>

text \<open>
  The routing of the standard library's multiplexer: patterns with a method, literal segments,
  named one-segment wildcards and a trailing slash that matches a subtree.  Matching goes by the
  method first, then segment by segment, literals before wildcards before subtrees.  The path is
  the escaped one and each segment is unescaped by itself, so an escaped slash never separates
  segments.  A path that is not clean is redirected, and so is the root of a subtree without its
  slash.  No pattern here names a host.
\<close>

datatype path_seg = SLit string | SWild string | SSub

type_synonym 'h route = "string option \<times> path_seg list \<times> 'h"

subsection \<open>Patterns\<close>

definition pattern_seg :: "string \<Rightarrow> path_seg" where
  "pattern_seg s = (if has_prefix s ''{'' \<and> has_suffix s ''}'' then SWild (butlast (tl s)) else SLit s)"

definition pattern_path :: "string \<Rightarrow> path_seg list" where
  "pattern_path p =
     (let parts = split_on (CHR ''/'') (tl p)
      in if last parts = [] then map pattern_seg (butlast parts) @ [SSub] else map pattern_seg parts)"

definition pattern_of :: "string \<Rightarrow> string option \<times> path_seg list" where
  "pattern_of pat =
     (case cut pat '' '' of (meth, p, found) \<Rightarrow> if found then (Some meth, pattern_path p) else (None, pattern_path meth))"

definition route :: "string \<Rightarrow> 'h \<Rightarrow> 'h route" where
  "route pat h = (fst (pattern_of pat), snd (pattern_of pat), h)"

subsection \<open>Matching\<close>

definition path_unescape :: "string \<Rightarrow> string" where
  "path_unescape s = (case url_unescape EncPathSegment s of Some t \<Rightarrow> t | None \<Rightarrow> s)"

definition mux_segments :: "string \<Rightarrow> string list" where
  "mux_segments p =
     (let parts = split_on (CHR ''/'') (tl p)
      in map path_unescape (butlast parts) @ [if last parts = [] then ''/'' else path_unescape (last parts)])"

text \<open>The candidates whose first segment is the literal \<open>s\<close>, or a wildcard, without that segment.\<close>

definition lits :: "string \<Rightarrow> (path_seg list \<times> 'p) list \<Rightarrow> (path_seg list \<times> 'p) list" where
  "lits s cs = concat (map (\<lambda>(ps, x). case ps of SLit t # qs \<Rightarrow> if t = s then [(qs, x)] else [] | _ \<Rightarrow> []) cs)"

definition wilds :: "(path_seg list \<times> 'p) list \<Rightarrow> (path_seg list \<times> 'p) list" where
  "wilds cs = concat (map (\<lambda>(ps, x). case ps of SWild _ # qs \<Rightarrow> [(qs, x)] | _ \<Rightarrow> []) cs)"

definition ended :: "path_seg list \<Rightarrow> (path_seg list \<times> 'p) list \<Rightarrow> 'p option" where
  "ended e cs = (case filter (\<lambda>c. fst c = e) cs of [] \<Rightarrow> None | c # _ \<Rightarrow> Some (snd c))"

definition or_else :: "'a option \<Rightarrow> 'a option \<Rightarrow> 'a option" where
  "or_else x y = (case x of None \<Rightarrow> y | Some a \<Rightarrow> Some a)"

fun match_path :: "(path_seg list \<times> 'p) list \<Rightarrow> string list \<Rightarrow> string list \<Rightarrow> ('p \<times> string list) option" where
  "match_path cs [] ms = map_option (\<lambda>p. (p, ms)) (ended [] cs)"
| "match_path cs (s # ss) ms =
     or_else (match_path (lits s cs) ss ms)
       (or_else (if s \<noteq> ''/'' then match_path (wilds cs) ss (ms @ [s]) else None)
         (map_option (\<lambda>p. (p, ms)) (ended [SSub] cs)))"

definition of_method :: "string option \<Rightarrow> 'h route list \<Rightarrow> (path_seg list \<times> 'h route) list" where
  "of_method m rs = map (\<lambda>r. (fst (snd r), r)) (filter (\<lambda>r. fst r = m) rs)"

definition mux_match :: "'h route list \<Rightarrow> string \<Rightarrow> string \<Rightarrow> ('h route \<times> string list) option" where
  "mux_match rs meth path =
     or_else (match_path (of_method (Some meth) rs) (mux_segments path) [])
       (or_else (if meth = ''HEAD'' then match_path (of_method (Some ''GET'') rs) (mux_segments path) [] else None)
         (match_path (of_method None rs) (mux_segments path) []))"

definition exact_match :: "('h route \<times> string list) option \<Rightarrow> string \<Rightarrow> bool" where
  "exact_match m path = (case m of
      None \<Rightarrow> False
    | Some ((_, segs, _), _) \<Rightarrow>
        last segs \<noteq> SSub \<or> has_suffix path ''/'' \<and> length segs = length (filter (\<lambda>c. c = CHR ''/'') path))"

definition clean_path :: "string \<Rightarrow> string" where
  "clean_path p =
     (if p = [] then ''/''
      else let q = (if hd p = CHR ''/'' then p else CHR ''/'' # p); np = path_clean q
           in if has_suffix q ''/'' \<and> np \<noteq> ''/'' then np @ ''/'' else np)"

subsection \<open>Serving\<close>

definition mux_redirect :: "'a request_scheme \<Rightarrow> string \<Rightarrow> writer \<Rightarrow> writer" where
  "mux_redirect r path w =
     http_redirect r (url_string (empty_url\<lparr> u_path := path, u_raw_query := u_raw_query (rq_url r) \<rparr>)) 307 w"

definition not_found :: "writer \<Rightarrow> writer" where
  "not_found w = http_error ''404 page not found'' 404 w"

definition allowed_methods :: "'h route list \<Rightarrow> string \<Rightarrow> string list" where
  "allowed_methods rs path =
     (let ms = remdups (List.map_filter fst rs);
          hit = (\<lambda>m p. match_path (of_method (Some m) rs) (mux_segments p) [] \<noteq> None);
          ok = filter (\<lambda>m. hit m path \<or> \<not> has_suffix path ''/'' \<and> hit m (path @ ''/'')) ms
      in sort_key (map (of_char :: char \<Rightarrow> nat)) (ok @ (if ''GET'' \<in> set ok \<and> ''HEAD'' \<notin> set ok then [''HEAD''] else [])))"

definition path_values :: "path_seg list \<Rightarrow> string list \<Rightarrow> string header_map" where
  "path_values segs vals = map_of (zip (concat (map (\<lambda>s. case s of SWild n \<Rightarrow> [n] | _ \<Rightarrow> []) segs)) vals)"

definition no_route :: "'h route list \<Rightarrow> string \<Rightarrow> writer \<Rightarrow> writer" where
  "no_route rs path w =
     (let ms = allowed_methods rs path
      in if ms \<noteq> [] then http_error ''Method Not Allowed'' 405 (w_set ''Allow'' (join ms '', '') w) else not_found w)"

definition dispatch :: "('a request_scheme \<Rightarrow> writer \<Rightarrow> writer) route list \<Rightarrow> string \<Rightarrow> 'a request_scheme \<Rightarrow> writer \<Rightarrow> writer" where
  "dispatch rs path r w = (case mux_match rs (rq_method r) path of
      None \<Rightarrow> no_route rs path w
    | Some ((_, segs, h), vals) \<Rightarrow> h (r\<lparr> rq_path_values := path_values segs vals \<rparr>) w)"

definition slash_redirect :: "'h route list \<Rightarrow> string \<Rightarrow> string \<Rightarrow> bool" where
  "slash_redirect rs meth path \<longleftrightarrow>
     \<not> exact_match (mux_match rs meth path) path \<and> path \<noteq> [] \<and> \<not> has_suffix path ''/''
     \<and> exact_match (mux_match rs meth (path @ ''/'')) (path @ ''/'')"

definition serve_mux :: "('a request_scheme \<Rightarrow> writer \<Rightarrow> writer) route list \<Rightarrow> 'a request_scheme \<Rightarrow> writer \<Rightarrow> writer" where
  "serve_mux rs r w =
     (let escaped = escaped_path (rq_url r);
          path = (if rq_method r = ''CONNECT'' then escaped else clean_path escaped)
      in if u_path (rq_url r) = ''*'' then write_header 400 (w_set ''Connection'' ''close'' w)
         else if slash_redirect rs (rq_method r) path then mux_redirect r (clean_path (u_path (rq_url r)) @ ''/'') w
         else if path \<noteq> escaped then mux_redirect r path w
         else dispatch rs path r w)"

definition strip_prefix :: "string \<Rightarrow> ('a request_scheme \<Rightarrow> writer \<Rightarrow> writer) \<Rightarrow> 'a request_scheme \<Rightarrow> writer \<Rightarrow> writer" where
  "strip_prefix prefix h r w =
     (let u = rq_url r; p = trim_prefix (u_path u) prefix; rp = trim_prefix (u_raw_path u) prefix
      in if length p < length (u_path u) \<and> (u_raw_path u = [] \<or> length rp < length (u_raw_path u))
         then h (r\<lparr> rq_url := u\<lparr> u_path := p, u_raw_path := rp \<rparr> \<rparr>) w else not_found w)"

subsection \<open>Lemmas\<close>

text \<open>A matched route is one of those registered, for the method of the request or for any.\<close>

lemma or_else_eq_Some: "or_else x y = Some z \<longleftrightarrow> x = Some z \<or> x = None \<and> y = Some z"
  by (cases x) (auto simp: or_else_def)

lemma ended_in: "ended e cs = Some p \<Longrightarrow> (e, p) \<in> set cs"
  by (auto simp: ended_def dest!: filter_eq_ConsD split: list.splits)

lemma lits_in: "(ps, p) \<in> set (lits s cs) \<Longrightarrow> (SLit s # ps, p) \<in> set cs"
  by (fastforce simp: lits_def split: list.splits path_seg.splits if_splits)

lemma wilds_in: "(ps, p) \<in> set (wilds cs) \<Longrightarrow> \<exists>n. (SWild n # ps, p) \<in> set cs"
  by (fastforce simp: wilds_def split: list.splits path_seg.splits)

text \<open>What it means for a path to match the segments of a pattern.\<close>

fun seg_match :: "path_seg list \<Rightarrow> string list \<Rightarrow> bool" where
  "seg_match [] ss = (ss = [])"
| "seg_match (SLit t # ps) ss = (case ss of [] \<Rightarrow> False | s # ss \<Rightarrow> s = t \<and> seg_match ps ss)"
| "seg_match (SWild n # ps) ss = (case ss of [] \<Rightarrow> False | s # ss \<Rightarrow> s \<noteq> ''/'' \<and> seg_match ps ss)"
| "seg_match (SSub # ps) ss = (ps = [] \<and> ss \<noteq> [])"

lemma match_path_sound:
  "match_path cs ss ms = Some (p, vs) \<Longrightarrow> \<exists>ps. (ps, p) \<in> set cs \<and> seg_match ps ss"
proof (induction cs ss ms arbitrary: vs rule: match_path.induct)
  case (1 cs ms)
  then show ?case by (auto dest: ended_in intro: exI [of _ "[]"])
next
  case (2 cs s ss ms)
  from "2.prems" consider
    (l) "match_path (lits s cs) ss ms = Some (p, vs)"
    | (w) "s \<noteq> ''/''" "match_path (wilds cs) ss (ms @ [s]) = Some (p, vs)"
    | (e) "ended [SSub] cs = Some p"
    by (auto simp: or_else_eq_Some split: if_splits)
  then show ?case
  proof cases
    case l
    from "2.IH"(1) [OF l] obtain ps where "(ps, p) \<in> set (lits s cs)" "seg_match ps ss" by blast
    then show ?thesis using lits_in [of ps p s cs] by (intro exI [of _ "SLit s # ps"]) simp
  next
    case w
    from "2.IH"(2) [OF w] obtain ps where "(ps, p) \<in> set (wilds cs)" "seg_match ps ss" by blast
    moreover obtain n where "(SWild n # ps, p) \<in> set cs" using wilds_in [OF calculation(1)] by blast
    ultimately show ?thesis using w(1) by (intro exI [of _ "SWild n # ps"]) simp
  next
    case e
    then show ?thesis by (intro exI [of _ "[SSub]"]) (simp add: ended_in)
  qed
qed

lemma of_method_in: "(ps, p) \<in> set (of_method m rs) \<longleftrightarrow> p \<in> set rs \<and> fst p = m \<and> ps = fst (snd p)"
  by (auto simp: of_method_def)

lemma mux_match_in:
  assumes "mux_match rs meth path = Some (p, vs)"
  shows "p \<in> set rs \<and> fst p \<in> {Some meth, None, if meth = ''HEAD'' then Some ''GET'' else None}
    \<and> seg_match (fst (snd p)) (mux_segments path)"
proof -
  have m: "match_path (of_method m rs) (mux_segments path) [] = Some (p, vs) \<Longrightarrow>
      p \<in> set rs \<and> fst p = m \<and> seg_match (fst (snd p)) (mux_segments path)" for m
    by (drule match_path_sound) (auto simp: of_method_in)
  from assms show ?thesis
    by (auto simp: mux_match_def or_else_eq_Some split: if_splits dest!: m)
qed

text \<open>Every reply of a multiplexer is a redirect, an error or the reply of one of its handlers.\<close>

lemma serve_mux_cases:
  obtains (redirect) p where "serve_mux rs r w = mux_redirect r p w"
  | (star) "serve_mux rs r w = write_header 400 (w_set ''Connection'' ''close'' w)"
  | (none) "serve_mux rs r w = no_route rs (escaped_path (rq_url r)) w"
  | (handler) m segs h vals where "(m, segs, h) \<in> set rs"
      "serve_mux rs r w = h (r\<lparr> rq_path_values := vals \<rparr>) w" "seg_match segs (mux_segments (escaped_path (rq_url r)))"
      "m \<in> {Some (rq_method r), None, if rq_method r = ''HEAD'' then Some ''GET'' else None}"
proof (cases "serve_mux rs r w = dispatch rs (escaped_path (rq_url r)) r w")
  case True
  show thesis
  proof (cases "mux_match rs (rq_method r) (escaped_path (rq_url r))")
    case None
    with True show thesis by (intro none) (simp add: dispatch_def)
  next
    case (Some x)
    obtain m segs h vals where x: "x = ((m, segs, h), vals)" by (metis surj_pair)
    from mux_match_in [OF Some [unfolded x]] show thesis
      using True Some x by (intro handler [of m segs h "path_values segs vals"]) (simp_all add: dispatch_def)
  qed
next
  case False
  then show thesis
    by (auto simp: serve_mux_def Let_def split: if_splits intro: redirect star)
qed

text \<open>The segments of a path and its slashes.\<close>

lemma split_on_snoc: "split_on c (s @ [c]) = split_on c s @ [[]]"
proof (induction s)
  case (Cons x s)
  then show ?case by (cases "split_on c s") auto
qed simp

lemma length_split_on: "length (split_on c s) = Suc (length (filter (\<lambda>x. x = c) s))"
proof (induction s)
  case (Cons x s)
  then show ?case by (cases "split_on c s") auto
qed simp

lemma has_suffix_slash: "has_suffix p ''/'' \<longleftrightarrow> p \<noteq> [] \<and> last p = CHR ''/''"
  unfolding has_suffix_iff by (metis append_butlast_last_id last_snoc snoc_eq_iff_butlast)

lemma last_split_on: "last (split_on c s) = [] \<longleftrightarrow> s = [] \<or> last s = c"
proof (cases s rule: rev_cases)
  case (snoc t x)
  show ?thesis
  proof (cases "x = c")
    case True
    with snoc show ?thesis by (simp add: split_on_snoc)
  next
    case False
    have "last (split_on c (t @ [x])) \<noteq> []" if "x \<noteq> c" for t
      using that
    proof (induction t)
      case (Cons y t)
      then show ?case by (cases "split_on c (t @ [x])") (auto split: if_splits)
    qed simp
    with False snoc show ?thesis by simp
  qed
qed simp

lemma mux_segments_slash:
  assumes "has_prefix p ''/''" "\<not> has_suffix p ''/''"
  shows "mux_segments (p @ ''/'') = mux_segments p @ [''/'']"
    and "length (mux_segments p) = length (filter (\<lambda>c. c = CHR ''/'') p)"
proof -
  obtain t where p: "p = CHR ''/'' # t" using assms(1) by (auto simp: has_prefix_iff)
  with assms(2) have t: "t \<noteq> []" "last t \<noteq> CHR ''/''" by (cases "t = []"; simp add: has_suffix_slash)+
  then have l: "last (split_on (CHR ''/'') t) \<noteq> []" by (simp add: last_split_on)
  then have m: "mux_segments p = map path_unescape (split_on (CHR ''/'') t)"
    by (simp add: mux_segments_def p Let_def) (metis append_butlast_last_id list.simps(8,9) map_append split_on_nonempty)
  then show "mux_segments (p @ ''/'') = mux_segments p @ [''/'']"
    by (simp add: mux_segments_def p Let_def split_on_snoc)
  show "length (mux_segments p) = length (filter (\<lambda>c. c = CHR ''/'') p)"
    unfolding m by (simp add: length_split_on p)
qed

text \<open>A clean request whose match is not a subtree is handled as matched.\<close>

lemma serve_mux_routed:
  assumes "escaped_path (rq_url r) = p" "clean_path p = p" "u_path (rq_url r) \<noteq> ''*''"
    "mux_match rs (rq_method r) p = Some ((m, segs, h), vals)" "last segs \<noteq> SSub"
  shows "serve_mux rs r w = h (r\<lparr> rq_path_values := path_values segs vals \<rparr>) w"
  unfolding serve_mux_def Let_def assms(1,2) if_cancel
  by (simp add: assms(3-5) slash_redirect_def exact_match_def dispatch_def)

text \<open>Route tables are evaluated once, and matched by their segments.\<close>

lemma third_route: "pattern_of pat = (m, segs) \<Longrightarrow> route pat h = (m, segs, h)"
  by (simp add: route_def)

lemma match_path_Nil [simp]: "match_path [] ss ms = None"
  by (induction ss arbitrary: ms) (simp_all add: ended_def lits_def wilds_def or_else_def)

lemma match_literals:
  "match_path [(map SLit ts, x)] ss ms = (if ss = ts then Some (x, ms) else None)"
proof (induction ts arbitrary: ss)
  case Nil
  then show ?case by (cases ss) (simp_all add: ended_def lits_def wilds_def or_else_def)
next
  case (Cons t ts)
  then show ?case by (cases ss) (auto simp: ended_def lits_def wilds_def or_else_def)
qed

lemma match_subtree: "ss \<noteq> [] \<Longrightarrow> match_path [([SSub], x)] ss ms = Some (x, ms)"
  by (cases ss) (simp_all add: ended_def lits_def wilds_def or_else_def)

context reply_invariant
begin

lemma keep_not_found: "inv w \<Longrightarrow> inv (not_found w)"
  by (simp add: not_found_def keep_replies)

lemma keep_no_route: "inv w \<Longrightarrow> inv (no_route rs p w)"
  by (simp add: no_route_def Let_def keep_replies keep_not_found)

lemma keep_serve_mux:
  assumes "inv w" "\<And>m segs h vals. (m, segs, h) \<in> set rs \<Longrightarrow> inv (h (r\<lparr> rq_path_values := vals \<rparr>) w)"
  shows "inv (serve_mux rs r w)"
  by (cases rule: serve_mux_cases [of rs r w])
    (use assms in \<open>simp_all add: mux_redirect_def keep_replies keep_no_route\<close>)

end

end
