(* ===== verification/Go_Files.thy ===== *)
theory Go_Files
  imports Go_Mux
begin

section \<open>Serving files (\<open>net/http.ServeContent\<close> and \<open>FileServer\<close>)\<close>

text \<open>
  What the standard library writes when it serves a file.  How it reads the precondition and
  range headers of a request, guesses a content type, prints an HTTP date or lists a directory is
  the record \<open>file_ops\<close>; every reply it can then give is written out.
\<close>

datatype file_node = RegularFile string instant | Directory "string list"

datatype condition =
    Whole
  | NotModified
  | PreconditionFailed
  | OneRange nat nat
  | ManyRanges string string
  | BadRange string bool

record file_ops =
  fo_mime :: "string \<Rightarrow> string \<Rightarrow> string"
  fo_http_time :: "instant \<Rightarrow> string"
  fo_condition :: "gw_request \<Rightarrow> instant \<Rightarrow> string \<Rightarrow> condition"
  fo_dir_list :: "string list \<Rightarrow> string"

type_synonym file_tree = "string \<Rightarrow> file_node option"

definition serve_error :: "string \<Rightarrow> nat \<Rightarrow> writer \<Rightarrow> writer" where
  "serve_error msg code w =
     http_error msg code (w_del ''Last-Modified'' (w_del ''Etag'' (w_del ''Content-Encoding'' (w_del ''Cache-Control'' w))))"

text \<open>A partial or whole body: its type, length and status.\<close>

definition send_part :: "gw_request \<Rightarrow> nat \<Rightarrow> string \<Rightarrow> writer \<Rightarrow> writer" where
  "send_part r code body w =
     (let w1 = w_set ''Accept-Ranges'' ''bytes'' w;
          w2 = (if w_header w1 ''Content-Encoding'' = None then w_set ''Content-Length'' (itoa (int (length body))) w1 else w1);
          w3 = write_header code w2
      in if rq_method r = ''HEAD'' then w3 else write_body body w3)"

definition serve_content :: "file_ops \<Rightarrow> gw_request \<Rightarrow> string \<Rightarrow> instant \<Rightarrow> string \<Rightarrow> writer \<Rightarrow> writer" where
  "serve_content fo r name modtime content w =
     (let w1 = (if is_zero modtime \<or> modtime = 0 then w else w_set ''Last-Modified'' (fo_http_time fo modtime) w);
          typed = (\<lambda>w. if w_header w ''Content-Type'' = None then w_set ''Content-Type'' (fo_mime fo name content) w else w)
      in case fo_condition fo r modtime content of
           NotModified \<Rightarrow>
             write_header 304 (w_del ''Content-Encoding'' (w_del ''Content-Length'' (w_del ''Content-Type'' w1)))
         | PreconditionFailed \<Rightarrow> write_header 412 w1
         | Whole \<Rightarrow> send_part r 200 content (typed w1)
         | OneRange a n \<Rightarrow>
             send_part r 206 (take n (drop a content))
               (w_set ''Content-Range'' (''bytes '' @ itoa (int a) @ ''-'' @ itoa (int a + int n - 1) @ ''/'' @ itoa (int (length content))) (typed w1))
         | ManyRanges ctype body \<Rightarrow> send_part r 206 body (w_set ''Content-Type'' ctype (typed w1))
         | BadRange msg no_overlap \<Rightarrow>
             serve_error msg 416
               (if no_overlap then w_set ''Content-Range'' (''bytes */'' @ itoa (int (length content))) (typed w1) else typed w1))"

definition path_base :: "string \<Rightarrow> string" where
  "path_base p =
     (if p = [] then ''.''
      else let q = rev (dropWhile (\<lambda>c. c = CHR ''/'') (rev p)); b = rev (takeWhile (\<lambda>c. c \<noteq> CHR ''/'') (rev q))
           in if b = [] then ''/'' else b)"

definition local_redirect :: "gw_request \<Rightarrow> string \<Rightarrow> writer \<Rightarrow> writer" where
  "local_redirect r target w =
     write_header 301 (w_set ''Location''
       (target @ (if u_raw_query (rq_url r) \<noteq> [] then ''?'' @ u_raw_query (rq_url r) else [])) w)"

text \<open>\<open>http.FileServer\<close> over \<open>http.FS\<close>, from a request whose path names an entry of the tree.\<close>

definition serve_directory :: "file_ops \<Rightarrow> file_tree \<Rightarrow> gw_request \<Rightarrow> string \<Rightarrow> string list \<Rightarrow> writer \<Rightarrow> writer" where
  "serve_directory fo tree r name entries w =
     (case tree ((if name = ''.'' then [] else name @ ''/'') @ ''index.html'') of
        Some (RegularFile content modtime) \<Rightarrow> serve_content fo r ''index.html'' modtime content w
      | _ \<Rightarrow> write_body (fo_dir_list fo entries) (w_set ''Content-Type'' ''text/html; charset=utf-8'' w))"

definition file_server :: "file_ops \<Rightarrow> file_tree \<Rightarrow> gw_request \<Rightarrow> writer \<Rightarrow> writer" where
  "file_server fo tree r w =
     (let p = u_path (rq_url r);
          upath = (if has_prefix p ''/'' then p else CHR ''/'' # p);
          cleaned = path_clean upath;
          name = (if cleaned = ''/'' then ''.'' else trim_prefix cleaned ''/'')
      in if has_suffix upath ''/index.html'' then local_redirect r ''./'' w
         else case tree name of
           None \<Rightarrow> serve_error ''404 page not found'' 404 w
         | Some (RegularFile content modtime) \<Rightarrow>
             if has_suffix upath ''/''
             then (if path_base upath = ''/'' \<or> path_base upath = ''.''
                   then serve_error ''http: attempting to traverse a non-directory'' 500 w
                   else local_redirect r (''../'' @ path_base upath) w)
             else serve_content fo r (path_base name) modtime content w
         | Some (Directory entries) \<Rightarrow>
             if has_suffix upath ''/'' then serve_directory fo tree r name entries w
             else local_redirect r (path_base upath @ ''/'') w)"

definition sample_files :: file_ops where
  "sample_files = \<lparr> fo_mime = (\<lambda>_ _. ''image/svg+xml''), fo_http_time = (\<lambda>_. ''Tue, 14 Nov 2023 22:13:20 GMT''),
     fo_condition = (\<lambda>_ _ _. Whole), fo_dir_list = (\<lambda>_. ''<pre></pre>'') \<rparr>"

context reply_invariant
begin

lemma keep_serve_error: "inv w \<Longrightarrow> inv (serve_error m n w)"
  by (simp add: serve_error_def keep_replies)

lemma keep_send_part: "inv w \<Longrightarrow> inv (send_part r n b w)"
  by (simp add: send_part_def Let_def keep_replies)

lemma keep_serve_content: "inv w \<Longrightarrow> inv (serve_content fo r name m c w)"
proof -
  assume w: "inv w"
  let ?w1 = "if is_zero m \<or> m = 0 then w else w_set ''Last-Modified'' (fo_http_time fo m) w"
  let ?t = "if w_header ?w1 ''Content-Type'' = None then w_set ''Content-Type'' (fo_mime fo name c) ?w1 else ?w1"
  have w1: "inv ?w1" using w by (intro keep_if keep_set)
  have t: "inv ?t" by (rule keep_if [OF keep_set(1) [OF w1] w1])
  show ?thesis
    by (cases "fo_condition fo r m c"; simp only: serve_content_def Let_def condition.case)
      (intro keep_if inv_commit keep_del keep_set keep_send_part keep_serve_error w1 t)+
qed

lemma keep_local_redirect: "inv w \<Longrightarrow> inv (local_redirect r t w)"
  by (simp add: local_redirect_def keep_replies)

lemma keep_serve_directory: "inv w \<Longrightarrow> inv (serve_directory fo tree r name es w)"
  by (auto simp: serve_directory_def intro: keep_serve_content keep_write_body keep_set
      split: option.split file_node.split)

lemma keep_node:
  assumes "inv (f None)" "\<And>c m. inv (f (Some (RegularFile c m)))" "\<And>es. inv (f (Some (Directory es)))"
  shows "inv (f x)"
  using assms by (metis file_node.exhaust option.exhaust)

lemma keep_file_server:
  assumes w: "inv w"
  shows "inv (file_server fo tree r w)"
  unfolding file_server_def Let_def
  by (rule keep_if, rule keep_local_redirect [OF w], rule keep_node; simp only: option.case file_node.case)
    (intro keep_if keep_local_redirect keep_serve_error keep_serve_content keep_serve_directory w)+

end

end
