(* ===== verification/Webui.thy ===== *)
theory Webui
  imports Go_Files "HOL-Library.While_Combinator"
begin

section \<open>The web shell (\<open>internal/webui/webui.go\<close>)\<close>

text \<open>
  The embedded single-page app: the configuration spliced into \<open>index.html\<close>, the hashes of its
  inline scripts for the content security policy, the status of client routes and the handler.
  The compiled bundle is not part of the repository and is an argument: a tree of files, in which
  \<open>index.html\<close> may be missing.
\<close>

subsection \<open>The shell configuration\<close>

record brand =
  br_name :: string
  br_sub :: string
  br_default_theme :: string
  br_accent_color :: string

record shell_config = brand +
  sc_max_upload_size :: int
  sc_session_idle_ttl :: int

definition shell_members :: "shell_config \<Rightarrow> (string \<times> json) list" where
  "shell_members cfg =
     (if br_name cfg = [] then [] else [(''brandName'', jstring (br_name cfg))])
      @ (if br_sub cfg = [] then [] else [(''brandSub'', jstring (br_sub cfg))])
      @ (if br_default_theme cfg = [] then [] else [(''defaultTheme'', jstring (br_default_theme cfg))])
      @ (if sc_max_upload_size cfg = 0 then [] else [(''maxUploadSize'', jint (sc_max_upload_size cfg))])
      @ (if sc_session_idle_ttl cfg = 0 then [] else [(''sessionIdleTtl'', jint (sc_session_idle_ttl cfg))])"

definition shell_json :: "shell_config \<Rightarrow> json" where
  "shell_json cfg = jobject (shell_members cfg)"

definition config_code :: "shell_config \<Rightarrow> string" where
  "config_code cfg = ''window.__ATRIUM__='' @ print_json (shell_json cfg)"

definition config_script :: "shell_config \<Rightarrow> string" where
  "config_script cfg =
     (if print_json (shell_json cfg) = ''{}'' then []
      else newline @ ''    <script>'' @ config_code cfg @ ''</script>'')"

definition accent_style :: "string \<Rightarrow> string" where
  "accent_style accent =
     (if accent = [] then []
      else
        (let tint = (if length accent = 7 then accent @ ''1f'' else accent)
         in newline @ ''    <style>:root{--primary:'' @ accent @ '';--primary-hover:'' @ accent
            @ '';--accent-foreground:'' @ accent @ '';--ring:'' @ accent @ '';--accent:'' @ tint @ ''}</style>''))"

definition splice_after :: "string \<Rightarrow> string \<Rightarrow> string \<Rightarrow> string" where
  "splice_after s anchor ins = (case index_of s anchor of
      None \<Rightarrow> s
    | Some i \<Rightarrow> (let at = i + length anchor in take at s @ ins @ drop at s))"

definition splice_before :: "string \<Rightarrow> string \<Rightarrow> string \<Rightarrow> string" where
  "splice_before s anchor ins = (case index_of s anchor of
      None \<Rightarrow> s
    | Some i \<Rightarrow> take i s @ ins @ drop i s)"

definition inject_config :: "string \<Rightarrow> shell_config \<Rightarrow> string" where
  "inject_config index cfg =
     (let script = config_script cfg; style = accent_style (br_accent_color cfg);
          s = (if script \<noteq> [] then splice_after index ''<head>'' script else index)
      in if style \<noteq> [] then splice_before s ''</head>'' style else s)"

subsection \<open>Script hashes\<close>

definition script_hash :: "string \<Rightarrow> string" where
  "script_hash content = CHR 0x27 # ''sha256-'' @ b64_encode StdEncoding (sha256 content) @ [CHR 0x27]"

function inline_script_hashes :: "string \<Rightarrow> string list" where
  "inline_script_hashes rest = (case index_of rest ''<script'' of
      None \<Rightarrow> []
    | Some op \<Rightarrow>
        (case index_of (drop op rest) ''>'' of
           None \<Rightarrow> []
         | Some tag_close \<Rightarrow>
             (let open_tag = take tag_close (drop op rest); after = drop (op + tag_close + 1) rest
              in case index_of after ''</script>'' of
                   None \<Rightarrow> []
                 | Some e \<Rightarrow>
                     (if contains open_tag ''src='' then [] else [script_hash (take e after)])
                     @ inline_script_hashes (drop (e + 9) after))))"
  by pat_completeness auto
termination
proof (relation "measure length")
  fix rest :: string and op tag_close e open_tag after
  assume op: "index_of rest ''<script'' = Some op"
  have "rest \<noteq> []" using op by auto
  moreover assume "after = drop (op + tag_close + 1) rest"
  ultimately show "(drop (e + 9) after, rest) \<in> measure length" by simp
qed simp

declare inline_script_hashes.simps [simp del]

text \<open>
  The loop as it is written, over the rest of the page and the hashes so far: one iteration breaks, or
  goes on after the closing tag, with a hash or without one.
\<close>

definition scan_script :: "string \<Rightarrow> (string \<times> string list) option" where
  "scan_script rest = (case index_of rest ''<script'' of
      None \<Rightarrow> None
    | Some op \<Rightarrow>
        (case index_of (drop op rest) ''>'' of
           None \<Rightarrow> None
         | Some tag_close \<Rightarrow>
             (let open_tag = take tag_close (drop op rest); content_start = op + tag_close + 1
              in case index_of (drop content_start rest) ''</script>'' of
                   None \<Rightarrow> None
                 | Some e \<Rightarrow>
                     (let content = take e (drop content_start rest)
                      in Some (drop (content_start + e + length ''</script>'') rest,
                           if contains open_tag ''src='' then [] else [script_hash content])))))"

definition script_loop :: "string \<Rightarrow> (string \<times> string list) option" where
  "script_loop html = while_option (\<lambda>(rest, hs). scan_script rest \<noteq> None)
     (\<lambda>(rest, hs). case scan_script rest of None \<Rightarrow> (rest, hs) | Some (rest', add) \<Rightarrow> (rest', hs @ add)) (html, [])"

subsection \<open>Serving\<close>

definition shell_status :: "string \<Rightarrow> nat" where
  "shell_status p0 =
     (let p = path_clean p0
      in if p = ''/'' \<or> has_prefix p ''/share/'' then 200 else if p = ''/auth/error'' then 403 else 404)"

definition serve_shell :: "string \<Rightarrow> nat \<Rightarrow> writer \<Rightarrow> writer" where
  "serve_shell index status w =
     write_body index (write_header status
       (w_set ''Cache-Control'' ''no-cache'' (w_set ''Content-Type'' ''text/html; charset=utf-8'' w)))"

definition shell_route :: "file_ops \<Rightarrow> file_tree \<Rightarrow> string \<Rightarrow> handler" where
  "shell_route fo dist index r w =
     (let name = trim_prefix (path_clean (u_path (rq_url r))) ''/''
      in if name \<noteq> [] \<and> dist name \<noteq> None
         then file_server fo dist r
                (if has_prefix name ''assets/''
                 then w_set ''Cache-Control'' ''public, max-age=31536000, immutable'' w else w)
         else serve_shell index (shell_status (u_path (rq_url r))) w)"

definition webui_handler :: "file_ops \<Rightarrow> file_tree \<Rightarrow> shell_config \<Rightarrow> handler \<times> string list" where
  "webui_handler fo dist cfg = (case dist ''index.html'' of
      None \<Rightarrow> (\<lambda>r w. not_found w, [])
    | Some node \<Rightarrow>
        (let index = inject_config (case node of RegularFile c _ \<Rightarrow> c | Directory _ \<Rightarrow> []) cfg
         in (shell_route fo dist index, inline_script_hashes index)))"

subsection \<open>Lemmas\<close>

context reply_invariant
begin

lemma keep_webui: "inv w \<Longrightarrow> inv (fst (webui_handler fo dist cfg) r w)"
proof -
  assume w: "inv w"
  have "inv (shell_route fo dist index r w)" for index
    unfolding shell_route_def Let_def serve_shell_def
    by (intro keep_if keep_file_server keep_write_body inv_commit keep_set w)
  then show ?thesis
    using keep_not_found [OF w] by (auto simp: webui_handler_def Let_def split: option.split)
qed

end

text \<open>Where the first occurrence of a text lies after a part that cannot hold its start.\<close>

lemma index_of_skip:
  assumes "c \<notin> set a"
  shows "index_of (a @ s) (c # p) = map_option (\<lambda>i. length a + i) (index_of s (c # p))"
  using assms
proof (induction a)
  case Nil
  then show ?case by (cases "index_of s (c # p)") simp_all
next
  case (Cons x a)
  then show ?case by (cases "index_of s (c # p)") auto
qed

lemma has_prefix_stop: "x \<notin> set p \<Longrightarrow> has_prefix (u @ x # s) p \<longleftrightarrow> has_prefix u p"
proof (induction u arbitrary: p)
  case Nil
  then show ?case by (cases p) auto
next
  case (Cons c u)
  then show ?case by (cases p) auto
qed

lemma index_of_after:
  assumes "index_of a p = None" "x \<notin> set p" "p \<noteq> []"
  shows "index_of (a @ x # s) p = map_option (\<lambda>i. Suc (length a + i)) (index_of s p)"
  using assms(1)
proof (induction a)
  case Nil
  have "\<not> has_prefix (x # s) p" using assms(2,3) by (cases p) auto
  then show ?case by simp
next
  case (Cons c a)
  then have n: "\<not> has_prefix (c # a) p" "index_of a p = None" by (auto split: if_splits)
  then have "\<not> has_prefix (c # a @ x # s) p" using has_prefix_stop [OF assms(2), of "c # a" s] by simp
  with Cons.IH [OF n(2)] show ?case by (simp add: option.map_comp comp_def)
qed

text \<open>A printed configuration holds no angle bracket.\<close>

lemma token_text_jstring: "\<forall>x \<in> set (token_text (TStr (json_escape s))). x \<noteq> CHR ''<''"
  using json_escape_inert by (auto simp: html_inert_def)

lemma digits_no_bracket: "CHR ''<'' \<notin> set (itoa i)"
proof -
  have "c \<in> set (show_nat n) \<Longrightarrow> c \<noteq> CHR ''<''" for c n
    using show_nat_digits [of n] by (auto simp: is_digit_def byte_in_def)
  then show ?thesis unfolding itoa_def by (auto split: if_splits)
qed

lemma set_sep_commas: "set (sep_commas ts) \<subseteq> (\<Union>t \<in> set ts. set t) \<union> {TComma}"
  by (induction ts rule: sep_commas.induct) auto

lemma print_json_flat:
  assumes "\<forall>(k, v) \<in> set kvs. (\<exists>n. v = jint n) \<or> (\<exists>s. v = jstring s)"
  shows "CHR ''<'' \<notin> set (print_json (jobject kvs))"
proof -
  have "\<forall>c \<in> set (token_text t). c \<noteq> CHR ''<''" if "t \<in> set (tokens_of (jobject kvs))" for t
  proof -
    from that consider "t \<in> {TLBrace, TRBrace, TComma, TColon}"
      | k v where "(k, v) \<in> set kvs" "t = TStr (json_escape k) \<or> t \<in> set (tokens_of v)"
      using set_sep_commas by (fastforce simp: jobject_def)
    then show ?thesis
    proof cases
      case 1
      then show ?thesis by auto
    next
      case 2
      with assms have "(\<exists>s. t = TStr (json_escape s)) \<or> (\<exists>n. t = TNum (itoa n))"
        by (fastforce simp: jint_def jstring_def)
      then show ?thesis using token_text_jstring digits_no_bracket by (metis token_text.simps(8))
    qed
  qed
  then show ?thesis by (auto simp: print_json_def)
qed

lemma config_code_no_bracket: "CHR ''<'' \<notin> set (config_code cfg)"
proof -
  have "\<forall>(k, v) \<in> set (shell_members cfg). (\<exists>n. v = jint n) \<or> (\<exists>s. v = jstring s)"
    unfolding shell_members_def set_append ball_Un by (intro conjI; simp; blast)
  from print_json_flat [OF this] show ?thesis by (simp add: config_code_def shell_json_def)
qed

lemma hashes_of_inline:
  assumes "index_of a ''<script'' = None" "CHR ''<'' \<notin> set code"
  shows "inline_script_hashes (a @ newline @ ''    <script>'' @ code @ ''</script>'' @ b)
    = script_hash code # inline_script_hashes b"
proof -
  let ?tail = "code @ ''</script>'' @ b"
  let ?rest = "a @ newline @ ''    <script>'' @ ?tail"
  have op: "index_of ?rest ''<script'' = Some (length a + 5)"
    using assms(1) index_of_after [of a "''<script''" "CHR 0x0A" "''    <script>'' @ ?tail"]
      index_of_skip [of "CHR ''<''" "''    ''" "''<script>'' @ ?tail" "''script''"]
    by (simp add: newline_def)
  have d: "drop (length a + 5) ?rest = ''<script>'' @ ?tail" by (simp add: newline_def)
  have tag: "index_of (''<script>'' @ ?tail) ''>'' = Some 7" by simp
  have e: "index_of ?tail ''</script>'' = Some (length code)"
    using index_of_skip [OF assms(2), of "''</script>'' @ b" "''/script>''"] by simp
  have after: "drop (length a + 5 + 7 + 1) ?rest = ?tail" by (simp add: newline_def)
  have src: "\<not> contains ''<script'' ''src=''" by code_simp
  show ?thesis
    by (subst inline_script_hashes.simps)
      (simp only: op option.case d tag Let_def after e, simp add: src)
qed

lemma scan_script_shorter: "scan_script rest = Some (rest', add) \<Longrightarrow> length rest' < length rest"
  by (auto simp: scan_script_def Let_def split: option.splits dest!: index_of_Some)

lemma inline_script_hashes_scan:
  "inline_script_hashes rest = (case scan_script rest of None \<Rightarrow> [] | Some (rest', add) \<Rightarrow> add @ inline_script_hashes rest')"
  by (subst inline_script_hashes.simps) (simp add: scan_script_def Let_def eval_nat_numeral ac_simps split: option.split)

lemma script_loop_total:
  "\<exists>rest. while_option (\<lambda>(rest, hs). scan_script rest \<noteq> None)
     (\<lambda>(rest, hs). case scan_script rest of None \<Rightarrow> (rest, hs) | Some (rest', add) \<Rightarrow> (rest', hs @ add)) (html, hs)
   = Some (rest, hs @ inline_script_hashes html) \<and> scan_script rest = None"
proof (induction html arbitrary: hs rule: measure_induct_rule [of length])
  case (less html)
  show ?case
  proof (cases "scan_script html")
    case None
    then show ?thesis by (subst while_option_unfold) (simp add: inline_script_hashes_scan [of html])
  next
    case (Some x)
    obtain rest' add where x: "scan_script html = Some (rest', add)" using Some by (cases x) simp
    from less [OF scan_script_shorter [OF x], of "hs @ add"] show ?thesis
      by (subst while_option_unfold) (simp add: x inline_script_hashes_scan [of html])
  qed
qed

subsection \<open>Properties\<close>


text \<open>C36: The search for inline scripts ends on every page.  The loop has no bound of its own, and what it reads is
  the compiled bundle; whatever the page holds, unclosed tags and nested openings included, it returns, with
  the hashes the recursion computes, and what is left of the page has no complete script in it.\<close>

theorem script_search_returns:
  "\<exists>rest. script_loop html = Some (rest, inline_script_hashes html) \<and> scan_script rest = None"
  using script_loop_total [of html "[]"] by (simp add: script_loop_def)

definition sample_shell :: shell_config where
  "sample_shell = brand.extend \<lparr> br_name = ''</script>'', br_sub = [], br_default_theme = [], br_accent_color = [] \<rparr>
     (shell_config.fields 100 0)"




end
