(* ===== verification/Branding.thy ===== *)
theory Branding
  imports Go_Files
begin

section \<open>White-label assets (\<open>internal/branding/branding.go\<close>)\<close>

text \<open>
  \<open>/branding/<file>\<close>: a file of the mounted directory, else the embedded default, else 404.  The
  mount is opened anew for every request, so the directory is a function of the request's time and
  an argument here: \<open>mount dir\<close> is what \<open>os.OpenRoot\<close> finds, which resolves no name outside it.
\<close>

definition serve_mounted :: "file_ops \<Rightarrow> (string \<Rightarrow> file_tree option) \<Rightarrow> gw_request \<Rightarrow> string \<Rightarrow> string \<Rightarrow> writer \<Rightarrow> writer option" where
  "serve_mounted fo mount r dir name w = (case mount dir of
      None \<Rightarrow> None
    | Some tree \<Rightarrow>
        (case tree name of
           None \<Rightarrow> None
         | Some (Directory _) \<Rightarrow> None
         | Some (RegularFile content modtime) \<Rightarrow> Some (serve_content fo r name modtime content w)))"

definition serve_default :: "file_ops \<Rightarrow> file_tree \<Rightarrow> gw_request \<Rightarrow> string \<Rightarrow> writer \<Rightarrow> writer" where
  "serve_default fo defaults r name w = (case defaults name of
      None \<Rightarrow> not_found w
    | Some (Directory _) \<Rightarrow> not_found w
    | Some (RegularFile content _) \<Rightarrow> serve_content fo r name zero_time content w)"

definition branding_file :: "file_ops \<Rightarrow> file_tree \<Rightarrow> (string \<Rightarrow> file_tree option) \<Rightarrow> string \<Rightarrow> gw_request \<Rightarrow> writer \<Rightarrow> writer" where
  "branding_file fo defaults mount dir r w =
     (let name = path_clean (trim_prefix (u_path (rq_url r)) ''/'')
      in if name = ''.'' \<or> has_prefix name ''..'' \<or> has_prefix name ''/'' then not_found w
         else
           (let w1 = w_set ''Cache-Control'' ''no-cache'' w
            in case (if dir \<noteq> [] then serve_mounted fo mount r dir name w1 else None) of
                 Some w2 \<Rightarrow> w2
               | None \<Rightarrow> serve_default fo defaults r name w1))"

definition branding_handler :: "file_ops \<Rightarrow> file_tree \<Rightarrow> (string \<Rightarrow> file_tree option) \<Rightarrow> string \<Rightarrow> handler" where
  "branding_handler fo defaults mount dir = strip_prefix ''/branding/'' (branding_file fo defaults mount dir)"

subsection \<open>Lemmas\<close>

context reply_invariant
begin

lemma keep_serve_default: "inv w \<Longrightarrow> inv (serve_default fo defaults r name w)"
  by (auto simp: serve_default_def intro: keep_not_found keep_serve_content split: option.split file_node.split)

lemma keep_serve_mounted: "inv w \<Longrightarrow> serve_mounted fo mount r dir name w = Some v \<Longrightarrow> inv v"
  by (auto simp: serve_mounted_def intro: keep_serve_content split: option.splits file_node.splits)

lemma keep_branding_file:
  assumes w: "inv w"
  shows "inv (branding_file fo defaults mount dir r w)"
proof -
  let ?w = "w_set ''Cache-Control'' ''no-cache'' w"
  have "inv ?w" using w by (rule keep_set)
  then show ?thesis
    using keep_not_found [OF w] keep_serve_mounted keep_serve_default
    by (auto simp: branding_file_def Let_def split: option.split)
qed

lemma keep_branding: "inv w \<Longrightarrow> inv (branding_handler fo defaults mount dir r w)"
  by (simp add: branding_handler_def strip_prefix_def Let_def keep_branding_file keep_not_found)

end

text \<open>An unrooted clean path is a run of dot-dot elements before plain ones.\<close>

lemma clean_elements_unrooted:
  assumes "list_all clean_element ps" "\<forall>e \<in> set es. CHR ''/'' \<notin> set e"
  shows "\<exists>n cs. clean_elements False (ps @ replicate k ''..'') es = replicate n ''..'' @ cs \<and> list_all clean_element cs"
  using assms
proof (induction es arbitrary: ps k)
  case Nil
  then show ?case by (intro exI [of _ k] exI [of _ "rev ps"]) simp
next
  case (Cons e es)
  from Cons.prems(2) have es: "\<forall>e \<in> set es. CHR ''/'' \<notin> set e" and e: "CHR ''/'' \<notin> set e" by simp_all
  consider (skip) "e = [] \<or> e = ''.''" | (up) "e = ''..''" "ps = []" | (pop) t ts where "e = ''..''" "ps = t # ts"
    | (plain) "clean_element e"
    using e by (cases ps) (auto simp: clean_element_def)
  then show ?case
  proof cases
    case skip
    then have "clean_elements False (ps @ replicate k ''..'') (e # es) = clean_elements False (ps @ replicate k ''..'') es"
      by (simp only: clean_elements.simps if_True)
    with Cons.IH [OF Cons.prems(1) es, of k] show ?thesis by simp
  next
    case up
    then have "clean_elements False (ps @ replicate k ''..'') (e # es) = clean_elements False ([] @ replicate (Suc k) ''..'') es"
      by (cases k) simp_all
    with Cons.IH [of "[]" "Suc k"] es show ?thesis by simp
  next
    case (pop t ts)
    then have t: "clean_element t" "list_all clean_element ts" using Cons.prems(1) by simp_all
    then have "t \<noteq> ''..''" by (simp add: clean_element_def)
    moreover from this pop have "clean_elements False (ps @ replicate k ''..'') (e # es) = clean_elements False (ts @ replicate k ''..'') es"
      by simp
    ultimately show ?thesis using Cons.IH [OF t(2) es, of k] by simp
  next
    case plain
    then have "clean_elements False (ps @ replicate k ''..'') (e # es) = clean_elements False ((e # ps) @ replicate k ''..'') es"
      by (simp add: clean_element_def)
    with Cons.IH [of "e # ps" k] Cons.prems(1) es plain show ?thesis by simp
  qed
qed

subsection \<open>Properties\<close>

lemma branding_name_inside:
  assumes "name = path_clean p" "name \<noteq> ''.''" "\<not> has_prefix name ''..''" "\<not> has_prefix name ''/''"
  shows "list_all clean_element (split_on (CHR ''/'') name)"
proof -
  let ?es = "clean_elements False [] (split_on (CHR ''/'') p)"
  have n: "name = join ?es ''/''" and ne: "join ?es ''/'' \<noteq> []"
    using assms by (auto simp: path_clean_def Let_def split: if_splits)
  obtain n cs where es: "?es = replicate n ''..'' @ cs" "list_all clean_element cs"
    using clean_elements_unrooted [of "[]" "split_on (CHR ''/'') p" 0] split_on_no_sep [of _ "CHR ''/''" p] by auto
  have "n = 0"
  proof (rule ccontr)
    assume "n \<noteq> 0"
    then obtain m where "n = Suc m" by (cases n) auto
    then have "has_prefix name ''..''"
      unfolding n es(1) has_prefix_iff by (cases "replicate m ''..'' @ cs") (simp_all only: replicate_Suc append_Cons join.simps, auto)
    with assms(3) show False ..
  qed
  then have cs: "?es = cs" by (simp add: es)
  with ne have "cs \<noteq> []" by auto
  moreover have "\<forall>t \<in> set cs. CHR ''/'' \<notin> set t" using es(2) by (simp add: list_all_iff clean_element_def)
  ultimately have "split_on (CHR ''/'') name = cs" unfolding n cs by (rule split_join_absent)
  with es(2) show ?thesis by simp
qed

text \<open>C24: The assets route cannot be walked out of.  Whatever the request path, a file is looked up,
  in the mount and among the defaults, only under a name made of plain elements: not empty, no dot
  or dot-dot, relative.  Trees that agree on such names give the same reply.\<close>

theorem branding_stays_inside:
  assumes "\<And>name. list_all clean_element (split_on (CHR ''/'') name) \<Longrightarrow> defaults name = defaults' name"
    and "\<And>name. list_all clean_element (split_on (CHR ''/'') name) \<Longrightarrow> tree name = tree' name"
  shows "branding_handler fo defaults (\<lambda>_. Some tree) dir r w = branding_handler fo defaults' (\<lambda>_. Some tree') dir r w"
proof -
  have "branding_file fo defaults (\<lambda>_. Some tree) dir r w = branding_file fo defaults' (\<lambda>_. Some tree') dir r w" for r w
  proof -
    define name where "name = path_clean (trim_prefix (u_path (rq_url r)) ''/'')"
    show ?thesis
    proof (cases "name = ''.'' \<or> has_prefix name ''..'' \<or> has_prefix name ''/''")
      case True
      then show ?thesis by (simp only: branding_file_def Let_def name_def [symmetric] if_True)
    next
      case False
      then have "list_all clean_element (split_on (CHR ''/'') name)"
        using branding_name_inside [OF name_def] by blast
      from assms [OF this] have "serve_default fo defaults r name v = serve_default fo defaults' r name v"
        "serve_mounted fo (\<lambda>_. Some tree) r dir name v = serve_mounted fo (\<lambda>_. Some tree') r dir name v" for v
        by (simp_all add: serve_default_def serve_mounted_def)
      then show ?thesis by (simp only: branding_file_def Let_def name_def [symmetric])
    qed
  qed
  then have "branding_file fo defaults (\<lambda>_. Some tree) dir = branding_file fo defaults' (\<lambda>_. Some tree') dir" by blast
  then show ?thesis by (simp add: branding_handler_def)
qed

lemma branding_stays_inside_witness:
  "branding_handler sample_files Map.empty (\<lambda>_. Some [''../key.pem'' \<mapsto> RegularFile ''secret'' 0]) ''/srv''
      ((gw_get ''/branding/../key.pem'')) new_writer
   = branding_handler sample_files Map.empty (\<lambda>_. Some Map.empty) ''/srv'' (gw_get ''/branding/../key.pem'') new_writer"
proof -
  have "\<not> list_all clean_element (split_on (CHR ''/'') ''../key.pem'')" by code_simp
  then have "list_all clean_element (split_on (CHR ''/'') name) \<Longrightarrow> [''../key.pem'' \<mapsto> RegularFile ''secret'' 0] name = Map.empty name"
    for name by auto
  from branding_stays_inside [OF refl this] show ?thesis .
qed

end
