(* ===== verification/Router.thy ===== *)
theory Router
  imports Terms Proxy Oidc Webui Branding
begin

section \<open>The gateway's routes (\<open>internal/api\<close>)\<close>

text \<open>
  The JSON handlers, the security headers, the gate in front of \<open>/api/\<close> and the root handler that
  wires every component.  \<open>deployment\<close> collects what a request's handling reads from outside: the
  clock, Unicode tables, the identity provider, random bytes, the recipient's connection and the
  files.  The provider is the record of the interface's methods the router uses.
\<close>

record deployment =
  dp_env :: environment
  dp_unicode :: unicode_ops
  dp_idp :: oidc_provider
  dp_random_state :: "go_error + string"
  dp_random_nonce :: "go_error + string"
  dp_pkce_verifier :: string
  dp_room :: "nat option"
  dp_files :: file_ops
  dp_dist :: file_tree
  dp_defaults :: file_tree
  dp_mount :: "string \<Rightarrow> file_tree option"

record provider_service =
  ps_health_check :: "call_context \<Rightarrow> writer \<Rightarrow> go_error option \<times> writer"
  ps_list_shares :: "call_context \<Rightarrow> string \<Rightarrow> writer \<Rightarrow> (go_error + share list) \<times> writer"
  ps_list_folder :: "call_context \<Rightarrow> string \<Rightarrow> string \<Rightarrow> string \<Rightarrow> writer \<Rightarrow> (go_error + folder_listing) \<times> writer"

subsection \<open>Security headers\<close>

definition hsts_value :: string where
  "hsts_value = ''max-age=31536000; includeSubDomains''"

definition security_headers :: "handler \<Rightarrow> string \<Rightarrow> bool \<Rightarrow> handler" where
  "security_headers h csp tls r w =
     (let w1 = w_set ''Cache-Control'' ''no-store'' (w_set ''Referrer-Policy'' ''no-referrer''
            (w_set ''X-Frame-Options'' ''DENY'' (w_set ''X-Content-Type-Options'' ''nosniff''
              (w_set ''Content-Security-Policy'' csp w))));
          w2 = (if tls then w_set ''Strict-Transport-Security'' hsts_value w1 else w1)
      in h r w2)"

definition content_security_policy :: "string list \<Rightarrow> string" where
  "content_security_policy script_hashes =
     (let q = [CHR 0x27];
          script_src = ''script-src '' @ q @ ''self'' @ q
            @ (if script_hashes \<noteq> [] then '' '' @ join script_hashes '' '' else [])
      in join [''default-src '' @ q @ ''self'' @ q, script_src,
           ''style-src '' @ q @ ''self'' @ q @ '' '' @ q @ ''unsafe-inline'' @ q,
           ''object-src '' @ q @ ''none'' @ q, ''base-uri '' @ q @ ''none'' @ q, ''frame-ancestors '' @ q @ ''none'' @ q] ''; '')"

subsection \<open>Handlers\<close>

definition handle_healthz :: handler where
  "handle_healthz r w =
     write_body (''ok'' @ newline) (write_header 200 (w_set ''Content-Type'' ''text/plain; charset=utf-8'' w))"

definition handle_readyz :: "provider_service \<Rightarrow> handler" where
  "handle_readyz svc r w =
     (let (e, w1) = ps_health_check svc None w;
          ready = (e = None)
      in encode_json (jobject [(''provider'', JBool ready)])
           (write_header (if ready then 200 else 503) (w_set ''Content-Type'' json_content_type w1)))"

definition handle_me :: handler where
  "handle_me r w = (case session_from_context r of
      None \<Rightarrow> http_error ''internal server error'' 500 w
    | Some s \<Rightarrow> encode_json (jobject [(''email'', jstring (se_email s))]) (w_set ''Content-Type'' json_content_type w))"

text \<open>A \<open>nil\<close> pointer is \<open>null\<close>; a time whose text \<open>encoding/json\<close> refuses fails the whole document.\<close>

definition opt_int :: "int option \<Rightarrow> json" where
  "opt_int x = (case x of None \<Rightarrow> JNull | Some n \<Rightarrow> jint n)"

definition opt_time :: "stamp option \<Rightarrow> json option" where
  "opt_time x = (case x of None \<Rightarrow> Some JNull | Some (t, zone) \<Rightarrow> json_time zone t)"

definition encode_view :: "json option \<Rightarrow> writer \<Rightarrow> writer" where
  "encode_view v w = (case v of None \<Rightarrow> w | Some j \<Rightarrow> encode_json j w)"

definition all_some :: "'a option list \<Rightarrow> 'a list option" where
  "all_some xs = (if None \<in> set xs then None else Some (map the xs))"

record share_view =
  sv_id :: string
  sv_name :: string
  sv_size :: "int option"
  sv_is_folder :: bool
  sv_mode :: int
  sv_download_count :: int
  sv_max_downloads :: "int option"
  sv_expires_at :: "stamp option"
  sv_created_at :: "stamp option"

definition share_view_of :: "share \<Rightarrow> share_view" where
  "share_view_of s =
     \<lparr> sv_id = sh_id s, sv_name = (if sh_display_name s = [] then sh_file_name s else sh_display_name s),
       sv_size = sh_size s, sv_is_folder = sh_is_folder s, sv_mode = sh_mode s,
       sv_download_count = sh_download_count s, sv_max_downloads = sh_max_downloads s,
       sv_expires_at = sh_expires_at s, sv_created_at = sh_created_at s \<rparr>"

definition share_view_json :: "share_view \<Rightarrow> json option" where
  "share_view_json v =
     Option.bind (opt_time (sv_expires_at v)) (\<lambda>expires.
     Option.bind (opt_time (sv_created_at v)) (\<lambda>created.
       Some (jobject
         [(''id'', jstring (sv_id v)), (''name'', jstring (sv_name v)), (''size'', opt_int (sv_size v)),
          (''isFolder'', JBool (sv_is_folder v)), (''mode'', jint (sv_mode v)),
          (''downloadCount'', jint (sv_download_count v)), (''maxDownloads'', opt_int (sv_max_downloads v)),
          (''expiresAt'', expires), (''createdAt'', created)])))"

definition handle_list_shares :: "provider_service \<Rightarrow> handler" where
  "handle_list_shares svc r w = (case session_from_context r of
      None \<Rightarrow> http_error ''internal server error'' 500 w
    | Some s \<Rightarrow>
        (case ps_list_shares svc (context_with_meta None (meta_from_request r)) (se_email s) w of
           (Inl e, w1) \<Rightarrow>
             if errors_is e err_unexpected_status then http_error ''An error occurred'' 502 w1
             else http_error ''Service temporarily unavailable'' 503 w1
         | (Inr l, w1) \<Rightarrow>
             encode_view (map_option JArr (all_some (map (share_view_json \<circ> share_view_of) l)))
               (w_set ''Content-Type'' json_content_type
                 (audit_log r level_info event_list_shares [attr_str ''email'' (se_email s)] w1))))"

record folder_entry_view =
  fv_id :: string
  fv_name :: string
  fv_size :: "int option"
  fv_mime_type :: string
  fv_is_folder :: bool
  fv_is_own :: bool
  fv_uploaded_at :: "stamp option"

record folder_listing_view =
  lv_is_file :: bool
  lv_entries :: "folder_entry_view list"
  lv_entry :: "folder_entry_view option"

definition to_entry_view :: "folder_entry \<Rightarrow> folder_entry_view" where
  "to_entry_view e =
     \<lparr> fv_id = fe_id e, fv_name = fe_name e, fv_size = fe_size e, fv_mime_type = fe_mime_type e,
       fv_is_folder = fe_is_folder e, fv_is_own = fe_is_own e, fv_uploaded_at = fe_uploaded_at e \<rparr>"

definition entry_view_json :: "folder_entry_view \<Rightarrow> json option" where
  "entry_view_json v = map_option (\<lambda>uploaded. jobject
     [(''id'', jstring (fv_id v)), (''name'', jstring (fv_name v)), (''size'', opt_int (fv_size v)),
      (''mimeType'', jstring (fv_mime_type v)), (''isFolder'', JBool (fv_is_folder v)),
      (''isOwn'', JBool (fv_is_own v)), (''uploadedAt'', uploaded)]) (opt_time (fv_uploaded_at v))"

definition listing_view_json :: "folder_listing_view \<Rightarrow> json option" where
  "listing_view_json v =
     Option.bind (all_some (map entry_view_json (lv_entries v))) (\<lambda>es.
     Option.bind (case lv_entry v of None \<Rightarrow> Some [] | Some e \<Rightarrow> map_option (\<lambda>j. [(''entry'', j)]) (entry_view_json e)) (\<lambda>entry.
       Some (jobject ([(''isFile'', JBool (lv_is_file v)), (''entries'', JArr es)] @ entry))))"

definition write_share_error :: "go_error \<Rightarrow> writer \<Rightarrow> writer" where
  "write_share_error e w =
     (if errors_is e err_share_not_found then http_error ''Share not found'' 404 w
      else if errors_is e err_forbidden then http_error ''Access denied'' 403 w
      else if errors_is e err_share_gone then http_error ''Share expired or download limit reached'' 410 w
      else if errors_is e err_unexpected_status then http_error ''An error occurred'' 502 w
      else http_error ''Service temporarily unavailable'' 503 w)"

definition handle_list_folder :: "provider_service \<Rightarrow> handler" where
  "handle_list_folder svc r w = (case session_from_context r of
      None \<Rightarrow> http_error ''internal server error'' 500 w
    | Some s \<Rightarrow>
        (let share_id = path_value r ''shareID''; path = url_query_get r ''path''
         in case ps_list_folder svc (context_with_meta None (meta_from_request r)) share_id (se_email s) path w of
              (Inl e, w1) \<Rightarrow> write_share_error e w1
            | (Inr l, w1) \<Rightarrow>
                encode_view (listing_view_json
                    \<lparr> lv_is_file = fl_is_file l, lv_entries = map to_entry_view (fl_entries l),
                      lv_entry = map_option to_entry_view (fl_entry l) \<rparr>)
                  (w_set ''Content-Type'' json_content_type
                    (audit_log r level_info event_list_folder
                      [attr_str ''share_id'' share_id, attr_str ''path'' path, attr_str ''email'' (se_email s)] w1))))"

subsection \<open>Wiring\<close>

definition api_routes :: "nat option \<Rightarrow> provider_service \<Rightarrow> stream_proxy \<Rightarrow> handler route list" where
  "api_routes room svc px =
     [route ''GET /api/me'' handle_me,
      route ''GET /api/shares'' (handle_list_shares svc),
      route ''GET /api/shares/{shareID}/content'' (handle_download room px),
      route ''GET /api/shares/{shareID}/folder'' (handle_list_folder svc),
      route ''GET /api/shares/{shareID}/folder/{fileID}/content'' (handle_folder_file_download room px),
      route ''POST /api/shares/{shareID}/upload'' (handle_upload px)]"

definition root_routes ::
  "deployment \<Rightarrow> oidc_auth \<Rightarrow> tos_manager option \<Rightarrow> provider_service \<Rightarrow> stream_proxy \<Rightarrow> string \<Rightarrow> handler \<Rightarrow> handler route list" where
  "root_routes dp a mo svc px branding_dir spa =
     [route ''/'' spa,
      route ''/branding/'' (branding_handler (dp_files dp) (dp_defaults dp) (dp_mount dp) branding_dir),
      route ''GET /healthz'' handle_healthz,
      route ''GET /readyz'' (handle_readyz svc),
      route (''GET '' @ login_path) (login_handler (dp_idp dp) a (dp_random_state dp) (dp_random_nonce dp) (dp_pkce_verifier dp)),
      route (''GET '' @ callback_path) (callback_handler (dp_env dp) (dp_idp dp) a),
      route (''POST '' @ logout_path) (logout_handler (dp_env dp) a),
      route ''/api/'' (require_auth (dp_env dp) a (require_tos (dp_unicode dp) mo (serve_mux (api_routes (dp_room dp) svc px))))]
     @ (case mo of
          None \<Rightarrow> []
        | Some m \<Rightarrow>
            [route (''GET '' @ tos_content_path) (require_auth (dp_env dp) a (content_handler m)),
             route (''POST '' @ tos_accept_path) (require_auth (dp_env dp) a (accept_handler (dp_env dp) (dp_unicode dp) m))])"

definition gateway ::
  "deployment \<Rightarrow> oidc_auth \<Rightarrow> tos_manager option \<Rightarrow> provider_service \<Rightarrow> stream_proxy \<Rightarrow> string \<Rightarrow> shell_config \<Rightarrow> bool \<Rightarrow> handler" where
  "gateway dp a mo svc px branding_dir shell secure_transport =
     (let (spa, script_hashes) = webui_handler (dp_files dp) (dp_dist dp) shell
      in security_headers (serve_mux (root_routes dp a mo svc px branding_dir spa))
           (content_security_policy script_hashes) secure_transport)"

subsection \<open>The provider behind the router\<close>

locale share_service =
  fixes svc :: provider_service
  assumes health_sends: "only_sends w (snd (ps_health_check svc ctx w))"
    and shares_sends: "only_sends w (snd (ps_list_shares svc ctx email w))"
    and folder_sends: "only_sends w (snd (ps_list_folder svc ctx share_id email path w))"
begin

lemma readyz_status:
  assumes "w_committed w = None"
  shows "status_of (handle_readyz svc r w) = (if fst (ps_health_check svc None w) = None then 200 else 503)"
proof -
  obtain e w1 where c: "ps_health_check svc None w = (e, w1)" by fastforce
  have "w_committed w1 = None" using only_sends_parts(3) [OF health_sends [of w None]] assms by (simp add: c)
  then show ?thesis by (simp add: handle_readyz_def c Let_def encode_json_def write_body_reply write_header_status writer_simps)
qed

end

definition client_service :: "provider_net \<Rightarrow> provider_client \<Rightarrow> instant \<Rightarrow> provider_service" where
  "client_service net c now =
     \<lparr> ps_health_check = health_check net c now, ps_list_shares = list_shares net c now, ps_list_folder = list_folder net c now \<rparr>"

lemma client_service_parts [simp]:
  "ps_health_check (client_service net c now) = health_check net c now"
  "ps_list_shares (client_service net c now) = list_shares net c now"
  "ps_list_folder (client_service net c now) = list_folder net c now"
  by (simp_all add: client_service_def)

interpretation client_shares: share_service "client_service net c now" for net c now
  by unfold_locales (simp_all add: service_only_sends)

end
