(* ===== verification/Gateway.thy ===== *)
theory Gateway
  imports Router
begin

section \<open>Properties of the whole gateway\<close>

text \<open>
  Every handler keeps a reply invariant whose guarded headers it does not set and whose condition
  on sent requests its provider calls meet.  From that: the security headers are on every reply, the
  provider hears of a recipient only after the session and the consent were checked, and
  \<open>/api/\<close> is closed by default.
\<close>

subsection \<open>The handlers keep an invariant\<close>

context reply_invariant
begin

lemma keep_server_error: "inv w \<Longrightarrow> inv (server_error m e w)"
  by (simp add: server_error_def keep_replies)

lemma keep_auth_error: "inv w \<Longrightarrow> inv (auth_error r w)"
  by (simp add: auth_error_def keep_replies)

lemma keep_flow_cookie: "inv w \<Longrightarrow> inv (set_flow_cookie a n v w)"
  by (simp add: set_flow_cookie_def keep_replies)

lemma keep_clear_flow: "inv w \<Longrightarrow> inv (clear_flow_cookies a w)"
  by (simp add: clear_flow_cookies_def flow_cookie_names_def keep_replies)

lemma keep_login: "inv w \<Longrightarrow> inv (login_handler p a x y v r w)"
  by (auto simp: login_handler_def Let_def intro!: keep_server_error keep_redirect keep_if keep_flow_cookie split: sum.split)

lemma keep_callback: "inv w \<Longrightarrow> inv (callback_handler env p a r w)"
proof -
  assume w: "inv w"
  then have c: "inv (clear_flow_cookies a w)" by (rule keep_clear_flow)
  show ?thesis
  proof (cases "\<exists>raw d. signs_in env p a r raw d")
    case True
    then show ?thesis
      by (cases rule: callback_outcome [of env p a r w]) (auto simp: c keep_server_error keep_replies)
  next
    case False
    then obtain msg lvl e attrs where "callback_handler env p a r w = auth_error r (log_plain lvl msg attrs (clear_flow_cookies a w))
        \<or> callback_handler env p a r w = auth_error r (audit_log r lvl e attrs (clear_flow_cookies a w))"
      using callback_refused by blast
    with c show ?thesis by (auto simp: keep_auth_error keep_log_plain keep_audit_log)
  qed
qed

lemma keep_write_json: "inv w \<Longrightarrow> inv (write_json n v w)"
  by (simp add: write_json_def keep_replies)

lemma keep_content_handler: "inv w \<Longrightarrow> inv (content_handler m r w)"
  by (simp add: content_handler_def keep_write_json)

lemma keep_accept_handler: "inv w \<Longrightarrow> inv (accept_handler env un m r w)"
  by (auto simp: accept_handler_def set_acceptance_cookie_def Let_def bindr_def
      intro!: keep_replies split: option.split sum.split)

lemma keep_require_tos:
  assumes "inv w" "\<And>s m. session_from_context r = Some s \<Longrightarrow> mo = Some m \<Longrightarrow> check_acceptance un m r (se_email s) \<Longrightarrow> inv (h r w)"
    "mo = None \<Longrightarrow> inv (h r w)"
  shows "inv (require_tos un mo h r w)"
  using assms by (auto simp: require_tos_def keep_http_error keep_write_json split: option.split)

lemma keep_provider_error: "inv w \<Longrightarrow> inv (write_provider_error r op sid em e w)"
  by (simp add: write_provider_error_def keep_replies)

lemma keep_stream_content: "inv w \<Longrightarrow> inv (stream_content room r sid em c extra w)"
  by (auto simp: stream_content_def io_copy_def Let_def intro!: keep_replies split: option.split prod.split)

lemma keep_encode_view: "inv w \<Longrightarrow> inv (encode_view v w)"
  by (simp add: encode_view_def keep_encode_json split: option.split)

lemma keep_share_error: "inv w \<Longrightarrow> inv (write_share_error e w)"
  by (simp add: write_share_error_def keep_replies)

text \<open>A handler keeps the invariant if its call to the backend does.\<close>

lemma keep_handle_download:
  assumes w: "inv w"
    and call: "\<And>s. session_from_context r = Some s \<Longrightarrow> inv (snd (st_download (px_provider p) (Some (meta_from_request r)) (path_value r ''shareID'') (se_email s) w))"
  shows "inv (handle_download room p r w)"
proof (cases "session_from_context r")
  case None
  with w show ?thesis by (simp add: handle_download_def keep_http_error)
next
  case (Some s)
  obtain res v where c: "st_download (px_provider p) (Some (meta_from_request r)) (path_value r ''shareID'') (se_email s) w = (res, v)" by fastforce
  with call [OF Some] have "inv v" by simp
  with Some c show ?thesis
    by (cases res) (simp_all add: handle_download_def context_with_meta_def Let_def keep_provider_error keep_stream_content)
qed

lemma keep_handle_file:
  assumes w: "inv w"
    and call: "\<And>s. session_from_context r = Some s \<Longrightarrow> inv (snd (st_download_file (px_provider p) (Some (meta_from_request r)) (path_value r ''shareID'') (path_value r ''fileID'') (se_email s) w))"
  shows "inv (handle_folder_file_download room p r w)"
proof (cases "session_from_context r")
  case None
  with w show ?thesis by (simp add: handle_folder_file_download_def keep_http_error)
next
  case (Some s)
  obtain res v where c: "st_download_file (px_provider p) (Some (meta_from_request r)) (path_value r ''shareID'') (path_value r ''fileID'') (se_email s) w = (res, v)" by fastforce
  with call [OF Some] have "inv v" by simp
  with Some c show ?thesis
    by (cases res) (simp_all add: handle_folder_file_download_def context_with_meta_def Let_def keep_provider_error keep_stream_content)
qed

lemma keep_handle_upload:
  assumes "inv w"
    "\<And>s f b v. session_from_context r = Some s \<Longrightarrow> inv v \<Longrightarrow>
       inv (snd (st_upload (px_provider p) (Some (meta_from_request r)) (path_value r ''shareID'') (se_email s) f
         (header_get (rq_headers r) ''Content-Type'') (url_query_get r ''path'') b v))"
  shows "inv (handle_upload p r w)"
proof (cases "session_from_context r")
  case None
  with assms(1) show ?thesis by (simp add: handle_upload_def keep_http_error)
next
  case (Some s)
  from handle_upload_call [OF Some, of p w] show ?thesis
  proof (elim disjE exE conjE)
    fix w1 f ctx x
    assume ctx: "ctx = Some (meta_from_request r)"
      and w1: "w1 = audit_log r level_audit event_upload_start
        (x @ (if 0 \<le> rq_content_length r then [(''file_size'', LInt (rq_content_length r))] else [])) w"
      and h: "handle_upload p r w =
        (case st_upload (px_provider p) ctx (path_value r ''shareID'') (se_email s) f
            (header_get (rq_headers r) ''Content-Type'') (url_query_get r ''path'')
            (max_bytes_reader (px_max_upload_size p) (rq_body r, rq_body_error r)) w1 of
           (Inl e, w') \<Rightarrow> if is_max_bytes e then too_large p w'
                          else write_provider_error r ''upload'' (path_value r ''shareID'') (se_email s) e w'
         | (Inr n, w') \<Rightarrow> write_header 201 (audit_log r level_info event_upload_complete (x @ [(''file_size'', LInt (int n))]) w'))"
    have w1': "inv w1" using assms(1) by (simp add: w1 keep_audit_log)
    obtain res v where c: "st_upload (px_provider p) ctx (path_value r ''shareID'') (se_email s) f
            (header_get (rq_headers r) ''Content-Type'') (url_query_get r ''path'')
            (max_bytes_reader (px_max_upload_size p) (rq_body r, rq_body_error r)) w1 = (res, v)" by fastforce
    with assms(2) [OF Some w1', folded ctx] have "inv v" by (metis snd_conv)
    then show ?thesis
      unfolding h c by (cases res) (simp_all add: too_large_def keep_http_error keep_provider_error inv_commit keep_audit_log)
  qed (simp add: assms(1) keep_http_error)
qed

lemma keep_handle_shares:
  assumes w: "inv w"
    and call: "\<And>s. session_from_context r = Some s \<Longrightarrow> inv (snd (ps_list_shares svc (Some (meta_from_request r)) (se_email s) w))"
  shows "inv (handle_list_shares svc r w)"
proof (cases "session_from_context r")
  case None
  with w show ?thesis by (simp add: handle_list_shares_def keep_http_error)
next
  case (Some s)
  obtain res v where c: "ps_list_shares svc (Some (meta_from_request r)) (se_email s) w = (res, v)" by fastforce
  with call [OF Some] have "inv v" by simp
  with Some c show ?thesis
    by (cases res) (simp_all add: handle_list_shares_def context_with_meta_def Let_def keep_http_error keep_encode_view keep_set keep_audit_log)
qed

lemma keep_handle_folder:
  assumes w: "inv w"
    and call: "\<And>s. session_from_context r = Some s \<Longrightarrow> inv (snd (ps_list_folder svc (Some (meta_from_request r)) (path_value r ''shareID'') (se_email s) (url_query_get r ''path'') w))"
  shows "inv (handle_list_folder svc r w)"
proof (cases "session_from_context r")
  case None
  with w show ?thesis by (simp add: handle_list_folder_def keep_http_error)
next
  case (Some s)
  obtain res v where c: "ps_list_folder svc (Some (meta_from_request r)) (path_value r ''shareID'') (se_email s) (url_query_get r ''path'') w = (res, v)" by fastforce
  with call [OF Some] have "inv v" by simp
  with Some c show ?thesis
    by (cases res) (simp_all add: handle_list_folder_def context_with_meta_def Let_def keep_share_error keep_encode_view keep_set keep_audit_log)
qed

lemma keep_handle_me: "inv w \<Longrightarrow> inv (handle_me r w)"
  by (auto simp: handle_me_def intro: keep_http_error keep_encode_json keep_set split: option.split)

lemma keep_healthz: "inv w \<Longrightarrow> inv (handle_healthz r w)"
  by (simp add: handle_healthz_def keep_replies)

lemma keep_readyz: "inv (snd (ps_health_check svc None w)) \<Longrightarrow> inv (handle_readyz svc r w)"
  by (auto simp: handle_readyz_def Let_def intro!: keep_encode_json inv_commit keep_set split: prod.split)

end

subsection \<open>What the provider client sends\<close>

definition for_recipient :: "provider_net \<Rightarrow> provider_client \<Rightarrow> instant \<Rightarrow> string \<Rightarrow> outgoing \<Rightarrow> bool" where
  "for_recipient net c now email q \<longleftrightarrow> (\<exists>share_id action. signed_for net c now share_id email action q)"

lemma request_newly_sent:
  assumes "''Authorization'' \<notin> set (map fst headers)"
    "q \<in> set (newly_sent w (snd (provider_request net c now ctx timeout meth path share_id email action body headers w)))"
  shows "signed_for net c now share_id email action q"
  using provider_request_signed [OF assms(1), of net c now ctx timeout meth path share_id email action body w] assms(2)
  by (auto simp: newly_sent_def)

lemma do_newly_sent:
  "q \<in> set (newly_sent w (snd (provider_do net c now ctx meth path share_id email action w))) \<Longrightarrow>
     signed_for net c now share_id email action q"
  unfolding provider_do_def by (rule request_newly_sent) simp_all

lemma do_writer:
  "snd (list_folder net c now ctx share_id email path w)
     = snd (provider_do net c now ctx ''GET'' (with_path (share_path share_id @ ''/folder'') path) share_id email ''list-folder'' w)"
  "snd (list_shares net c now ctx email w)
     = snd (provider_do net c now ctx ''GET'' ''/api/v1/shares'' [] email ''list-shares'' w)"
  "snd (health_check net c now ctx w) = snd (provider_do net c now ctx ''GET'' ''/api/v1/health'' [] [] ''healthcheck'' w)"
  by (auto simp: list_folder_def list_shares_def health_check_def split: prod.split sum.split option.split)

lemma client_newly_sent:
  "q \<in> set (newly_sent w (snd (download net c now ctx share_id email w))) \<Longrightarrow> for_recipient net c now email q"
  "q \<in> set (newly_sent w (snd (download_folder_file net c now ctx share_id file_id email w))) \<Longrightarrow> for_recipient net c now email q"
  "q \<in> set (newly_sent w (snd (upload net c now ctx share_id email f ctype path body w))) \<Longrightarrow> for_recipient net c now email q"
  "q \<in> set (newly_sent w (snd (list_folder net c now ctx share_id email path w))) \<Longrightarrow> for_recipient net c now email q"
  "q \<in> set (newly_sent w (snd (list_shares net c now ctx email w))) \<Longrightarrow> for_recipient net c now email q"
  "q \<in> set (newly_sent w (snd (health_check net c now ctx w))) \<Longrightarrow> signed_for net c now [] [] ''healthcheck'' q"
  unfolding do_writer download_def download_folder_file_def upload_def map_result_snd for_recipient_def
  by (auto dest!: do_newly_sent request_newly_sent [rotated])

lemma same_cookies:
  assumes "rq_cookies r' = rq_cookies r"
  shows "fst (validate_session_cookie env a r' w') = fst (validate_session_cookie env a r w)"
    "check_acceptance un m r' e = check_acceptance un m r e"
  using assms
  by (auto simp: validate_session_cookie_def check_acceptance_def request_cookie_def split: option.split sum.split)

lemma with_session_parts [simp]:
  "session_from_context (with_session r d) = Some d" "rq_cookies (with_session r d) = rq_cookies r"
  by (simp_all add: session_from_context_def with_session_def)

lemma route_handler [simp]: "snd (snd (route p h)) = h"
  by (simp add: route_def)

definition consented :: "unicode_ops \<Rightarrow> tos_manager option \<Rightarrow> 'a request_scheme \<Rightarrow> string \<Rightarrow> bool" where
  "consented un mo r email = (case mo of None \<Rightarrow> True | Some m \<Rightarrow> check_acceptance un m r email)"

context reply_invariant
begin

lemma keep_client_calls:
  assumes "inv w" "\<And>q. for_recipient net c now email q \<Longrightarrow> allowed q"
  shows "inv (snd (download net c now ctx sid email w))" "inv (snd (download_folder_file net c now ctx sid fid email w))"
    "inv (snd (upload net c now ctx sid email f ctype path body w))" "inv (snd (list_folder net c now ctx sid email path w))"
    "inv (snd (list_shares net c now ctx email w))"
  by (rule inv_sends [OF assms(1)], rule service_only_sends, rule assms(2), erule client_newly_sent)+

lemma keep_health_check:
  assumes "inv w" "\<And>q. signed_for net c now [] [] ''healthcheck'' q \<Longrightarrow> allowed q"
  shows "inv (snd (health_check net c now ctx w))"
  by (rule inv_sends [OF assms(1)], rule service_only_sends, rule assms(2), erule client_newly_sent)

lemma keep_api:
  assumes w: "inv w" and s: "session_from_context r = Some s" and ok: "\<And>q. for_recipient net c now (se_email s) q \<Longrightarrow> allowed q"
  shows "inv (serve_mux (api_routes room (client_service net c now) (gateway_proxy net c now lim)) r w)"
proof (rule keep_serve_mux [OF w])
  fix m segs h vals
  let ?r = "r\<lparr> rq_path_values := vals \<rparr>"
  assume "(m, segs, h) \<in> set (api_routes room (client_service net c now) (gateway_proxy net c now lim))"
  then have "h \<in> (\<lambda>x. snd (snd x)) ` set (api_routes room (client_service net c now) (gateway_proxy net c now lim))"
    by force
  then have hs: "h \<in> {handle_me, handle_list_shares (client_service net c now), handle_download room (gateway_proxy net c now lim),
      handle_list_folder (client_service net c now), handle_folder_file_download room (gateway_proxy net c now lim),
      handle_upload (gateway_proxy net c now lim)}"
    by (simp add: api_routes_def)
  have e: "session_from_context ?r = Some t \<Longrightarrow> t = s" for t using s by (simp add: session_from_context_def)
  have c: "session_from_context ?r = Some t \<Longrightarrow> for_recipient net c now (se_email t) q \<Longrightarrow> allowed q" for t q
    using ok e by blast
  have "inv (handle_list_shares (client_service net c now) ?r w)"
    by (rule keep_handle_shares [OF w]) (use c in \<open>simp add: keep_client_calls [OF w]\<close>)
  moreover have "inv (handle_list_folder (client_service net c now) ?r w)"
    by (rule keep_handle_folder [OF w]) (use c in \<open>simp add: keep_client_calls [OF w]\<close>)
  moreover have "inv (handle_download room (gateway_proxy net c now lim) ?r w)"
    by (rule keep_handle_download [OF w]) (use c in \<open>simp add: keep_client_calls [OF w]\<close>)
  moreover have "inv (handle_folder_file_download room (gateway_proxy net c now lim) ?r w)"
    by (rule keep_handle_file [OF w]) (use c in \<open>simp add: keep_client_calls [OF w]\<close>)
  moreover have "inv (handle_upload (gateway_proxy net c now lim) ?r w)"
    by (rule keep_handle_upload [OF w]) (use c in \<open>simp add: keep_client_calls\<close>)
  ultimately show "inv (h ?r w)" using hs keep_handle_me [OF w] by (elim insertE emptyE; simp only:)
qed

text \<open>The request behind the gate: its own, with the path's values and the session of the cookie.\<close>

lemma keep_gated_api:
  assumes w: "inv w" and same: "rq_cookies r' = rq_cookies r"
    and ok: "\<And>d q. fst (validate_session_cookie env a r w) = Inr d \<Longrightarrow> consented un mo r (se_email d)
      \<Longrightarrow> for_recipient net c now (se_email d) q \<Longrightarrow> allowed q"
  shows "inv (require_auth env a (require_tos un mo
      (serve_mux (api_routes room (client_service net c now) (gateway_proxy net c now lim)))) r' w)"
proof (rule keep_require_auth [OF w])
  fix d d' :: session and w' :: writer
  assume v: "fst (validate_session_cookie env a r' w) = Inr d" and e: "se_email d' = se_email d" and w': "inv w'"
  let ?r = "with_session r' d'"
  have s: "session_from_context ?r = Some d'" by simp
  have v': "fst (validate_session_cookie env a r w) = Inr d" using v same_cookies(1) [OF same, of env a w w] by simp
  have "rq_cookies ?r = rq_cookies r" using same by simp
  from same_cookies(2) [OF this] have "consented un mo ?r (se_email d') = consented un mo r (se_email d)"
    by (simp add: consented_def e split: option.split)
  then have ok': "for_recipient net c now (se_email d') q \<Longrightarrow> allowed q" if "consented un mo ?r (se_email d')" for q
    using ok [OF v'] that by (simp add: e)
  show "inv (require_tos un mo (serve_mux (api_routes room (client_service net c now) (gateway_proxy net c now lim))) ?r w')"
    by (rule keep_require_tos [OF w']) (use s in \<open>auto simp: consented_def intro!: keep_api [OF w' s] ok'\<close>)
qed

lemma keep_root:
  assumes w: "inv w" and spa: "\<And>r. inv (spa r w)"
    and health: "\<And>q. signed_for net c now [] [] ''healthcheck'' q \<Longrightarrow> allowed q"
    and ok: "\<And>d q. fst (validate_session_cookie (dp_env dp) a r w) = Inr d \<Longrightarrow> consented (dp_unicode dp) mo r (se_email d)
      \<Longrightarrow> for_recipient net c now (se_email d) q \<Longrightarrow> allowed q"
  shows "inv (serve_mux (root_routes dp a mo (client_service net c now) (gateway_proxy net c now lim) dir spa) r w)"
proof (rule keep_serve_mux [OF w])
  fix m segs h vals
  let ?r = "r\<lparr> rq_path_values := vals \<rparr>"
  let ?api = "serve_mux (api_routes (dp_room dp) (client_service net c now) (gateway_proxy net c now lim))"
  assume "(m, segs, h) \<in> set (root_routes dp a mo (client_service net c now) (gateway_proxy net c now lim) dir spa)"
  then have "h \<in> (\<lambda>x. snd (snd x)) ` set (root_routes dp a mo (client_service net c now) (gateway_proxy net c now lim) dir spa)"
    by force
  then consider "h = spa" | "h = branding_handler (dp_files dp) (dp_defaults dp) (dp_mount dp) dir" | "h = handle_healthz"
    | "h = handle_readyz (client_service net c now)"
    | "h = login_handler (dp_idp dp) a (dp_random_state dp) (dp_random_nonce dp) (dp_pkce_verifier dp)"
    | "h = callback_handler (dp_env dp) (dp_idp dp) a" | "h = logout_handler (dp_env dp) a"
    | "h = require_auth (dp_env dp) a (require_tos (dp_unicode dp) mo ?api)"
    | t where "h = require_auth (dp_env dp) a (content_handler t)"
    | t where "h = require_auth (dp_env dp) a (accept_handler (dp_env dp) (dp_unicode dp) t)"
    by (auto simp: root_routes_def split: option.splits)
  then show "inv (h ?r w)"
  proof cases
    case 4
    then show ?thesis using keep_health_check [OF w health] by (simp add: keep_readyz)
  next
    case 8
    have "rq_cookies ?r = rq_cookies r" by simp
    from keep_gated_api [OF w this ok] 8 show ?thesis by simp
  next
    case (9 t)
    then show ?thesis using keep_require_auth [OF w] keep_content_handler by blast
  next
    case (10 t)
    then show ?thesis using keep_require_auth [OF w] keep_accept_handler by blast
  qed (simp_all add: w spa keep_branding keep_healthz keep_login keep_callback keep_logout)
qed

end

subsection \<open>Properties\<close>

definition protocol_headers :: "string set" where
  "protocol_headers = {''Content-Security-Policy'', ''X-Content-Type-Options'', ''X-Frame-Options'', ''Referrer-Policy'',
     ''Strict-Transport-Security''}"

definition hardened :: "string \<Rightarrow> bool \<Rightarrow> string header_map" where
  "hardened csp tls =
     [''Content-Security-Policy'' \<mapsto> csp, ''X-Content-Type-Options'' \<mapsto> ''nosniff'', ''X-Frame-Options'' \<mapsto> ''DENY'',
      ''Referrer-Policy'' \<mapsto> ''no-referrer'']
     (''Strict-Transport-Security'' := (if tls then Some hsts_value else None))"

lemma protocol_headers_guarded: "protocol_headers \<inter> open_headers = {}"
  by (simp add: protocol_headers_def open_headers_def session_expires_header_def)

lemma hardened_nosniff: "hardened csp tls ''X-Content-Type-Options'' = Some ''nosniff''"
  by (simp add: hardened_def)

interpretation hardened_reply: reply_invariant "reply_ok protocol_headers (hardened csp tls) allowed" protocol_headers allowed
  for csp tls allowed
  by (rule reply_ok_invariant; rule protocol_headers_guarded hardened_nosniff)

text \<open>What holds of the writer when the routed handler starts.\<close>

definition secured :: "string \<Rightarrow> bool \<Rightarrow> writer \<Rightarrow> writer" where
  "secured csp tls w = security_headers (\<lambda>r w. w) csp tls (gw_get []) w"

lemma security_headers_secured: "security_headers h csp tls r w = h r (secured csp tls w)"
  by (simp add: security_headers_def secured_def Let_def)

lemma secured_ok: "reply_ok protocol_headers (hardened csp tls) allowed (secured csp tls new_writer)"
  by (simp add: reply_ok_def secured_def security_headers_def Let_def writer_simps protocol_headers_def hardened_def)

lemma gateway_ok:
  assumes "\<And>q. signed_for net c now [] [] ''healthcheck'' q \<Longrightarrow> allowed q"
    and "\<And>d q. fst (validate_session_cookie (dp_env dp) a r new_writer) = Inr d \<Longrightarrow> consented (dp_unicode dp) mo r (se_email d)
      \<Longrightarrow> for_recipient net c now (se_email d) q \<Longrightarrow> allowed q"
    and csp: "csp = content_security_policy (snd (webui_handler (dp_files dp) (dp_dist dp) shell))"
  shows "reply_ok protocol_headers (hardened csp tls) allowed
    (gateway dp a mo (client_service net c now) (gateway_proxy net c now lim) dir shell tls r new_writer)"
proof -
  obtain spa hashes where ui: "webui_handler (dp_files dp) (dp_dist dp) shell = (spa, hashes)" by fastforce
  let ?w = "secured csp tls new_writer"
  have g: "gateway dp a mo (client_service net c now) (gateway_proxy net c now lim) dir shell tls r new_writer
      = serve_mux (root_routes dp a mo (client_service net c now) (gateway_proxy net c now lim) dir spa) r ?w"
    by (simp add: gateway_def ui security_headers_secured csp)
  show ?thesis unfolding g
  proof (rule hardened_reply.keep_root [OF secured_ok])
    show "reply_ok protocol_headers (hardened csp tls) allowed (spa r ?w)" for r
      using hardened_reply.keep_webui [OF secured_ok, where fo = "dp_files dp" and dist = "dp_dist dp" and cfg = shell] by (simp add: ui)
    show "allowed q" if "signed_for net c now [] [] ''healthcheck'' q" for q using assms(1) that .
    show "allowed q" if "fst (validate_session_cookie (dp_env dp) a r ?w) = Inr d"
      "consented (dp_unicode dp) mo r (se_email d)" "for_recipient net c now (se_email d) q" for d q
      using assms(2) that same_cookies(1) [of r r] by metis
  qed
qed

text \<open>C1: Nothing reaches the storage provider behind a recipient's back.  Whatever the request, every
  call the gateway makes while serving it is the readiness probe, signed for no share and no email,
  or is signed for the email of a session that the request's cookie proves, whose consent to the
  current terms was checked when there are terms.\<close>

theorem provider_calls_are_authorized:
  assumes "q \<in> set (w_sent (gateway dp a mo (client_service net c now) (gateway_proxy net c now lim) dir shell tls r new_writer))"
  shows "signed_for net c now [] [] ''healthcheck'' q
    \<or> (\<exists>d. fst (validate_session_cookie (dp_env dp) a r new_writer) = Inr d \<and> consented (dp_unicode dp) mo r (se_email d)
         \<and> for_recipient net c now (se_email d) q)"
  by (rule reply_ok_sent [OF gateway_ok assms]) auto

text \<open>C7: Every reply of the gateway, of every route, error and redirect, carries the hardening headers
  with their values, and HSTS exactly when the deployment is served over TLS.\<close>

theorem every_reply_is_hardened:
  assumes "k \<in> protocol_headers"
  shows "header_of (gateway dp a mo (client_service net c now) (gateway_proxy net c now lim) dir shell tls r new_writer) k
    = hardened (content_security_policy (snd (webui_handler (dp_files dp) (dp_dist dp) shell))) tls k"
  by (rule reply_ok_headers [OF gateway_ok assms, where allowed = "\<lambda>_. True"]) simp_all

subsection \<open>The route tables\<close>

lemma patterns:
  "pattern_of ''/'' = (None, [SSub])"
  "pattern_of ''/branding/'' = (None, [SLit ''branding'', SSub])"
  "pattern_of ''/api/'' = (None, [SLit ''api'', SSub])"
  "pattern_of ''GET /healthz'' = (Some ''GET'', [SLit ''healthz''])"
  "pattern_of ''GET /readyz'' = (Some ''GET'', [SLit ''readyz''])"
  "pattern_of (''GET '' @ login_path) = (Some ''GET'', [SLit ''auth'', SLit ''login''])"
  "pattern_of (''GET '' @ callback_path) = (Some ''GET'', [SLit ''auth'', SLit ''callback''])"
  "pattern_of (''POST '' @ logout_path) = (Some ''POST'', [SLit ''auth'', SLit ''logout''])"
  "pattern_of (''GET '' @ tos_content_path) = (Some ''GET'', [SLit ''api'', SLit ''tos''])"
  "pattern_of (''POST '' @ tos_accept_path) = (Some ''POST'', [SLit ''api'', SLit ''tos'', SLit ''accept''])"
  "pattern_of ''GET /api/me'' = (Some ''GET'', [SLit ''api'', SLit ''me''])"
  "pattern_of ''GET /api/shares'' = (Some ''GET'', [SLit ''api'', SLit ''shares''])"
  "pattern_of ''GET /api/shares/{shareID}/content'' = (Some ''GET'', [SLit ''api'', SLit ''shares'', SWild ''shareID'', SLit ''content''])"
  "pattern_of ''GET /api/shares/{shareID}/folder'' = (Some ''GET'', [SLit ''api'', SLit ''shares'', SWild ''shareID'', SLit ''folder''])"
  "pattern_of ''GET /api/shares/{shareID}/folder/{fileID}/content'' = (Some ''GET'', [SLit ''api'', SLit ''shares'', SWild ''shareID'', SLit ''folder'', SWild ''fileID'', SLit ''content''])"
  "pattern_of ''POST /api/shares/{shareID}/upload'' = (Some ''POST'', [SLit ''api'', SLit ''shares'', SWild ''shareID'', SLit ''upload''])"
  by code_simp+

lemmas route_patterns = patterns [THEN third_route]

text \<open>What a path under \<open>/api/\<close> is routed to: the gate, or with terms one of the two consent endpoints.\<close>

definition gate :: "deployment \<Rightarrow> oidc_auth \<Rightarrow> tos_manager option \<Rightarrow> provider_service \<Rightarrow> stream_proxy \<Rightarrow> handler" where
  "gate dp a mo svc px = require_tos (dp_unicode dp) mo (serve_mux (api_routes (dp_room dp) svc px))"

definition consent_path :: "tos_manager option \<Rightarrow> string \<Rightarrow> string list \<Rightarrow> bool" where
  "consent_path mo meth ss \<longleftrightarrow> mo \<noteq> None \<and>
     (meth \<in> {''GET'', ''HEAD''} \<and> ss = [''tos''] \<or> meth = ''POST'' \<and> ss = [''tos'', ''accept''])"

lemma methods_differ: "''GET'' \<noteq> ''POST''" "''HEAD'' \<noteq> ''GET''" "''HEAD'' \<noteq> ''POST''" by simp_all

lemmas root_table = root_routes_def [unfolded route_patterns]
lemmas api_table = api_routes_def [unfolded route_patterns]

lemma root_api_gate:
  assumes "mux_segments p = ''api'' # ss" "ss \<noteq> []"
  shows "match_path (of_method None (root_routes dp a mo svc px dir spa)) (mux_segments p) []
    = Some ((None, [SLit ''api'', SSub], require_auth (dp_env dp) a (gate dp a mo svc px)), [])"
  using assms
  by (simp add: root_table gate_def of_method_def lits_def match_subtree or_else_def split: option.split)

lemma root_api_consent:
  assumes "mux_segments p = ''api'' # ss" "ss \<noteq> []" "meth \<noteq> ''HEAD''"
  shows "match_path (of_method (Some meth) (root_routes dp a mo svc px dir spa)) (mux_segments p) []
    = (if consent_path mo meth ss
       then Some ((Some meth, SLit ''api'' # map SLit ss, require_auth (dp_env dp) a
          (if meth = ''GET'' then content_handler (the mo) else accept_handler (dp_env dp) (dp_unicode dp) (the mo))), [])
       else None)"
proof -
  let ?rs = "root_routes dp a mo svc px dir spa"
  have l: "wilds (of_method (Some meth) ?rs) = []" "ended [SSub] (of_method (Some meth) ?rs) = None"
    "lits ''api'' (of_method (Some meth) ?rs) = (case mo of None \<Rightarrow> [] | Some m \<Rightarrow>
       (if meth = ''GET'' then [(map SLit [''tos''], (Some ''GET'', [SLit ''api'', SLit ''tos''], require_auth (dp_env dp) a (content_handler m)))] else [])
       @ (if meth = ''POST'' then [(map SLit [''tos'', ''accept''], (Some ''POST'', [SLit ''api'', SLit ''tos'', SLit ''accept''],
            require_auth (dp_env dp) a (accept_handler (dp_env dp) (dp_unicode dp) m)))] else []))"
    by (auto simp: root_table of_method_def wilds_def lits_def ended_def split: option.split)
  show ?thesis
    unfolding assms(1) match_path.simps l
    by (cases mo; cases "meth = ''GET''"; cases "meth = ''POST''")
      (use assms(3) in \<open>auto simp: match_literals [of "[t]" for t, simplified] match_literals [of "[t, u]" for t u, simplified]
        or_else_def consent_path_def\<close>)
qed

lemma last_literal: "ss \<noteq> [] \<Longrightarrow> last (map SLit ss) \<noteq> SSub"
  by (simp add: last_map)

lemma root_match_api:
  assumes "mux_segments p = ''api'' # ss" "ss \<noteq> []"
  shows "\<exists>m segs nxt. mux_match (root_routes dp a mo svc px dir spa) meth p = Some ((m, segs, require_auth (dp_env dp) a nxt), [])
    \<and> (if consent_path mo meth ss then last segs \<noteq> SSub else segs = [SLit ''api'', SSub] \<and> nxt = gate dp a mo svc px)"
proof -
  have head: "match_path (of_method (Some ''HEAD'') (root_routes dp a mo svc px dir spa)) (mux_segments p) [] = None"
  proof -
    have "of_method (Some ''HEAD'') (root_routes dp a mo svc px dir spa) = []"
      by (simp add: root_table of_method_def split: option.split)
    then show ?thesis by simp
  qed
  show ?thesis
  proof (cases "meth = ''HEAD''")
    case True
    have "consent_path mo ''HEAD'' ss \<longleftrightarrow> consent_path mo ''GET'' ss" by (auto simp: consent_path_def)
    with True assms(2) show ?thesis
      unfolding mux_match_def True head root_api_gate [OF assms] root_api_consent [OF assms methods_differ(2) [symmetric]]
      using last_literal by (auto simp: or_else_def)
  next
    case False
    with assms(2) show ?thesis
      unfolding mux_match_def root_api_gate [OF assms] root_api_consent [OF assms False]
      using last_literal by (auto simp: or_else_def)
  qed
qed

text \<open>A clean request for a path under \<open>/api/\<close>.\<close>

definition api_request :: "gw_request \<Rightarrow> string list \<Rightarrow> bool" where
  "api_request r ss \<longleftrightarrow>
     clean_path (escaped_path (rq_url r)) = escaped_path (rq_url r) \<and> u_path (rq_url r) \<noteq> ''*''
     \<and> mux_segments (escaped_path (rq_url r)) = ''api'' # ss \<and> ss \<noteq> []"

lemma path_clean_slash: "has_prefix p ''/'' \<Longrightarrow> has_prefix (path_clean p) ''/''"
  by (simp add: path_clean_def Let_def)

lemma clean_path_slash: "has_prefix (clean_path p) ''/''"
proof (cases p)
  case (Cons c s)
  then have "has_prefix (if hd p = CHR ''/'' then p else CHR ''/'' # p) ''/''" by simp
  from path_clean_slash [OF this] Cons show ?thesis
    by (auto simp: clean_path_def Let_def has_prefix_appendI)
qed (simp add: clean_path_def)

lemma api_request_routed:
  assumes "api_request r ss"
  shows "\<exists>nxt vals. serve_mux (root_routes dp a mo svc px dir spa) r w = require_auth (dp_env dp) a nxt (r\<lparr> rq_path_values := vals \<rparr>) w
    \<and> (\<not> consent_path mo (rq_method r) ss \<longrightarrow> nxt = gate dp a mo svc px)"
proof -
  let ?rs = "root_routes dp a mo svc px dir spa" and ?p = "escaped_path (rq_url r)" and ?m = "rq_method r"
  have p: "clean_path ?p = ?p" "u_path (rq_url r) \<noteq> ''*''" "mux_segments ?p = ''api'' # ss" "ss \<noteq> []" "has_prefix ?p ''/''"
    using assms clean_path_slash [of ?p] by (auto simp: api_request_def)
  obtain m segs nxt where match: "mux_match ?rs ?m ?p = Some ((m, segs, require_auth (dp_env dp) a nxt), [])"
    and c: "if consent_path mo ?m ss then last segs \<noteq> SSub else segs = [SLit ''api'', SSub] \<and> nxt = gate dp a mo svc px"
    using root_match_api [OF p(3,4)] by metis
  have "\<not> slash_redirect ?rs ?m ?p"
  proof
    assume s: "slash_redirect ?rs ?m ?p"
    then have n: "\<not> has_suffix ?p ''/''" "exact_match (mux_match ?rs ?m (?p @ ''/'')) (?p @ ''/'')"
      by (simp_all add: slash_redirect_def)
    note seg = mux_segments_slash [OF p(5) n(1)]
    have q: "mux_segments (?p @ ''/'') = ''api'' # (ss @ [''/''])" "ss @ [''/''] \<noteq> []" using seg(1) p(3) by simp_all
    have "\<not> consent_path mo ?m (ss @ [''/''])" by (auto simp: consent_path_def)
    then obtain m' nxt' where "mux_match ?rs ?m (?p @ ''/'') = Some ((m', [SLit ''api'', SSub], require_auth (dp_env dp) a nxt'), [])"
      using root_match_api [OF q, of dp a mo svc px dir spa ?m] by auto
    with n(2) have "length (filter (\<lambda>c. c = CHR ''/'') (?p @ ''/'')) = 2" by (simp add: exact_match_def)
    then show False using seg(2) p(3,4) by (cases ss) simp_all
  qed
  moreover have "(if ?m = ''CONNECT'' then ?p else clean_path ?p) = ?p" using p(1) by simp
  ultimately have "serve_mux ?rs r w = dispatch ?rs ?p r w"
    using p(2) by (simp only: serve_mux_def Let_def if_False simp_thms)
  then show ?thesis using match c by (auto simp: dispatch_def)
qed

lemma denied_request:
  assumes "fst (validate_session_cookie env a r w) = Inl e" "w_committed w = None" "rq_cookies r' = rq_cookies r" "wants_json r' = wants_json r"
  shows "status_of (require_auth env a h r' w) = (if wants_json r then 401 else 302)"
    "w_sent (require_auth env a h r' w) = w_sent w"
proof -
  have "fst (validate_session_cookie env a r' w) = Inl e" using assms(1) same_cookies(1) [OF assms(3)] by metis
  then obtain w' where v: "validate_session_cookie env a r' w = (Inl e, w')" by (metis eq_fst_iff)
  have w': "w_committed w' = None" using validate_writer(3) [of env a r' w] assms(2) by (simp add: v)
  have "w_sent w' = w_sent w"
    using v by (auto simp: validate_session_cookie_def writer_simps split: option.splits sum.splits if_splits)
  then show "w_sent (require_auth env a h r' w) = w_sent w"
    using w' by (simp add: require_auth_def v deny_unauthenticated_def encode_json_def http_redirect_reply Let_def writer_simps)
  show "status_of (require_auth env a h r' w) = (if wants_json r then 401 else 302)"
    using w' assms(4) by (simp add: require_auth_def v deny_reply writer_simps)
qed

text \<open>C2: \<open>/api/\<close> is closed by default.  A clean request for any path under it, whatever the method and
  whether or not the path names an endpoint, is denied without a valid session and nothing is sent
  to the provider; with a session that has not accepted the current terms it is answered 403,
  unless it is for one of the two consent endpoints.\<close>

theorem api_is_closed_by_default:
  assumes "api_request r ss"
    and "v = gateway dp a mo (client_service net c now) (gateway_proxy net c now lim) dir shell tls r new_writer"
  shows "(\<forall>e. fst (validate_session_cookie (dp_env dp) a r new_writer) = Inl e \<longrightarrow>
        status_of v = (if wants_json r then 401 else 302) \<and> w_sent v = [])
    \<and> (\<forall>d m. fst (validate_session_cookie (dp_env dp) a r new_writer) = Inr d \<and> mo = Some m
          \<and> \<not> check_acceptance (dp_unicode dp) m r (se_email d) \<and> \<not> consent_path mo (rq_method r) ss \<longrightarrow>
        status_of v = 403 \<and> w_body v = print_json (jobject [(''error'', jstring ''tos_required'')]) @ newline)"
proof -
  obtain spa hashes where ui: "webui_handler (dp_files dp) (dp_dist dp) shell = (spa, hashes)" by fastforce
  let ?svc = "client_service net c now" and ?px = "gateway_proxy net c now lim"
  let ?w = "secured (content_security_policy hashes) tls new_writer"
  have w: "w_committed ?w = None" "w_sent ?w = []" "w_body ?w = []"
    by (simp_all add: secured_def security_headers_def Let_def writer_simps)
  obtain nxt vals where v: "v = require_auth (dp_env dp) a nxt (r\<lparr> rq_path_values := vals \<rparr>) ?w"
    and nxt: "\<not> consent_path mo (rq_method r) ss \<longrightarrow> nxt = gate dp a mo ?svc ?px"
    using api_request_routed [OF assms(1), of dp a mo ?svc ?px dir spa ?w] assms(2)
    by (auto simp: gateway_def ui security_headers_secured)
  let ?r = "r\<lparr> rq_path_values := vals \<rparr>"
  have val: "fst (validate_session_cookie (dp_env dp) a r' w') = fst (validate_session_cookie (dp_env dp) a r new_writer)"
    if "rq_cookies r' = rq_cookies r" for r' :: gw_request and w' using same_cookies(1) [OF that] .
  show ?thesis
  proof (intro conjI allI impI; (elim conjE)?)
    fix e
    assume "fst (validate_session_cookie (dp_env dp) a r new_writer) = Inl e"
    then have e: "fst (validate_session_cookie (dp_env dp) a r ?w) = Inl e" using val [of r ?w] by simp
    show "status_of v = (if wants_json r then 401 else 302)" "w_sent v = []"
      using denied_request [OF e w(1), of ?r nxt] w(2) by (simp_all add: v wants_json_def)
  next
    fix d m
    assume d: "fst (validate_session_cookie (dp_env dp) a r new_writer) = Inr d" and m: "mo = Some m"
      and no: "\<not> check_acceptance (dp_unicode dp) m r (se_email d)" and c: "\<not> consent_path mo (rq_method r) ss"
    have "fst (validate_session_cookie (dp_env dp) a ?r ?w) = Inr d" using d val [of ?r ?w] by simp
    then obtain w1 where w1: "validate_session_cookie (dp_env dp) a ?r ?w = (Inr d, w1)" by (metis eq_fst_iff)
    obtain d' w2 where t: "touch_session (dp_env dp) a w1 d = (d', w2)" by fastforce
    have d': "se_email d' = se_email d" using touch_session_identity [of "dp_env dp" a w1 d] by (auto simp: t)
    have w2: "w_committed w2 = None" "w_body w2 = []"
      using validate_writer(3,4) [of "dp_env dp" a ?r ?w] touch_session_writer(1,2) [of "dp_env dp" a w1 d] w by (simp_all add: w1 t)
    have "check_acceptance (dp_unicode dp) m (with_session ?r d') (se_email d') = check_acceptance (dp_unicode dp) m r (se_email d)"
      using same_cookies(2) [of "with_session ?r d'" r] by (simp add: d')
    then have v': "v = write_json 403 (jobject [(''error'', jstring ''tos_required'')]) w2"
      using nxt c no by (simp add: v require_auth_def w1 t gate_def require_tos_def m)
    show "status_of v = 403" "w_body v = print_json (jobject [(''error'', jstring ''tos_required'')]) @ newline"
      using w2 by (simp_all add: v' write_json_def encode_json_def write_body_reply write_header_status writer_simps)
  qed
qed

subsection \<open>Examples\<close>

definition sample_deployment :: deployment where
  "sample_deployment =
     \<lparr> dp_env = sample_env, dp_unicode = sample_unicode, dp_idp = sample_provider, dp_random_state = Inr ''s'',
       dp_random_nonce = Inr ''n'', dp_pkce_verifier = ''verifier'', dp_room = None, dp_files = sample_files,
       dp_dist = Map.empty, dp_defaults = Map.empty, dp_mount = (\<lambda>_. None) \<rparr>"

definition sample_gateway :: "tos_manager option \<Rightarrow> handler" where
  "sample_gateway mo = gateway sample_deployment sample_auth mo (client_service (sample_net 200 ''[]'') sample_client 0)
     (gateway_proxy (sample_net 200 ''[]'') sample_client 0 100) [] sample_shell True"

lemma every_reply_is_hardened_witness:
  "header_of (sample_gateway None (gw_get ''/nowhere'') new_writer) ''X-Frame-Options'' = Some ''DENY''"
proof -
  have "''X-Frame-Options'' \<in> protocol_headers" by (simp add: protocol_headers_def)
  from every_reply_is_hardened [OF this] show ?thesis by (simp add: sample_gateway_def hardened_def)
qed

lemma sample_api_request:
  "api_request (gw_get ''/api/me'') [''me'']" "api_request (gw_get ''/api/shares'') [''shares'']"
proof -
  have "escaped_path (empty_url\<lparr> u_path := ''/api/me'' \<rparr>) = ''/api/me''" "mux_segments ''/api/me'' = [''api'', ''me'']"
    "clean_path ''/api/me'' = ''/api/me''" "escaped_path (empty_url\<lparr> u_path := ''/api/shares'' \<rparr>) = ''/api/shares''"
    "mux_segments ''/api/shares'' = [''api'', ''shares'']" "clean_path ''/api/shares'' = ''/api/shares''"
    by code_simp+
  then show "api_request (gw_get ''/api/me'') [''me'']" "api_request (gw_get ''/api/shares'') [''shares'']"
    by (simp_all add: api_request_def)
qed

lemma api_is_closed_by_default_witness:
  "status_of (sample_gateway (Some sample_manager) (gw_get ''/api/me'') new_writer) = 401"
proof -
  have v: "fst (validate_session_cookie (dp_env sample_deployment) sample_auth (gw_get ''/api/me'') new_writer) = Inl err_no_session"
    by (simp add: validate_session_cookie_def request_cookie_def)
  have "wants_json (gw_get ''/api/me'')" by (simp add: wants_json_def)
  with api_is_closed_by_default [OF sample_api_request(1) refl] v show ?thesis by (simp add: sample_gateway_def)
qed

lemma sample_shares_routed:
  assumes "r = (gw_get ''/api/shares'')\<lparr> rq_cookies := c, rq_path_values := v, rq_session := s \<rparr>"
  shows "serve_mux (api_routes room svc px) r w = handle_list_shares svc (r\<lparr> rq_path_values := Map.empty \<rparr>) w"
proof -
  have e: "escaped_path (rq_url r) = ''/api/shares''" "clean_path ''/api/shares'' = ''/api/shares''"
    "mux_segments ''/api/shares'' = [''api'', ''shares'']" "rq_method r = ''GET''" "u_path (rq_url r) = ''/api/shares''"
  proof -
    have "escaped_path (empty_url\<lparr> u_path := ''/api/shares'' \<rparr>) = ''/api/shares''" by code_simp
    then show "escaped_path (rq_url r) = ''/api/shares''" by (simp add: assms)
    show "clean_path ''/api/shares'' = ''/api/shares''" "mux_segments ''/api/shares'' = [''api'', ''shares'']" by code_simp+
    show "rq_method r = ''GET''" "u_path (rq_url r) = ''/api/shares''" by (simp_all add: assms)
  qed
  have m: "mux_match (api_routes room svc px) ''GET'' ''/api/shares''
      = Some ((Some ''GET'', [SLit ''api'', SLit ''shares''], handle_list_shares svc), [])"
    by (simp add: mux_match_def e api_table of_method_def lits_def wilds_def ended_def or_else_def)
  have "\<not> slash_redirect (api_routes room svc px) ''GET'' ''/api/shares''"
    by (simp add: slash_redirect_def m exact_match_def)
  then show ?thesis by (simp add: serve_mux_def Let_def e dispatch_def m path_values_def)
qed

lemma handle_list_shares_sent:
  assumes "session_from_context r = Some s"
  shows "w_sent (handle_list_shares svc r w) = w_sent (snd (ps_list_shares svc (Some (meta_from_request r)) (se_email s) w))"
  using assms
  by (auto simp: handle_list_shares_def context_with_meta_def http_error_def encode_view_def encode_json_def writer_simps
      split: prod.split sum.split option.split)

lemma touch_sent: "w_sent (snd (touch_session env a w d)) = w_sent w"
  by (auto simp: touch_session_def Let_def writer_simps split: sum.splits)

lemma sample_listing_sent:
  "\<exists>q. w_sent (snd (list_shares (sample_net 200 ''[]'') sample_client 0 ctx ''ada@example.org'' w)) = w_sent w @ [q]"
proof -
  have "url_parse ''http://p/api/v1/shares'' \<noteq> None" by code_simp
  then have u: "url_parse (pc_base_url sample_client @ ''/api/v1/shares'') \<noteq> None" by (simp add: sample_client_def)
  have "create_token (sample_net 200 ''[]'') sample_client 0 [] ''ada@example.org'' ''list-shares'' (meta_from_context ctx) = Inr ''a.b.c''"
    by simp
  from provider_request_answered [OF this u] show ?thesis
    unfolding do_writer provider_do_def by (fastforce simp: no_body_def writer_simps)
qed

lemma provider_calls_are_authorized_witness:
  "\<exists>q \<in> set (w_sent (sample_gateway None (signed_in (gw_get ''/api/shares'')) new_writer)).
     \<not> signed_for (sample_net 200 ''[]'') sample_client 0 [] [] ''healthcheck'' q \<longrightarrow>
       for_recipient (sample_net 200 ''[]'') sample_client 0 ''ada@example.org'' q"
proof -
  let ?r = "signed_in (gw_get ''/api/shares'')" and ?net = "sample_net 200 ''[]''"
  let ?svc = "client_service ?net sample_client 0" and ?px = "gateway_proxy ?net sample_client 0 100"
  have env: "dp_env sample_deployment = sample_env" by (simp add: sample_deployment_def)
  obtain spa hashes where ui: "webui_handler (dp_files sample_deployment) (dp_dist sample_deployment) sample_shell = (spa, hashes)" by fastforce
  let ?w = "secured (content_security_policy hashes) True new_writer"
  have "api_request ?r [''shares'']" using sample_api_request(2) by (simp add: api_request_def signed_in_def)
  from api_request_routed [OF this, of sample_deployment sample_auth None ?svc ?px "[]" spa ?w]
  obtain nxt vals where g: "sample_gateway None ?r new_writer
      = require_auth sample_env sample_auth (gate sample_deployment sample_auth None ?svc ?px) (?r\<lparr> rq_path_values := vals \<rparr>) ?w"
    by (auto simp: sample_gateway_def gateway_def ui security_headers_secured consent_path_def env)
  obtain d' w2 where t: "touch_session sample_env sample_auth ?w sample_session = (d', w2)" by fastforce
  let ?r' = "with_session (?r\<lparr> rq_path_values := vals \<rparr>) d'"
  have v: "validate_session_cookie sample_env sample_auth (?r\<lparr> rq_path_values := vals \<rparr>) ?w = (Inr sample_session, ?w)"
  proof -
    have "?r\<lparr> rq_path_values := vals \<rparr> = signed_in ((gw_get ''/api/shares'')\<lparr> rq_path_values := vals \<rparr>)"
      by (rule gw_request.equality) (simp_all add: signed_in_def)
    then show ?thesis by (simp only: signed_in_valid)
  qed
  have r': "?r' = (gw_get ''/api/shares'')\<lparr> rq_cookies := rq_cookies ?r, rq_path_values := vals, rq_session := Some d' \<rparr>"
    by (simp add: with_session_def signed_in_def)
  have "se_email d' = se_email sample_session"
    using touch_session_identity [of sample_env sample_auth ?w sample_session] unfolding t fst_conv by auto
  then have e: "se_email d' = ''ada@example.org''" by (simp add: sample_session_def new_session_def)
  have "sample_gateway None ?r new_writer = handle_list_shares ?svc (?r'\<lparr> rq_path_values := Map.empty \<rparr>) w2"
    unfolding g by (simp add: require_auth_def v t gate_def require_tos_def sample_shares_routed [OF r'])
  moreover have "session_from_context (?r'\<lparr> rq_path_values := Map.empty \<rparr>) = Some d'"
    by (simp add: session_from_context_def with_session_def)
  ultimately have "\<exists>q. q \<in> set (w_sent (sample_gateway None ?r new_writer))"
    using sample_listing_sent [of "Some (meta_from_request (?r'\<lparr> rq_path_values := Map.empty \<rparr>))" w2]
    by (auto simp: handle_list_shares_sent e)
  then obtain q where q: "q \<in> set (w_sent (sample_gateway None ?r new_writer))" by blast
  from provider_calls_are_authorized [OF q [unfolded sample_gateway_def]]
  have "\<not> signed_for ?net sample_client 0 [] [] ''healthcheck'' q \<longrightarrow> for_recipient ?net sample_client 0 ''ada@example.org'' q"
    using signed_in_valid [of "gw_get ''/api/shares''" new_writer]
    by (auto simp: env sample_session_def new_session_def)
  with q show ?thesis by blast
qed

end
