(* ===== verification/Startup.thy ===== *)
theory Startup
  imports Config Gateway
begin

section \<open>Process start-up (\<open>cmd/atrium/main.go\<close>)\<close>

text \<open>
  \<open>main\<close> and \<open>run\<close> up to the point where the server listens, \<open>newProvider\<close> and
  \<open>checkProviderTrust\<close>.  The result is the service the process then runs: its address, logger and
  request handler, or the exit code.  \<open>outside\<close> collects what start-up reads besides the
  environment: the discovery request, the key parsers, the file system, the provider network and
  the clock.  What follows, the serving loop, the signal and the graceful shutdown, is in \<open>Lifecycle\<close>.
  The five-second deadline of the trust probe is the transport's: its expiry is one of its errors.
\<close>

record outside =
  os_discover :: "string \<Rightarrow> go_error + string"
  os_keys :: key_ops
  os_read_file :: "string \<Rightarrow> go_error + string"
  os_net :: provider_net
  os_probe_time :: instant

text \<open>The handler, for the surroundings of one request and the clock reading of its provider call.\<close>

record service =
  sv_addr :: string
  sv_logger :: audit_logger
  sv_handler :: "deployment \<Rightarrow> instant \<Rightarrow> handler"

definition auth_config_of :: "config \<Rightarrow> auth_config" where
  "auth_config_of cfg =
     \<lparr> ac_oidc = cf_oidc cfg, ac_session_key = cf_session_key cfg, ac_absolute_ttl = cf_absolute_ttl cfg,
       ac_idle_ttl = cf_idle_ttl cfg, ac_secure_cookies = cf_secure_cookies cfg \<rparr>"

definition new_provider :: "key_ops \<Rightarrow> provider_config \<Rightarrow> go_error + provider_client" where
  "new_provider ko p =
     (if pv_type p = ''nextcloud'' then new_nextcloud ko (pv_base_url p) (pv_private_key_pem p) (pv_stream_timeout p)
      else Inl (Plain (''unknown PROVIDER_TYPE '' @ quoted (pv_type p))))"

definition check_provider_trust :: "provider_net \<Rightarrow> provider_client \<Rightarrow> instant \<Rightarrow> writer \<Rightarrow> writer" where
  "check_provider_trust net c now w = (case health_check net c now None w of
      (Some e, w1) \<Rightarrow> log_plain level_warn ''provider trust not established; core running degraded'' [attr_err e] w1
    | (None, w1) \<Rightarrow> log_plain level_info ''provider trust established'' [] w1)"

definition start_tos :: "(string \<Rightarrow> go_error + string) \<Rightarrow> config \<Rightarrow> writer \<Rightarrow> go_error + (tos_manager option \<times> writer)" where
  "start_tos read_file cfg w =
     (if tc_enabled (cf_tos cfg)
      then bindr (new_manager read_file (tc_path (cf_tos cfg)) (tc_version (cf_tos cfg)) (cf_session_key cfg) (cf_secure_cookies cfg))
             (\<lambda>m. Inr (Some m, log_plain level_info ''tos consent gate enabled'' [attr_str ''version'' (tos_version m)] w))
      else Inr (None, w))"

definition shell_config_of :: "config \<Rightarrow> shell_config" where
  "shell_config_of cfg =
     \<lparr> br_name = bc_name (cf_brand cfg), br_sub = bc_sub (cf_brand cfg), br_default_theme = bc_default_theme (cf_brand cfg),
       br_accent_color = bc_accent_color (cf_brand cfg), sc_max_upload_size = pv_max_upload_size (cf_provider cfg),
       sc_session_idle_ttl = int_seconds (cf_idle_ttl cfg) \<rparr>"

definition service_of ::
  "provider_net \<Rightarrow> config \<Rightarrow> audit_logger \<Rightarrow> oidc_auth \<Rightarrow> tos_manager option \<Rightarrow> provider_client \<Rightarrow> service" where
  "service_of net cfg logger a mo c =
     \<lparr> sv_addr = cf_addr cfg, sv_logger = logger,
       sv_handler = (\<lambda>dp now. gateway dp a mo (client_service net c now)
         (gateway_proxy net c now (pv_max_upload_size (cf_provider cfg))) (cf_branding_dir cfg) (shell_config_of cfg)
         (cf_secure_cookies cfg)) \<rparr>"

definition run :: "outside \<Rightarrow> config \<Rightarrow> audit_logger \<Rightarrow> writer \<Rightarrow> (go_error + service) \<times> writer" where
  "run out cfg logger w = (case new_oidc_auth (os_discover out) (auth_config_of cfg) w of
      (Inl e, w1) \<Rightarrow> (Inl e, w1)
    | (Inr a, w1) \<Rightarrow>
        (case new_provider (os_keys out) (cf_provider cfg) of
           Inl e \<Rightarrow> (Inl e, w1)
         | Inr c \<Rightarrow>
             (let w2 = log_plain level_info ''provider client configured''
                    [attr_str ''type'' (pv_type (cf_provider cfg)), attr_str ''base_url'' (pv_base_url (cf_provider cfg)),
                     attr_str ''public_key'' (pc_public_key_pem c)] w1;
                  w3 = check_provider_trust (os_net out) c (os_probe_time out) w2
              in case start_tos (os_read_file out) cfg w3 of
                   Inl e \<Rightarrow> (Inl e, w3)
                 | Inr (mo, w4) \<Rightarrow>
                     (Inr (service_of (os_net out) cfg logger a mo c),
                      log_plain level_info ''listening'' [attr_str ''addr'' (cf_addr cfg)] w4))))"

datatype outcome = Exit nat | Serving service

definition main :: "outside \<Rightarrow> environ \<Rightarrow> writer \<Rightarrow> outcome \<times> writer" where
  "main out env w = (case load env of
      Inl e \<Rightarrow> (Exit 1, log_plain level_error ''server terminated'' [attr_err e] w)
    | Inr cfg \<Rightarrow>
        (let logger = audit_new (cf_log_level cfg) (lc_salt (cf_audit cfg)) (lc_pseudonymize (cf_audit cfg))
         in case run out cfg logger w of
              (Inl e, w1) \<Rightarrow> (Exit 1, log_plain level_error ''server terminated'' [attr_err e] w1)
            | (Inr srv, w1) \<Rightarrow> (Serving srv, w1)))"

subsection \<open>What each stage keeps\<close>

lemma new_oidc_auth_keeps:
  assumes "new_oidc_auth d cfg w = (Inr a, w1)"
  shows "oa_client_id a = oc_client_id (ac_oidc cfg)" "oa_client_secret a = oc_client_secret (ac_oidc cfg)"
    "oa_redirect_url a = oc_redirect_uri (ac_oidc cfg)" "oa_session_key a = ac_session_key cfg"
    "oa_absolute_ttl a = ac_absolute_ttl cfg" "oa_idle_ttl a = ac_idle_ttl cfg" "oa_secure_cookies a = ac_secure_cookies cfg"
    "oa_require_email_verified a = oc_require_email_verified (ac_oidc cfg)" "oa_mfa_acr a = oc_mfa_acr_values (ac_oidc cfg)"
    "post_logout_redirect_uri (oc_redirect_uri (ac_oidc cfg)) = Inr (oa_post_logout_redirect a)"
  using assms by (auto simp: new_oidc_auth_def Let_def split: sum.splits option.splits)

lemma start_tos_keeps:
  assumes "start_tos rf cfg w = Inr (mo, w1)"
  shows "mo = None \<longleftrightarrow> \<not> tc_enabled (cf_tos cfg)"
    "mo = Some m \<Longrightarrow> new_manager rf (tc_path (cf_tos cfg)) (tc_version (cf_tos cfg)) (cf_session_key cfg) (cf_secure_cookies cfg) = Inr m"
  using assms by (auto simp: start_tos_def bindr_eq_Inr split: if_splits)

lemma new_manager_keeps:
  assumes "new_manager rf path v key sec = Inr m"
  shows "tm_signing_key m = key" "tm_secure_cookies m = sec" "rf path = Inr (tm_content m)"
    "tm_content_hash m = hex_encode (sha256 (tm_content m))"
  using assms by (auto simp: new_manager_def Let_def split: sum.splits)

lemma new_provider_keeps:
  assumes "new_provider ko p = Inr c"
  shows "pv_type p = ''nextcloud''" "pc_audience c = nextcloud_audience" "pc_stream_timeout c = pv_stream_timeout p"
  using assms by (auto simp: new_provider_def new_nextcloud_def new_client_def bindr_eq_Inr split: if_splits option.splits)

lemma run_serves:
  assumes "run out cfg logger w = (Inr srv, w')"
  obtains a w1 c mo w2 w3 where "new_oidc_auth (os_discover out) (auth_config_of cfg) w = (Inr a, w1)"
    "new_provider (os_keys out) (cf_provider cfg) = Inr c" "start_tos (os_read_file out) cfg w2 = Inr (mo, w3)"
    "srv = service_of (os_net out) cfg logger a mo c"
  using assms by (auto simp: run_def Let_def split: prod.splits sum.splits)

lemma main_serves:
  assumes "main out env w = (Serving srv, w')"
  obtains cfg where "load env = Inr cfg"
    "run out cfg (audit_new (cf_log_level cfg) (lc_salt (cf_audit cfg)) (lc_pseudonymize (cf_audit cfg))) w = (Inr srv, w')"
  using assms by (auto simp: main_def Let_def split: prod.splits sum.splits)

text \<open>The redirect URI of a loaded configuration gives the URI after logout.\<close>

lemma loaded_post_logout: "load env = Inr cfg \<Longrightarrow> \<exists>u. post_logout_redirect_uri (oc_redirect_uri (cf_oidc cfg)) = Inr u"
  using load_ok [of env cfg] by (auto simp: config_ok_def post_logout_redirect_uri_def Let_def)

lemma new_oidc_auth_iff:
  assumes "post_logout_redirect_uri (oc_redirect_uri (ac_oidc cfg)) = Inr u"
  shows "(\<exists>a. fst (new_oidc_auth d cfg w) = Inr a) \<longleftrightarrow>
    (\<exists>metadata es. d (oc_issuer (ac_oidc cfg)) = Inr metadata \<and> unmarshal discovery_fields metadata [] = Some es)"
  using assms by (auto simp: new_oidc_auth_def Let_def split: sum.splits option.splits)

lemma start_tos_result:
  "start_tos rf cfg w = Inr x \<Longrightarrow> tc_enabled (cf_tos cfg) \<longrightarrow> (\<exists>content. rf (tc_path (cf_tos cfg)) = Inr content)"
  "start_tos rf cfg w = Inl e \<Longrightarrow> tc_enabled (cf_tos cfg) \<and> (\<forall>content. rf (tc_path (cf_tos cfg)) \<noteq> Inr content)"
  by (auto simp: start_tos_def bindr_eq_Inr bindr_eq_Inl new_manager_def Let_def split: sum.splits if_splits)

lemma run_iff:
  "(\<exists>srv. fst (run out cfg logger w) = Inr srv) \<longleftrightarrow>
     (\<exists>a. fst (new_oidc_auth (os_discover out) (auth_config_of cfg) w) = Inr a)
     \<and> (\<exists>c. new_provider (os_keys out) (cf_provider cfg) = Inr c)
     \<and> (tc_enabled (cf_tos cfg) \<longrightarrow> (\<exists>content. os_read_file out (tc_path (cf_tos cfg)) = Inr content))"
  by (auto simp: run_def Let_def split: prod.splits sum.splits dest!: start_tos_result)

subsection \<open>Properties\<close>

lemma main_starts_iff:
  "((\<exists>srv. fst (main out env w) = Serving srv) \<longleftrightarrow>
      (\<exists>cfg metadata es c. load env = Inr cfg
         \<and> os_discover out (oc_issuer (cf_oidc cfg)) = Inr metadata \<and> unmarshal discovery_fields metadata [] = Some es
         \<and> new_provider (os_keys out) (cf_provider cfg) = Inr c
         \<and> (tc_enabled (cf_tos cfg) \<longrightarrow> (\<exists>content. os_read_file out (tc_path (cf_tos cfg)) = Inr content))))
   \<and> (\<not> (\<exists>srv. fst (main out env w) = Serving srv) \<longleftrightarrow>
     fst (main out env w) = Exit 1 \<and> (\<exists>e. last (w_log (snd (main out env w)))
       = \<lparr> lg_level = level_error, lg_msg = ''server terminated'', lg_attrs = [attr_err e] \<rparr>))"
proof -
  have o: "(\<exists>a. fst (new_oidc_auth (os_discover out) (auth_config_of cfg) w) = Inr a) \<longleftrightarrow>
      (\<exists>metadata es. os_discover out (oc_issuer (cf_oidc cfg)) = Inr metadata \<and> unmarshal discovery_fields metadata [] = Some es)"
    if "load env = Inr cfg" for cfg
    using loaded_post_logout [OF that] new_oidc_auth_iff [of "auth_config_of cfg" _ "os_discover out" w]
    by (auto simp: auth_config_of_def)
  have m: "(\<exists>srv. fst (main out env w) = Serving srv) \<longleftrightarrow> (\<exists>cfg. load env = Inr cfg \<and> (\<exists>srv. fst (run out cfg
      (audit_new (cf_log_level cfg) (lc_salt (cf_audit cfg)) (lc_pseudonymize (cf_audit cfg))) w) = Inr srv))"
    by (auto simp: main_def Let_def split: prod.splits sum.splits)
  have "(\<exists>srv. fst (main out env w) = Serving srv) \<longleftrightarrow>
     (\<exists>cfg metadata es c. load env = Inr cfg
        \<and> os_discover out (oc_issuer (cf_oidc cfg)) = Inr metadata \<and> unmarshal discovery_fields metadata [] = Some es
        \<and> new_provider (os_keys out) (cf_provider cfg) = Inr c
        \<and> (tc_enabled (cf_tos cfg) \<longrightarrow> (\<exists>content. os_read_file out (tc_path (cf_tos cfg)) = Inr content)))"
    unfolding m run_iff using o by blast
  moreover have "\<not> (\<exists>srv. fst (main out env w) = Serving srv) \<longleftrightarrow>
     fst (main out env w) = Exit 1 \<and> (\<exists>e. last (w_log (snd (main out env w)))
       = \<lparr> lg_level = level_error, lg_msg = ''server terminated'', lg_attrs = [attr_err e] \<rparr>)"
    by (auto simp: main_def Let_def log_plain_def log_to_def split: prod.splits sum.splits)
  ultimately show ?thesis by (rule conjI)
qed

text \<open>C20: The gateway serves exactly when it can work.  \<open>main\<close> starts the server if and only if the
  environment is a valid configuration, the identity provider's metadata is found and readable, the
  provider type is known and its URL and signing key are usable, and the terms file is readable when
  consent is on.  In every other case it logs the error and exits with code 1.  What the storage
  provider answers to the trust probe plays no part.\<close>

theorem starts_exactly_when_usable:
  "((\<exists>srv. fst (main out env w) = Serving srv) \<longleftrightarrow>
      (\<exists>cfg metadata es c. load env = Inr cfg
         \<and> os_discover out (oc_issuer (cf_oidc cfg)) = Inr metadata \<and> unmarshal discovery_fields metadata [] = Some es
         \<and> new_provider (os_keys out) (cf_provider cfg) = Inr c
         \<and> (tc_enabled (cf_tos cfg) \<longrightarrow> (\<exists>content. os_read_file out (tc_path (cf_tos cfg)) = Inr content))))
   \<and> (\<not> (\<exists>srv. fst (main out env w) = Serving srv) \<longleftrightarrow>
     fst (main out env w) = Exit 1 \<and> (\<exists>e. last (w_log (snd (main out env w)))
       = \<lparr> lg_level = level_error, lg_msg = ''server terminated'', lg_attrs = [attr_err e] \<rparr>))"
  by (rule main_starts_iff)



subsection \<open>Examples\<close>

definition sample_keys :: key_ops where
  "sample_keys =
     \<lparr> ko_pem_decode = Some, ko_parse_sec1 = (\<lambda>_. Inr (pc_key sample_client)), ko_parse_pkcs8 = (\<lambda>_. Inr (pc_key sample_client)),
       ko_pem_encode = (\<lambda>kind der. kind @ der), ko_signer = (\<lambda>_. None) \<rparr>"

definition sample_outside :: outside where
  "sample_outside =
     \<lparr> os_discover = (\<lambda>_. Inr ''{}''), os_keys = sample_keys, os_read_file = (\<lambda>_. Inr ''# Terms''), os_net = sample_net 200 [],
       os_probe_time = 0 \<rparr>"

lemma sample_stages:
  "unmarshal discovery_fields ''{}'' [] = Some []"
  "\<exists>c. new_provider sample_keys (cf_provider sample_config) = Inr c"
proof -
  show "unmarshal discovery_fields ''{}'' [] = Some []" by code_simp
  have "redirect_scheme ''https://cloud.example'' = Inr ''https''" by code_simp
  then obtain u where u: "url_parse ''https://cloud.example'' = Some u" "is_abs u" using redirect_scheme_ok by blast
  then show "\<exists>c. new_provider sample_keys (cf_provider sample_config) = Inr c"
    by (simp add: new_provider_def sample_config_def new_nextcloud_def new_client_def load_private_key_def parse_ec_private_key_def
        sample_keys_def sample_client_def new_signer_def public_key_pem_def)
qed

lemma sample_serves: "\<exists>srv. fst (main sample_outside sample_environ new_writer) = Serving srv"
proof -
  have "tc_enabled (cf_tos sample_config) = False" by (simp add: sample_config_def zero_tos_config_def)
  with sample_load sample_stages show ?thesis
    unfolding main_starts_iff [THEN conjunct1] by (auto simp: sample_outside_def)
qed

lemma starts_exactly_when_usable_witness:
  "\<exists>srv. fst (main sample_outside sample_environ new_writer) = Serving srv"
proof -
  have "tc_enabled (cf_tos sample_config) = False" by (simp add: sample_config_def zero_tos_config_def)
  with sample_load sample_stages show ?thesis
    unfolding starts_exactly_when_usable [THEN conjunct1] by (auto simp: sample_outside_def)
qed



end
