(* ===== verification/Lifecycle.thy ===== *)
theory Lifecycle
  imports Startup
begin

section \<open>The serving process (\<open>run\<close> and \<open>main\<close> of \<open>cmd/atrium/main.go\<close>, after start-up)\<close>

text \<open>
  What \<open>run\<close> does once the server listens: a goroutine serves and reports its error on a channel, the
  main one selects between that channel and the signal context, and after a signal shuts the server
  down with ten seconds of grace.  The steps are the two goroutines', the signal, the clock, and what
  \<open>net/http\<close> promises: a server that is shutting down takes no new request, \<open>ListenAndServe\<close> then returns
  \<open>ErrServerClosed\<close>, and \<open>Shutdown\<close> returns \<open>nil\<close> when no request is in flight or the error of its
  context at the deadline.
\<close>

definition err_server_closed :: go_error where "err_server_closed = Sentinel ''http: Server closed''"
definition err_deadline_exceeded :: go_error where "err_deadline_exceeded = Sentinel ''context deadline exceeded''"

definition shutdown_grace :: duration where "shutdown_grace = 10 * second"

text \<open>The main goroutine: in the \<open>select\<close>, in \<open>Shutdown\<close> since an instant, or back from \<open>run\<close> with its error.\<close>

datatype phase = Selecting | ShuttingDown instant | Returned "go_error option"

record process =
  pr_phase :: phase
  pr_listening :: bool
  pr_err_ch :: "go_error option"
  pr_signalled :: bool
  pr_in_flight :: nat
  pr_now :: instant
  pr_log :: "log_record list"

definition serving :: "instant \<Rightarrow> log_record list \<Rightarrow> process" where
  "serving now lg = \<lparr> pr_phase = Selecting, pr_listening = True, pr_err_ch = None, pr_signalled = False, pr_in_flight = 0,
     pr_now = now, pr_log = lg \<rparr>"

text \<open>The serving goroutine after \<open>ListenAndServe\<close> returned.\<close>

definition listener_returned :: "go_error \<Rightarrow> process \<Rightarrow> process" where
  "listener_returned e p = p\<lparr> pr_listening := False, pr_err_ch := (if errors_is e err_server_closed then pr_err_ch p else Some e) \<rparr>"

definition stop_requested :: "process \<Rightarrow> process" where
  "stop_requested p = p\<lparr> pr_phase := ShuttingDown (pr_now p),
     pr_log := pr_log p @ [\<lparr> lg_level = level_info, lg_msg = ''shutdown signal received'', lg_attrs = [] \<rparr>] \<rparr>"

text \<open>\<open>main\<close> after \<open>run\<close>: an error is logged and the exit code is 1.\<close>

definition process_exit :: "process \<Rightarrow> (nat \<times> log_record list) option" where
  "process_exit p = (case pr_phase p of
      Returned None \<Rightarrow> Some (0, pr_log p)
    | Returned (Some e) \<Rightarrow> Some (1, pr_log p @ [\<lparr> lg_level = level_error, lg_msg = ''server terminated'', lg_attrs = [attr_err e] \<rparr>])
    | _ \<Rightarrow> None)"

inductive process_step :: "process \<Rightarrow> process \<Rightarrow> bool" where
  accept: "pr_phase p = Selecting \<Longrightarrow> pr_listening p \<Longrightarrow> process_step p (p\<lparr> pr_in_flight := Suc (pr_in_flight p) \<rparr>)"
| finish: "pr_in_flight p = Suc n \<Longrightarrow> process_step p (p\<lparr> pr_in_flight := n \<rparr>)"
| listen_error: "pr_phase p = Selecting \<Longrightarrow> pr_listening p \<Longrightarrow> \<not> errors_is e err_server_closed \<Longrightarrow> process_step p (listener_returned e p)"
| listen_closed: "pr_phase p = ShuttingDown t \<Longrightarrow> pr_listening p \<Longrightarrow> process_step p (listener_returned err_server_closed p)"
| signal: "process_step p (p\<lparr> pr_signalled := True \<rparr>)"
| select_error: "pr_phase p = Selecting \<Longrightarrow> pr_err_ch p = Some e \<Longrightarrow> process_step p (p\<lparr> pr_phase := Returned (Some e), pr_err_ch := None \<rparr>)"
| select_stop: "pr_phase p = Selecting \<Longrightarrow> pr_signalled p \<Longrightarrow> process_step p (stop_requested p)"
| drained: "pr_phase p = ShuttingDown t \<Longrightarrow> pr_in_flight p = 0 \<Longrightarrow> process_step p (p\<lparr> pr_phase := Returned None \<rparr>)"
| expired: "pr_phase p = ShuttingDown t \<Longrightarrow> t + shutdown_grace \<le> pr_now p \<Longrightarrow> process_step p (p\<lparr> pr_phase := Returned (Some err_deadline_exceeded) \<rparr>)"
| tick: "0 < dt \<Longrightarrow> process_step p (p\<lparr> pr_now := pr_now p + dt \<rparr>)"

inductive_cases process_stepE: "process_step p q"

abbreviation reaches :: "process \<Rightarrow> process \<Rightarrow> bool" where "reaches \<equiv> process_step\<^sup>*\<^sup>*"

subsection \<open>What holds of every run\<close>

definition shutdown_record :: log_record where
  "shutdown_record = \<lparr> lg_level = level_info, lg_msg = ''shutdown signal received'', lg_attrs = [] \<rparr>"

definition process_ok :: "instant \<Rightarrow> log_record list \<Rightarrow> process \<Rightarrow> bool" where
  "process_ok now lg p \<longleftrightarrow> now \<le> pr_now p
     \<and> (\<forall>e. pr_err_ch p = Some e \<longrightarrow> \<not> pr_listening p \<and> \<not> errors_is e err_server_closed)
     \<and> (case pr_phase p of
          Selecting \<Rightarrow> pr_log p = lg
        | ShuttingDown t \<Rightarrow> pr_signalled p \<and> now \<le> t \<and> t \<le> pr_now p \<and> pr_log p = lg @ [shutdown_record]
        | Returned None \<Rightarrow> pr_signalled p \<and> pr_in_flight p = 0 \<and> pr_log p = lg @ [shutdown_record]
        | Returned (Some e) \<Rightarrow>
            \<not> pr_listening p \<and> \<not> errors_is e err_server_closed \<and> pr_log p = lg
            \<or> e = err_deadline_exceeded \<and> pr_signalled p \<and> now + shutdown_grace \<le> pr_now p \<and> pr_log p = lg @ [shutdown_record])"

lemma closed_is_closed: "errors_is err_server_closed err_server_closed"
  by (simp add: err_server_closed_def)

lemma process_step_ok: "process_step p q \<Longrightarrow> process_ok now lg p \<Longrightarrow> process_ok now lg q"
  by (induction rule: process_step.induct)
    (auto simp: process_ok_def listener_returned_def stop_requested_def shutdown_record_def closed_is_closed
      split: phase.splits option.splits)

lemma reaches_ok: "reaches (serving now lg) p \<Longrightarrow> process_ok now lg p"
proof (induction rule: rtranclp_induct)
  case base
  show ?case by (simp add: process_ok_def serving_def)
qed (rule process_step_ok)

text \<open>A server that is shutting down takes nothing new and leaves only when idle or late.\<close>

definition winding_down :: "instant \<Rightarrow> nat \<Rightarrow> process \<Rightarrow> bool" where
  "winding_down t n p \<longleftrightarrow> pr_in_flight p \<le> n \<and>
     (pr_phase p = ShuttingDown t \<or> pr_phase p = Returned None \<and> pr_in_flight p = 0
      \<or> pr_phase p = Returned (Some err_deadline_exceeded) \<and> t + shutdown_grace \<le> pr_now p)"

lemma winding_down_step: "process_step p q \<Longrightarrow> winding_down t n p \<Longrightarrow> winding_down t n q"
  by (induction rule: process_step.induct) (auto simp: winding_down_def listener_returned_def)

lemma shutdown_is_graceful: "reaches p q \<Longrightarrow> winding_down t n p \<Longrightarrow> winding_down t n q"
  by (induction rule: rtranclp_induct) (auto intro: winding_down_step)

lemma shutdown_expires:
  assumes "pr_phase p = ShuttingDown t" "t \<le> pr_now p"
  shows "\<exists>q. reaches p q \<and> process_exit q \<noteq> None \<and> pr_now q = pr_now p + shutdown_grace"
proof -
  let ?late = "p\<lparr> pr_now := pr_now p + shutdown_grace \<rparr>"
  have "process_step p ?late" by (rule process_step.tick) (simp add: shutdown_grace_def second_def)
  moreover have "process_step ?late (?late\<lparr> pr_phase := Returned (Some err_deadline_exceeded) \<rparr>)"
    using assms by (intro process_step.expired [of _ t]) simp_all
  ultimately show ?thesis
    by (intro exI [of _ "?late\<lparr> pr_phase := Returned (Some err_deadline_exceeded) \<rparr>"]) (auto simp: process_exit_def)
qed

subsection \<open>Properties\<close>

text \<open>C34: The exit code tells why.  In every run of the serving process, under every interleaving of the
  listener, the signal, the requests and the clock, an exit with code 0 was asked for by a signal and left no
  request in flight, and an exit with code 1 logs as its last record the error, which is that of
  a listener that stopped by itself, or the deadline, not before the ten seconds of grace have passed; and a process
  that got the signal and still runs can always be gone ten seconds later.\<close>

theorem exit_code_tells_why:
  assumes "reaches (serving now lg) p"
  shows "case process_exit p of
      None \<Rightarrow> pr_signalled p \<longrightarrow> (\<exists>q. reaches p q \<and> process_exit q \<noteq> None \<and> pr_now q = pr_now p + shutdown_grace)
    | Some (n, log) \<Rightarrow>
        n = 0 \<and> pr_signalled p \<and> pr_in_flight p = 0 \<and> log = lg @ [shutdown_record]
        \<or> n = 1 \<and> (\<exists>e. last log = \<lparr> lg_level = level_error, lg_msg = ''server terminated'', lg_attrs = [attr_err e] \<rparr>
             \<and> (\<not> pr_listening p \<and> \<not> errors_is e err_server_closed
                \<or> e = err_deadline_exceeded \<and> pr_signalled p \<and> now + shutdown_grace \<le> pr_now p))"
proof (cases "pr_phase p")
  case Selecting
  have "\<exists>q. reaches p q \<and> process_exit q \<noteq> None \<and> pr_now q = pr_now p + shutdown_grace" if "pr_signalled p"
  proof -
    have "process_step p (stop_requested p)" by (rule process_step.select_stop [OF Selecting that])
    moreover have "\<exists>q. reaches (stop_requested p) q \<and> process_exit q \<noteq> None \<and> pr_now q = pr_now (stop_requested p) + shutdown_grace"
      by (rule shutdown_expires [of _ "pr_now p"]) (simp_all add: stop_requested_def)
    moreover have "pr_now (stop_requested p) = pr_now p" by (simp add: stop_requested_def)
    ultimately show ?thesis by (metis converse_rtranclp_into_rtranclp)
  qed
  with Selecting show ?thesis by (simp add: process_exit_def)
next
  case (ShuttingDown t)
  with reaches_ok [OF assms] have "t \<le> pr_now p" by (simp add: process_ok_def)
  from shutdown_expires [OF ShuttingDown this] ShuttingDown show ?thesis by (simp add: process_exit_def)
next
  case (Returned r)
  with reaches_ok [OF assms] show ?thesis
    by (cases r) (auto simp: process_ok_def process_exit_def)
qed

subsection \<open>Examples\<close>

lemma exit_code_tells_why_witness:
  "\<exists>p. reaches (serving 0 []) p \<and> process_exit p = Some (0, [shutdown_record]) \<and> pr_in_flight p = 0"
proof -
  let ?p1 = "(serving 0 [])\<lparr> pr_signalled := True \<rparr>" and ?p2 = "stop_requested ((serving 0 [])\<lparr> pr_signalled := True \<rparr>)"
  let ?p3 = "?p2\<lparr> pr_phase := Returned None \<rparr>"
  have "process_step (serving 0 []) ?p1" by (rule process_step.signal)
  moreover have "process_step ?p1 ?p2" by (rule process_step.select_stop) (simp_all add: serving_def)
  moreover have "process_step ?p2 ?p3" by (rule process_step.drained [of _ 0]) (simp_all add: serving_def stop_requested_def)
  ultimately have r: "reaches (serving 0 []) ?p3" by (meson converse_rtranclp_into_rtranclp rtranclp.rtrancl_refl)
  have "process_exit ?p3 = Some (0, [shutdown_record])"
    by (simp add: process_exit_def serving_def stop_requested_def shutdown_record_def)
  with exit_code_tells_why [OF r] r show ?thesis by (intro exI [of _ ?p3]) simp
qed

end
