(* ===== verification/Stub_Store.thy ===== *)
theory Stub_Store
  imports Provider
begin

section \<open>The stub provider's dataset (\<open>cmd/atrium-e2e/fixtures.go\<close>)\<close>

text \<open>
  The share trees, the shares and the store of the end-to-end stub.  The code reaches a share by a
  pointer that stays valid when the store is reseeded, so shares are objects at addresses, the
  store maps identifiers to addresses, and \<open>seed\<close> allocates fresh ones.  A tree is never shared
  between two places, so its nodes are a datatype and a pointer into it is the list of names that
  leads there.  The mutex makes each operation of this theory one atomic step.
\<close>

subsection \<open>Trees\<close>

datatype node = Node (nd_entry: folder_entry) (nd_content: string) (nd_children: "node list")

definition node_named :: "string \<Rightarrow> node \<Rightarrow> bool" where
  "node_named s n \<longleftrightarrow> fe_name (nd_entry n) = s"

fun walk :: "node \<Rightarrow> string list \<Rightarrow> node option" where
  "walk n [] = Some n"
| "walk n (s # ss) = (case find (node_named s) (nd_children n) of None \<Rightarrow> None | Some c \<Rightarrow> walk c ss)"

definition path_segments :: "string \<Rightarrow> string list" where
  "path_segments path = filter (\<lambda>s. s \<noteq> []) (split_on (CHR ''/'') path)"

text \<open>\<open>resolve\<close>: the node at a path, and whether it is a file.  Only the root counts as a folder by position.\<close>

definition resolve :: "node option \<Rightarrow> string \<Rightarrow> (node \<times> bool) option" where
  "resolve root path = (case root of
      None \<Rightarrow> None
    | Some n \<Rightarrow> map_option (\<lambda>cur. (cur, path_segments path \<noteq> [] \<and> \<not> fe_is_folder (nd_entry cur)))
        (walk n (path_segments path)))"

text \<open>\<open>findByID\<close>, on the children of the root.\<close>

fun find_by_id :: "node list \<Rightarrow> string \<Rightarrow> node option" where
  "find_by_id [] i = None"
| "find_by_id (Node e c ch # ns) i =
     (if fe_id e = i then Some (Node e c ch)
      else case (if fe_is_folder e then find_by_id ch i else None) of
          Some found \<Rightarrow> Some found
        | None \<Rightarrow> find_by_id ns i)"

text \<open>\<open>filterByMode\<close>: modes other than read-own (1) and dropzone (3) hide nothing.\<close>

definition filter_by_mode :: "node list \<Rightarrow> int \<Rightarrow> folder_entry list" where
  "filter_by_mode children mode =
     map nd_entry (filter (\<lambda>c. if mode = 1 then fe_is_own (nd_entry c) else mode \<noteq> 3) children)"

text \<open>Appending a child to the node that a list of names leads to, through the first child of each name.\<close>

fun add_child :: "node \<Rightarrow> string list \<Rightarrow> node \<Rightarrow> node"
  and add_among :: "node list \<Rightarrow> string \<Rightarrow> string list \<Rightarrow> node \<Rightarrow> node list" where
  "add_child (Node e c ch) [] new = Node e c (ch @ [new])"
| "add_child (Node e c ch) (s # ss) new = Node e c (add_among ch s ss new)"
| "add_among [] s ss new = []"
| "add_among (n # ns) s ss new = (if node_named s n then add_child n ss new # ns else n # add_among ns s ss new)"

subsection \<open>Shares and the store\<close>

record share_state =
  ss_recipient :: string
  ss_share :: share
  ss_content :: string
  ss_root :: "node option"

record stub_store =
  st_objects :: "nat \<Rightarrow> share_state"
  st_shares :: "string \<Rightarrow> nat option"
  st_next :: nat

definition recipient_email :: string where "recipient_email = ''recipient@example.test''"
definition other_email :: string where "other_email = ''other@example.test''"

definition fixture_file :: "instant \<Rightarrow> string \<Rightarrow> string \<Rightarrow> string \<Rightarrow> int \<Rightarrow> string \<Rightarrow> share_state" where
  "fixture_file now i recipient name sz content =
     \<lparr> ss_recipient = recipient,
       ss_share = zero_share\<lparr> sh_id := i, sh_recipient_email := recipient, sh_file_name := name,
         sh_size := Some sz, sh_created_at := Some (now, 0) \<rparr>,
       ss_content = content, ss_root = None \<rparr>"

definition fixture_folder :: "instant \<Rightarrow> string \<Rightarrow> string \<Rightarrow> int \<Rightarrow> node list \<Rightarrow> share_state" where
  "fixture_folder now i name mode children =
     \<lparr> ss_recipient = recipient_email,
       ss_share = zero_share\<lparr> sh_id := i, sh_recipient_email := recipient_email, sh_display_name := name,
         sh_is_folder := True, sh_mode := mode, sh_created_at := Some (now, 0) \<rparr>,
       ss_content = [], ss_root = Some (Node zero_entry [] children) \<rparr>"

definition file_node :: "string \<Rightarrow> string \<Rightarrow> int \<Rightarrow> string \<Rightarrow> node" where
  "file_node i name sz content = Node (zero_entry\<lparr> fe_id := i, fe_name := name, fe_size := Some sz \<rparr>) content []"

definition fixture :: "instant \<Rightarrow> (string \<times> share_state) list" where
  "fixture now =
     [(''file-basic'',
        (let f = fixture_file now ''file-basic'' recipient_email ''Quartalsbericht.pdf'' 23 (''Quartalsbericht Inhalt'' @ newline)
         in f\<lparr> ss_share := (ss_share f)\<lparr> sh_expires_at := Some (now + 48 * hour, 0) \<rparr> \<rparr>)),
      (''file-limited'',
        (let f = fixture_file now ''file-limited'' recipient_email ''Limitiert.pdf'' 11 (''nur einmal'' @ newline)
         in f\<lparr> ss_share := (ss_share f)\<lparr> sh_max_downloads := Some 1 \<rparr> \<rparr>)),
      (''folder-readall'', fixture_folder now ''folder-readall'' ''Projekt'' 2
         [file_node ''plan'' ''Plan.pdf'' 10 ''Planinhalt'',
          Node (zero_entry\<lparr> fe_id := ''unterlagen'', fe_name := ''Unterlagen'', fe_is_folder := True \<rparr>) []
            [file_node ''detail'' ''Detail.txt'' 12 ''Detailinhalt'']]),
      (''folder-readonly'', fixture_folder now ''folder-readonly'' ''NurLesen'' 0
         [file_node ''liste'' ''Liste.csv'' 5 ''a,b,c'']),
      (''folder-readown'', fixture_folder now ''folder-readown'' ''MeineUploads'' 1 []),
      (''folder-dropzone'', fixture_folder now ''folder-dropzone'' ''Briefkasten'' 3 []),
      (''file-other'', fixture_file now ''file-other'' other_email ''Fremd.pdf'' 7 (''geheim'' @ newline))]"

definition seed :: "instant \<Rightarrow> stub_store \<Rightarrow> stub_store" where
  "seed now st =
     (let fs = fixture now; n = st_next st
      in \<lparr> st_objects = (\<lambda>a. if n \<le> a \<and> a < n + length fs then snd (fs ! (a - n)) else st_objects st a),
           st_shares = map_of (zip (map fst fs) [n..<n + length fs]), st_next = n + length fs \<rparr>)"

definition empty_store :: stub_store where
  "empty_store = \<lparr> st_objects = (\<lambda>_. \<lparr> ss_recipient = [], ss_share = zero_share, ss_content = [], ss_root = None \<rparr>),
     st_shares = Map.empty, st_next = 0 \<rparr>"

definition new_store :: "instant \<Rightarrow> stub_store" where
  "new_store now = seed now empty_store"

definition find_share :: "stub_store \<Rightarrow> string \<Rightarrow> nat option" where
  "find_share st i = st_shares st i"

definition listing_order :: "string list" where
  "listing_order = [''file-basic'', ''file-limited'', ''folder-readall'', ''folder-readonly'', ''folder-readown'',
     ''folder-dropzone'', ''file-other'']"

definition list_for :: "stub_store \<Rightarrow> string \<Rightarrow> share list" where
  "list_for st email = List.map_filter
     (\<lambda>i. case st_shares st i of
        None \<Rightarrow> None
      | Some a \<Rightarrow> if ss_recipient (st_objects st a) = email then Some (ss_share (st_objects st a)) else None)
     listing_order"

subsection \<open>Atomic sections of the handlers\<close>

text \<open>The locked part of \<open>handleContent\<close>: one download is taken, or the limit is reached.\<close>

definition take_download :: "nat \<Rightarrow> stub_store \<Rightarrow> (string \<times> string) option \<times> stub_store" where
  "take_download a st =
     (let o1 = st_objects st a; sh = ss_share o1
      in if (case sh_max_downloads sh of None \<Rightarrow> False | Some m \<Rightarrow> m \<le> sh_download_count sh) then (None, st)
         else (Some (sh_file_name sh, ss_content o1),
               st\<lparr> st_objects := (st_objects st)(a := o1\<lparr> ss_share := sh\<lparr> sh_download_count := sh_download_count sh + 1 \<rparr> \<rparr>) \<rparr>))"

text \<open>The locked part of \<open>handleUpload\<close>.\<close>

definition store_upload :: "nat \<Rightarrow> string \<Rightarrow> string \<Rightarrow> string \<Rightarrow> stub_store \<Rightarrow> bool \<times> stub_store" where
  "store_upload a path name body st =
     (let o1 = st_objects st a
      in case resolve (ss_root o1) path of
           None \<Rightarrow> (False, st)
         | Some (folder, is_file) \<Rightarrow>
             if is_file then (False, st)
             else (let up = Node (zero_entry\<lparr> fe_id := ''up-'' @ itoa (int (length (nd_children folder) + 1)), fe_name := name,
                          fe_size := Some (int (length body)), fe_is_own := True \<rparr>) body []
                   in (True, st\<lparr> st_objects := (st_objects st)(a := o1\<lparr> ss_root :=
                         map_option (\<lambda>n. add_child n (path_segments path) up) (ss_root o1) \<rparr>) \<rparr>)))"

end
