(* ===== verification/Mux_Store.thy ===== *)
theory Mux_Store
  imports Go_Mux
begin

section \<open>Multiplexers over a store\<close>

text \<open>
  The end-to-end stand-ins keep state between requests: their handlers take and return a store
  beside the writer.  Routing is the same \<open>ServeMux\<close>; this theory joins the two, and shows that a
  request that matches reaches its handler with the store.
\<close>

text \<open>
  A multiplexer of handlers with a store: the writer goes through \<open>serve_mux\<close>, and the store
  is changed by the handler that it runs, if it runs one.
\<close>

definition mux_writer :: "'s \<Rightarrow> ('a request_scheme \<Rightarrow> 's \<times> writer \<Rightarrow> 's \<times> writer) route list \<Rightarrow> ('a request_scheme \<Rightarrow> writer \<Rightarrow> writer) route list" where
  "mux_writer st rs = map (\<lambda>(m, segs, h). (m, segs, \<lambda>r w. snd (h r (st, w)))) rs"

definition mux_store :: "'s \<Rightarrow> ('a request_scheme \<Rightarrow> 's \<times> writer \<Rightarrow> 's \<times> writer) route list \<Rightarrow> 'a request_scheme \<Rightarrow> writer \<Rightarrow> 's" where
  "mux_store st rs r w =
     (let escaped = escaped_path (rq_url r);
          path = (if rq_method r = ''CONNECT'' then escaped else clean_path escaped)
      in if u_path (rq_url r) = ''*'' \<or> slash_redirect rs (rq_method r) path \<or> path \<noteq> escaped then st
         else case mux_match rs (rq_method r) escaped of
             None \<Rightarrow> st
           | Some ((_, segs, h), vals) \<Rightarrow> fst (h (r\<lparr> rq_path_values := path_values segs vals \<rparr>) (st, w)))"

text \<open>The multiplexer of handlers with a store matches like the one of the writers.\<close>

lemma match_path_map:
  "match_path (map (\<lambda>(ps, x). (ps, f x)) cs) ss ms = map_option (\<lambda>(x, vs). (f x, vs)) (match_path cs ss ms)"
proof (induction cs ss ms rule: match_path.induct)
  case (1 cs ms)
  show ?case by (simp add: ended_def filter_map comp_def case_prod_unfold split: list.split)
next
  case (2 cs s ss ms)
  have l: "lits s (map (\<lambda>(ps, x). (ps, f x)) cs) = map (\<lambda>(ps, x). (ps, f x)) (lits s cs)"
    "wilds (map (\<lambda>(ps, x). (ps, f x)) cs) = map (\<lambda>(ps, x). (ps, f x)) (wilds cs)" for s
    by (induction cs) (auto simp: lits_def wilds_def split: list.split path_seg.split)
  have e: "ended [SSub] (map (\<lambda>(ps, x). (ps, f x)) cs) = map_option f (ended [SSub] cs)"
    by (simp add: ended_def filter_map comp_def case_prod_unfold split: list.split)
  show ?case using 2 by (simp add: l e or_else_def option.map_comp comp_def split: option.split)
qed

lemma mux_match_writer:
  fixes rs :: "('a request_scheme \<Rightarrow> 'b \<times> writer \<Rightarrow> 'b \<times> writer) route list"
  shows "mux_match (mux_writer st rs) meth p
   = map_option (\<lambda>((m, segs, h), vals). ((m, segs, \<lambda>r w. snd (h r (st, w))), vals)) (mux_match rs meth p)"
proof -
  obtain f where f: "f = (\<lambda>(m :: string option, segs :: path_seg list,
      h :: 'a request_scheme \<Rightarrow> 'b \<times> writer \<Rightarrow> 'b \<times> writer). (m, segs, \<lambda>r w. snd (h r (st, w))))" by blast
  have o: "of_method m (mux_writer st rs) = map (\<lambda>(ps, x). (ps, f x)) (of_method m rs)" for m
    by (simp add: of_method_def mux_writer_def filter_map comp_def case_prod_unfold f)
  have "mux_match (mux_writer st rs) meth p = map_option (\<lambda>(x, vals). (f x, vals)) (mux_match rs meth p)"
    by (simp add: mux_match_def o match_path_map or_else_def split: option.split)
  then show ?thesis by (simp add: f case_prod_unfold)
qed

lemma slash_redirect_writer: "slash_redirect (mux_writer st rs) meth p = slash_redirect rs meth p"
proof -
  have "exact_match (mux_match (mux_writer st rs) meth p) p = exact_match (mux_match rs meth p) p" for p
    by (cases "mux_match rs meth p") (simp_all add: exact_match_def mux_match_writer case_prod_unfold)
  then show ?thesis by (simp add: slash_redirect_def)
qed

text \<open>A clean path that a handler with a store is registered for reaches it, with the store.\<close>

lemma serve_matched:
  assumes "escaped_path (rq_url r) = p" "clean_path p = p" "u_path (rq_url r) \<noteq> ''*''"
    "mux_match rs (rq_method r) p = Some ((m, segs, h), vals)" "\<not> slash_redirect rs (rq_method r) p"
  shows "(mux_store st rs r w, serve_mux (mux_writer st rs) r w) = h (r\<lparr> rq_path_values := path_values segs vals \<rparr>) (st, w)"
  unfolding mux_store_def serve_mux_def Let_def assms(1,2) if_cancel
  by (simp add: assms(3,5) dispatch_def mux_match_writer assms(4) slash_redirect_writer)

lemma serve_routed:
  assumes "escaped_path (rq_url r) = p" "clean_path p = p" "u_path (rq_url r) \<noteq> ''*''"
    "mux_match rs (rq_method r) p = Some ((m, segs, h), vals)" "last segs \<noteq> SSub"
  shows "(mux_store st rs r w, serve_mux (mux_writer st rs) r w) = h (r\<lparr> rq_path_values := path_values segs vals \<rparr>) (st, w)"
  by (rule serve_matched [OF assms(1-4)]) (simp add: slash_redirect_def exact_match_def assms(4,5))

lemma clean_path_rooted: "has_prefix (clean_path p) ''/''"
proof (cases "p = []")
  case False
  have "has_prefix (if hd p = CHR ''/'' then p else CHR ''/'' # p) ''/''" using False by (cases p) auto
  from path_clean_rooted [OF this] show ?thesis
    using False by (auto simp: clean_path_def Let_def has_prefix_iff)
qed (simp add: clean_path_def)

end
