(* ===== verification/Stub_Provider.thy ===== *)
theory Stub_Provider
  imports Stub_Store Mux_Store
begin

section \<open>The stub storage provider (\<open>cmd/atrium-e2e/stubprovider.go\<close>)\<close>

text \<open>
  The HTTP side of the end-to-end stub: the claims read from the request token, the
  authorization, the six routes of the provider contract and the reset route.  A handler takes and
  returns the store together with the writer.  Handlers that use the store once are one step; a
  download is two, the authorization and the locked section, between which other requests may run:
  the last part states the limit for every interleaving.
\<close>

type_synonym 'a stub_handler = "'a request_scheme \<Rightarrow> stub_store \<times> writer \<Rightarrow> stub_store \<times> writer"

subsection \<open>JSON\<close>

definition omit_string :: "string \<Rightarrow> string \<Rightarrow> (string \<times> json) list" where
  "omit_string k s = (if s = [] then [] else [(k, jstring s)])"

definition omit_int :: "string \<Rightarrow> int option \<Rightarrow> (string \<times> json) list" where
  "omit_int k x = (case x of None \<Rightarrow> [] | Some n \<Rightarrow> [(k, jint n)])"

definition omit_time :: "string \<Rightarrow> stamp option \<Rightarrow> (string \<times> json) list option" where
  "omit_time k x = (case x of None \<Rightarrow> Some [] | Some (t, zone) \<Rightarrow> map_option (\<lambda>j. [(k, j)]) (json_time zone t))"

definition share_members :: "share \<Rightarrow> (string \<times> json) list option" where
  "share_members s =
     Option.bind (omit_time ''expires_at'' (sh_expires_at s)) (\<lambda>expires.
     Option.bind (omit_time ''created_at'' (sh_created_at s)) (\<lambda>created.
       Some ([(''id'', jstring (sh_id s)), (''recipient_email'', jstring (sh_recipient_email s))]
         @ omit_string ''display_name'' (sh_display_name s) @ omit_string ''file_name'' (sh_file_name s)
         @ omit_int ''size'' (sh_size s) @ [(''is_folder'', JBool (sh_is_folder s)), (''mode'', jint (sh_mode s))]
         @ omit_int ''max_downloads'' (sh_max_downloads s) @ [(''download_count'', jint (sh_download_count s))]
         @ expires @ created)))"

definition share_json :: "share \<Rightarrow> json option" where
  "share_json s = map_option jobject (share_members s)"

definition entry_json :: "folder_entry \<Rightarrow> json option" where
  "entry_json e = map_option
     (\<lambda>uploaded. jobject ([(''id'', jstring (fe_id e)), (''name'', jstring (fe_name e))] @ omit_int ''size'' (fe_size e)
        @ omit_string ''mime_type'' (fe_mime_type e)
        @ [(''is_folder'', JBool (fe_is_folder e)), (''is_own'', JBool (fe_is_own e))] @ uploaded))
     (omit_time ''uploaded_at'' (fe_uploaded_at e))"

text \<open>A \<open>nil\<close> slice of entries is \<open>null\<close>, an empty one \<open>[]\<close>.\<close>

definition listing_json :: "bool \<Rightarrow> folder_entry list option \<Rightarrow> folder_entry option \<Rightarrow> json option" where
  "listing_json is_file entries entry =
     Option.bind (case entries of None \<Rightarrow> Some JNull | Some es \<Rightarrow> map_option JArr (those (map entry_json es))) (\<lambda>es.
     Option.bind (case entry of None \<Rightarrow> Some JNull | Some e \<Rightarrow> entry_json e) (\<lambda>e.
       Some (jobject [(''is_file'', JBool is_file), (''entries'', es), (''entry'', e)])))"

definition stub_write_json :: "json option \<Rightarrow> writer \<Rightarrow> writer" where
  "stub_write_json v w =
     (let w1 = w_set ''Content-Type'' ''application/json'' w in case v of None \<Rightarrow> w1 | Some j \<Rightarrow> encode_json j w1)"

subsection \<open>The token\<close>

record token_claims_data =
  tk_email :: string
  tk_action :: string

text \<open>\<open>Unmarshal\<close> skips a member whose type does not fit; its error is dropped.\<close>

definition lenient :: "(json \<Rightarrow> 's \<Rightarrow> 's option) \<Rightarrow> json \<Rightarrow> 's \<Rightarrow> 's option" where
  "lenient dec v s = Some (case dec v s of None \<Rightarrow> s | Some s' \<Rightarrow> s')"

definition token_fields :: "token_claims_data field list" where
  "token_fields =
     [(''email'', lenient (dec_string (\<lambda>x c. c\<lparr> tk_email := x \<rparr>))),
      (''action'', lenient (dec_string (\<lambda>x c. c\<lparr> tk_action := x \<rparr>)))]"

definition no_token_claims :: token_claims_data where
  "no_token_claims = \<lparr> tk_email = [], tk_action = [] \<rparr>"

definition claims_from_request :: "'a request_scheme \<Rightarrow> token_claims_data" where
  "claims_from_request r =
     (case split_on (CHR ''.'') (trim_prefix (header_get (rq_headers r) ''Authorization'') ''Bearer '') of
        [h, p, s] \<Rightarrow>
          (case b64_decode RawURLEncoding p of
             None \<Rightarrow> no_token_claims
           | Some payload \<Rightarrow>
               (case unmarshal token_fields payload no_token_claims of None \<Rightarrow> no_token_claims | Some c \<Rightarrow> c))
      | _ \<Rightarrow> no_token_claims)"

subsection \<open>Handlers\<close>

definition handle_health :: "'a stub_handler" where
  "handle_health r x = (fst x, write_header 200 (snd x))"

definition handle_shares :: "'a stub_handler" where
  "handle_shares r x =
     (fst x, stub_write_json (map_option JArr (those (map share_json (list_for (fst x) (tk_email (claims_from_request r)))))) (snd x))"

text \<open>The share a request may use: it is in the store and its recipient is the caller.\<close>

definition may_use :: "stub_store \<Rightarrow> string \<Rightarrow> string \<Rightarrow> nat option" where
  "may_use st i email = (case find_share st i of
      None \<Rightarrow> None
    | Some a \<Rightarrow> if ss_recipient (st_objects st a) \<noteq> email then None else Some a)"

definition authorize :: "'a request_scheme \<Rightarrow> (nat \<Rightarrow> stub_store \<times> writer \<Rightarrow> stub_store \<times> writer) \<Rightarrow> stub_store \<times> writer \<Rightarrow> stub_store \<times> writer" where
  "authorize r body x = (case may_use (fst x) (path_value r ''id'') (tk_email (claims_from_request r)) of
      None \<Rightarrow> (fst x, http_error ''not found'' 404 (snd x))
    | Some a \<Rightarrow> body a x)"

text \<open>The verb \<open>%q\<close> on a printable text: quotes, backslashes and control bytes are escaped.\<close>

definition quote_byte :: "char \<Rightarrow> string" where
  "quote_byte c = (case map_of [(0x07, CHR ''a''), (0x08, CHR ''b''), (0x0C, CHR ''f''), (0x0A, CHR ''n''), (0x0D, CHR ''r''),
       (0x09, CHR ''t''), (0x0B, CHR ''v''), (0x22, CHR 0x22), (0x5C, CHR 0x5C)] (byte c) of
      Some d \<Rightarrow> [CHR 0x5C, d]
    | None \<Rightarrow> if is_ctl c then [CHR 0x5C, CHR ''x'', hex_digit (byte c div 16), hex_digit (byte c mod 16)] else [c])"

definition quote_text :: "string \<Rightarrow> string" where
  "quote_text s = [CHR 0x22] @ concat (map quote_byte s) @ [CHR 0x22]"

definition serve_file :: "string \<Rightarrow> string \<Rightarrow> writer \<Rightarrow> writer" where
  "serve_file name content w =
     write_body content (write_header 200
       (w_set ''Content-Disposition'' (''attachment; filename='' @ quote_text name)
         (w_set ''Content-Type'' ''application/octet-stream'' w)))"

text \<open>What the locked section of a download decided, as the reply.\<close>

definition download_reply :: "(string \<times> string) option \<Rightarrow> writer \<Rightarrow> writer" where
  "download_reply res w = (case res of None \<Rightarrow> http_error ''gone'' 410 w | Some (name, content) \<Rightarrow> serve_file name content w)"

definition handle_content :: "'a stub_handler" where
  "handle_content r = authorize r (\<lambda>a (st, w). let (res, st') = take_download a st in (st', download_reply res w))"

definition handle_folder :: "'a stub_handler" where
  "handle_folder r = authorize r (\<lambda>a (st, w).
     let o1 = st_objects st a
     in case resolve (ss_root o1) (url_query_get r ''path'') of
          None \<Rightarrow> (st, http_error ''not found'' 404 w)
        | Some (target, is_file) \<Rightarrow>
            (st, stub_write_json
               (if is_file then listing_json True None (Some (nd_entry target))
                else listing_json False (Some (filter_by_mode (nd_children target) (sh_mode (ss_share o1)))) None) w))"

definition handle_folder_file :: "'a stub_handler" where
  "handle_folder_file r = authorize r (\<lambda>a (st, w).
     case (case ss_root (st_objects st a) of None \<Rightarrow> None | Some n \<Rightarrow> find_by_id (nd_children n) (path_value r ''fileID'')) of
       None \<Rightarrow> (st, http_error ''not found'' 404 w)
     | Some n \<Rightarrow> (st, serve_file (fe_name (nd_entry n)) (nd_content n) w))"

definition handle_stub_upload :: "'a stub_handler" where
  "handle_stub_upload r = authorize r (\<lambda>a (st, w).
     if sh_mode (ss_share (st_objects st a)) = 0 then (st, http_error ''forbidden'' 403 w)
     else
       (let raw = header_get (rq_headers r) ''X-Atrium-Filename'';
            name = (case url_unescape EncQueryComponent raw of Some n \<Rightarrow> n | None \<Rightarrow> raw)
        in if rq_body_error r \<noteq> None then (st, http_error ''read body'' 400 w)
           else case store_upload a (url_query_get r ''path'') name (rq_body r) st of
               (False, st') \<Rightarrow> (st', http_error ''not found'' 404 w)
             | (True, st') \<Rightarrow> (st', write_header 201 w)))"

definition handle_seed :: "instant \<Rightarrow> 'a stub_handler" where
  "handle_seed now r x = (seed now (fst x), write_header 204 (snd x))"

subsection \<open>Routing\<close>

definition stub_routes :: "instant \<Rightarrow> 'a stub_handler route list" where
  "stub_routes now =
     [route ''GET /api/v1/health'' handle_health,
      route ''GET /api/v1/shares'' handle_shares,
      route ''GET /api/v1/shares/{id}/content'' handle_content,
      route ''GET /api/v1/shares/{id}/folder'' handle_folder,
      route ''GET /api/v1/shares/{id}/folder/{fileID}/content'' handle_folder_file,
      route ''POST /api/v1/shares/{id}/upload'' handle_stub_upload,
      route ''POST /_seed'' (handle_seed now)]"

definition stub_serve :: "instant \<Rightarrow> 'a stub_handler" where
  "stub_serve now r x =
     (mux_store (fst x) (stub_routes now) r (snd x), serve_mux (mux_writer (fst x) (stub_routes now)) r (snd x))"

text \<open>The base URL of the running stub, from the address of its listener.\<close>

definition start_stub_provider :: "go_error + string \<Rightarrow> go_error + string" where
  "start_stub_provider listen = (case listen of
      Inl e \<Rightarrow> Inl (Wrap ''listen stub provider: '' e [])
    | Inr addr \<Rightarrow> Inr (''http://'' @ addr))"

subsection \<open>The store's invariant\<close>

text \<open>Two identifiers never share an object, and no object is beyond the allocated ones.\<close>

definition store_ok :: "stub_store \<Rightarrow> bool" where
  "store_ok st \<longleftrightarrow> (\<forall>i a. st_shares st i = Some a \<longrightarrow> a < st_next st)
     \<and> (\<forall>i j a. st_shares st i = Some a \<and> st_shares st j = Some a \<longrightarrow> i = j)"

lemma fixture_length [simp]: "length (fixture now) = 7"
  by (simp add: fixture_def)

lemma fixture_ids: "map fst (fixture now) = listing_order"
  by (simp add: fixture_def listing_order_def)

lemma listing_order_distinct: "distinct listing_order" "length listing_order = 7"
  by (simp_all add: listing_order_def)

lemma seed_shares: "st_shares (seed now st) i = Some a \<longleftrightarrow> (\<exists>k < 7. i = listing_order ! k \<and> a = st_next st + k)"
proof -
  have d: "distinct (map fst (zip listing_order [st_next st..<st_next st + 7]))"
    by (simp add: listing_order_distinct)
  have "st_shares (seed now st) = map_of (zip listing_order [st_next st..<st_next st + 7])"
    by (simp add: seed_def Let_def fixture_ids)
  then show ?thesis
    by (auto simp: map_of_eq_Some_iff [OF d] in_set_zip listing_order_distinct)
qed

lemma seed_parts [simp]:
  "st_next (seed now st) = st_next st + 7"
  "a < st_next st \<Longrightarrow> st_objects (seed now st) a = st_objects st a"
  "k < 7 \<Longrightarrow> st_objects (seed now st) (st_next st + k) = snd (fixture now ! k)"
  by (simp_all add: seed_def Let_def)

lemma seed_ok: "store_ok (seed now st)"
  by (auto simp: store_ok_def seed_shares nth_eq_iff_index_eq listing_order_distinct)

lemma take_download_parts:
  assumes "take_download a st = (res, st')"
  shows "st_shares st' = st_shares st" "st_next st' = st_next st"
    "b \<noteq> a \<Longrightarrow> st_objects st' b = st_objects st b"
    "ss_recipient (st_objects st' b) = ss_recipient (st_objects st b)"
    "sh_max_downloads (ss_share (st_objects st' b)) = sh_max_downloads (ss_share (st_objects st b))"
    "sh_download_count (ss_share (st_objects st' a)) = sh_download_count (ss_share (st_objects st a)) + (if res = None then 0 else 1)"
    "res = None \<longleftrightarrow> (\<exists>m. sh_max_downloads (ss_share (st_objects st a)) = Some m \<and> m \<le> sh_download_count (ss_share (st_objects st a)))"
  using assms by (auto simp: take_download_def Let_def split: if_splits option.splits)

lemma store_upload_parts:
  assumes "store_upload a path name body st = (done1, st')"
  shows "st_shares st' = st_shares st" "st_next st' = st_next st"
    "ss_recipient (st_objects st' b) = ss_recipient (st_objects st b)" "ss_share (st_objects st' b) = ss_share (st_objects st b)"
  using assms by (auto simp: store_upload_def Let_def split: if_splits option.splits prod.splits)

lemma store_ok_same: "store_ok st \<Longrightarrow> st_shares st' = st_shares st \<Longrightarrow> st_next st' = st_next st \<Longrightarrow> store_ok st'"
  by (simp add: store_ok_def)

subsection \<open>The contract: a ledger of downloads\<close>

text \<open>What a client may rely on: who may use a share, and how many downloads are left, if they are limited.\<close>

type_synonym ledger = "string \<Rightarrow> (string \<times> nat option) option"

definition downloads_left :: "share \<Rightarrow> nat option" where
  "downloads_left s = map_option (\<lambda>m. nat (m - sh_download_count s)) (sh_max_downloads s)"

definition ledger_of :: "stub_store \<Rightarrow> ledger" where
  "ledger_of st i = map_option (\<lambda>a. (ss_recipient (st_objects st a), downloads_left (ss_share (st_objects st a)))) (st_shares st i)"

definition ledger_download :: "string \<Rightarrow> string \<Rightarrow> ledger \<Rightarrow> nat \<times> ledger" where
  "ledger_download email i l = (case l i of
      None \<Rightarrow> (404, l)
    | Some (recipient, left) \<Rightarrow>
        if recipient \<noteq> email then (404, l)
        else case left of
            None \<Rightarrow> (200, l)
          | Some 0 \<Rightarrow> (410, l)
          | Some (Suc n) \<Rightarrow> (200, l(i \<mapsto> (recipient, Some n))))"

lemma http_error_status: "w_committed w = None \<Longrightarrow> status_of (http_error m n w) = n"
  by (simp add: http_error_reply)

lemma serve_file_status: "w_committed w = None \<Longrightarrow> status_of (serve_file name content w) = 200"
  by (simp add: serve_file_def write_body_reply write_header_status writer_simps)

lemma ledger_of_same:
  assumes "st_shares st' = st_shares st" "\<And>b. ss_recipient (st_objects st' b) = ss_recipient (st_objects st b)"
    "\<And>b. ss_share (st_objects st' b) = ss_share (st_objects st b)"
  shows "ledger_of st' = ledger_of st"
  using assms by (simp add: ledger_of_def fun_eq_iff)

lemma take_download_ledger:
  assumes "store_ok st" "st_shares st i = Some a" "take_download a st = (res, st')"
  shows "ledger_download (ss_recipient (st_objects st a)) i (ledger_of st) = (if res = None then 410 else 200, ledger_of st')"
proof -
  note p = take_download_parts [OF assms(3)]
  have others: "ledger_of st' j = ledger_of st j" if "j \<noteq> i" for j
  proof -
    have "st_shares st j \<noteq> Some a" using assms(1,2) that by (auto simp: store_ok_def)
    then show ?thesis using p(1,3,4) by (cases "st_shares st j") (auto simp: ledger_of_def)
  qed
  have same: "st' = st" if "res = None"
    using assms(3) that by (auto simp: take_download_def Let_def split: if_splits)
  show ?thesis
  proof (cases "sh_max_downloads (ss_share (st_objects st a))")
    case None
    with p(7) have r: "res \<noteq> None" by simp
    have "ledger_of st' i = ledger_of st i" using None assms(2) p(1,4,5) by (simp add: ledger_of_def downloads_left_def)
    with others have "ledger_of st' = ledger_of st" by (metis ext)
    with None r assms(2) show ?thesis by (auto simp: ledger_download_def ledger_of_def downloads_left_def)
  next
    case (Some m)
    show ?thesis
    proof (cases "m \<le> sh_download_count (ss_share (st_objects st a))")
      case True
      with Some p(7) have r: "res = None" by simp
      with True Some assms(2) same show ?thesis by (simp add: ledger_download_def ledger_of_def downloads_left_def)
    next
      case False
      with Some p(7) have r: "res \<noteq> None" by simp
      then have c: "sh_download_count (ss_share (st_objects st' a)) = sh_download_count (ss_share (st_objects st a)) + 1"
        using p(6) by simp
      obtain n where n: "nat (m - sh_download_count (ss_share (st_objects st a))) = Suc n"
        using False by (metis diff_gt_0_iff_gt not_le_imp_less not0_implies_Suc zero_less_nat_eq not_less0)
      then have "nat (m - (sh_download_count (ss_share (st_objects st a)) + 1)) = n" by linarith
      then have "ledger_of st' i = Some (ss_recipient (st_objects st a), Some n)"
        using Some assms(2) p(1,4,5) by (simp add: ledger_of_def downloads_left_def c)
      with others have "ledger_of st' = (ledger_of st)(i \<mapsto> (ss_recipient (st_objects st a), Some n))" by (auto simp: fun_eq_iff)
      with Some r n assms(2) show ?thesis by (simp add: ledger_download_def ledger_of_def downloads_left_def)
    qed
  qed
qed

text \<open>The stub implements the download ledger.  Seen through the ledger (who may use a share, and how
  many downloads are left), the stub's download handler is the ledger's operation: the same status
  and the same next ledger, on every branch, and the store stays well formed.  A share of another
  recipient is answered like one that does not exist.\<close>

theorem handle_content_ledger:
  assumes "store_ok st" "handle_content r (st, new_writer) = (st', v)"
  shows "ledger_download (tk_email (claims_from_request r)) (path_value r ''id'') (ledger_of st) = (status_of v, ledger_of st')
    \<and> store_ok st'"
proof (cases "may_use st (path_value r ''id'') (tk_email (claims_from_request r))")
  case None
  then have "st' = st" "status_of v = 404"
    using assms(2) by (auto simp: handle_content_def authorize_def http_error_status writer_simps)
  moreover have "ledger_download (tk_email (claims_from_request r)) (path_value r ''id'') (ledger_of st) = (404, ledger_of st)"
    using None by (auto simp: may_use_def find_share_def ledger_download_def ledger_of_def split: option.splits if_splits)
  ultimately show ?thesis using assms(1) by simp
next
  case (Some a)
  then have a: "st_shares st (path_value r ''id'') = Some a" "ss_recipient (st_objects st a) = tk_email (claims_from_request r)"
    by (auto simp: may_use_def find_share_def split: option.splits if_splits)
  obtain res st1 where t: "take_download a st = (res, st1)" by fastforce
  have v: "st' = st1" "v = download_reply res new_writer"
    using assms(2) Some by (simp_all add: handle_content_def authorize_def t)
  have "status_of v = (if res = None then 410 else 200)"
    by (auto simp: v download_reply_def http_error_status serve_file_status writer_simps split: option.split)
  with take_download_ledger [OF assms(1) a(1) t] show ?thesis
    using store_ok_same [OF assms(1) take_download_parts(1,2) [OF t]] by (simp add: v a(2))
qed

subsection \<open>Interleaved downloads\<close>

text \<open>
  Requests in flight: \<open>sy_flight k\<close> is the object that request \<open>k\<close> was authorized for, and
  \<open>sy_taken\<close> the objects whose content was handed out.  Requests of any number run between the
  two steps of a download, and the dataset may be reseeded at any time.
\<close>

record stub_system =
  sy_store :: stub_store
  sy_flight :: "nat \<Rightarrow> nat option"
  sy_taken :: "nat list"

inductive stub_step :: "stub_system \<Rightarrow> stub_system \<Rightarrow> bool" where
  admit: "may_use (sy_store s) i email = Some a \<Longrightarrow> stub_step s (s\<lparr> sy_flight := (sy_flight s)(k := Some a) \<rparr>)"
| refuse: "sy_flight s k = Some a \<Longrightarrow> take_download a (sy_store s) = (None, st') \<Longrightarrow>
     stub_step s (s\<lparr> sy_store := st', sy_flight := (sy_flight s)(k := None) \<rparr>)"
| serve: "sy_flight s k = Some a \<Longrightarrow> take_download a (sy_store s) = (Some c, st') \<Longrightarrow>
     stub_step s (s\<lparr> sy_store := st', sy_flight := (sy_flight s)(k := None), sy_taken := a # sy_taken s \<rparr>)"
| upload: "sy_flight s k = Some a \<Longrightarrow> store_upload a path name body (sy_store s) = (ok, st') \<Longrightarrow>
     stub_step s (s\<lparr> sy_store := st', sy_flight := (sy_flight s)(k := None) \<rparr>)"
| reseed: "stub_step s (s\<lparr> sy_store := seed now (sy_store s) \<rparr>)"

definition stub_init :: "instant \<Rightarrow> stub_system" where
  "stub_init now = \<lparr> sy_store = new_store now, sy_flight = Map.empty, sy_taken = [] \<rparr>"

inductive stub_reachable :: "stub_system \<Rightarrow> bool" where
  init: "stub_reachable (stub_init now)"
| step: "stub_reachable s \<Longrightarrow> stub_step s t \<Longrightarrow> stub_reachable t"

text \<open>The counter of an object counts what was handed out, and its limit holds.\<close>

definition counted :: "stub_store \<Rightarrow> nat list \<Rightarrow> nat \<Rightarrow> bool" where
  "counted st taken a \<longleftrightarrow> sh_download_count (ss_share (st_objects st a)) = int (count_list taken a)
     \<and> (\<forall>m. sh_max_downloads (ss_share (st_objects st a)) = Some m \<longrightarrow> int (count_list taken a) \<le> m)"

definition system_ok :: "stub_system \<Rightarrow> bool" where
  "system_ok s \<longleftrightarrow> store_ok (sy_store s) \<and> (\<forall>k a. sy_flight s k = Some a \<longrightarrow> a < st_next (sy_store s))
     \<and> (\<forall>a < st_next (sy_store s). counted (sy_store s) (sy_taken s) a)
     \<and> (\<forall>a. st_next (sy_store s) \<le> a \<longrightarrow> count_list (sy_taken s) a = 0)"

lemma fixture_counts:
  "k < 7 \<Longrightarrow> sh_download_count (ss_share (snd (fixture now ! k))) = 0
     \<and> (\<forall>m. sh_max_downloads (ss_share (snd (fixture now ! k))) = Some m \<longrightarrow> 0 \<le> m)"
  by (auto simp: fixture_def fixture_file_def fixture_folder_def zero_share_def Let_def less_Suc_eq numeral_eq_Suc)

lemma may_use_allocated: "store_ok st \<Longrightarrow> may_use st i email = Some a \<Longrightarrow> a < st_next st"
  by (auto simp: may_use_def find_share_def store_ok_def split: option.splits if_splits)

lemma seed_counted:
  assumes "\<forall>a < st_next st. counted st taken a" "\<forall>a. st_next st \<le> a \<longrightarrow> count_list taken a = 0" "a < st_next st + 7"
  shows "counted (seed now st) taken a"
proof (cases "a < st_next st")
  case True
  with assms(1) show ?thesis by (simp add: counted_def)
next
  case False
  then obtain k where "a = st_next st + k" "k < 7" using assms(3) by (metis add_diff_inverse_nat nat_add_left_cancel_less)
  with assms(2) fixture_counts [of k now] show ?thesis by (simp add: counted_def)
qed

lemma system_ok_init: "system_ok (stub_init now)"
  using seed_counted [of empty_store "[]" _ now] seed_ok [of now empty_store]
  by (auto simp: system_ok_def stub_init_def new_store_def empty_store_def)

lemma system_ok_step: "stub_step s t \<Longrightarrow> system_ok s \<Longrightarrow> system_ok t"
proof (induction rule: stub_step.induct)
  case (admit s i email a k)
  then show ?case using may_use_allocated by (auto simp: system_ok_def)
next
  case (refuse s k a st')
  then have "st' = sy_store s" by (auto simp: take_download_def Let_def split: if_splits)
  with refuse show ?case by (auto simp: system_ok_def)
next
  case (serve s k a c st')
  note p = take_download_parts [OF serve.hyps(2)]
  have a: "a < st_next (sy_store s)" and c: "counted (sy_store s) (sy_taken s) a"
    using serve.hyps(1) serve.prems by (auto simp: system_ok_def)
  have "counted st' (a # sy_taken s) b" if "b < st_next (sy_store s)" for b
  proof (cases "b = a")
    case True
    with c p(5-7) show ?thesis by (fastforce simp: counted_def)
  next
    case False
    with that serve.prems p(3) show ?thesis by (simp add: counted_def system_ok_def)
  qed
  with a serve.prems p(1,2) store_ok_same [of "sy_store s" st'] show ?case by (auto simp: system_ok_def)
next
  case (upload s k a path name body ok st')
  note p = store_upload_parts [OF upload.hyps(2)]
  from upload.prems p store_ok_same [of "sy_store s" st'] show ?case by (auto simp: system_ok_def counted_def)
next
  case (reseed s now)
  have "counted (seed now (sy_store s)) (sy_taken s) a" if "a < st_next (sy_store s) + 7" for a
    using seed_counted [OF _ _ that, of "sy_taken s" now] reseed by (auto simp: system_ok_def)
  moreover have "a < st_next (sy_store s) + 7" if "sy_flight s k = Some a" for k a
    using reseed that by (fastforce simp: system_ok_def)
  ultimately show ?case using reseed seed_ok by (auto simp: system_ok_def)
qed

lemma reachable_ok: "stub_reachable s \<Longrightarrow> system_ok s"
  by (induction rule: stub_reachable.induct) (auto intro: system_ok_init system_ok_step)

text \<open>C25: A download limit holds under every interleaving.  However authorizations, downloads, uploads and
  resets are interleaved, the content of a share with a limit has been handed out at most that many
  times, and its counter is the number of times it was.\<close>

theorem download_limit_holds_interleaved:
  assumes "stub_reachable s" "a < st_next (sy_store s)"
  shows "sh_download_count (ss_share (st_objects (sy_store s) a)) = int (count_list (sy_taken s) a)
    \<and> (\<forall>m. sh_max_downloads (ss_share (st_objects (sy_store s) a)) = Some m \<longrightarrow> int (count_list (sy_taken s) a) \<le> m)"
  using reachable_ok [OF assms(1)] assms(2) by (simp add: system_ok_def counted_def)

subsection \<open>Uploads\<close>

lemma find_add_among:
  assumes "find (node_named s) ns = Some c"
  shows "find (node_named s) (add_among ns s ss new) = Some (add_child c ss new)"
  using assms
proof (induction ns)
  case (Cons n ns)
  have "fe_name (nd_entry (add_child n ss new)) = fe_name (nd_entry n)" by (cases n; cases ss) simp_all
  then have "node_named s (add_child n ss new) = node_named s n" by (simp add: node_named_def)
  with Cons show ?case by (auto split: if_splits)
qed simp

lemma walk_add_child:
  "walk n ss = Some (Node e c ch) \<Longrightarrow> walk (add_child n ss new) ss = Some (Node e c (ch @ [new]))"
proof (induction ss arbitrary: n)
  case Nil
  then show ?case by simp
next
  case (Cons s ss)
  obtain e1 c1 ch1 where n: "n = Node e1 c1 ch1" by (cases n)
  with Cons.prems obtain d where d: "find (node_named s) ch1 = Some d" "walk d ss = Some (Node e c ch)"
    by (auto split: option.splits)
  from Cons.IH [OF d(2)] show ?case by (simp add: n find_add_among [OF d(1)])
qed

text \<open>An accepted upload is there.  After an upload to a folder, the same path still leads to that
  folder, which lists its former children and then the new file, with the recipient as its owner,
  the name and the size of what was sent.  It shows up in a read-own folder and stays hidden in a
  dropzone.\<close>

theorem upload_is_listed:
  assumes "store_upload a path name body st = (True, st')"
  shows "\<exists>folder folder' e. resolve (ss_root (st_objects st a)) path = Some (folder, False)
    \<and> resolve (ss_root (st_objects st' a)) path = Some (folder', False)
    \<and> nd_children folder' = nd_children folder @ [Node e body []]
    \<and> fe_name e = name \<and> fe_size e = Some (int (length body)) \<and> fe_is_own e
    \<and> filter_by_mode (nd_children folder') 1 = filter_by_mode (nd_children folder) 1 @ [e]
    \<and> filter_by_mode (nd_children folder') 3 = []"
proof -
  obtain root where root: "ss_root (st_objects st a) = Some root"
    using assms by (auto simp: store_upload_def resolve_def Let_def split: option.splits)
  then obtain folder where f: "walk root (path_segments path) = Some folder"
    and d: "\<not> (path_segments path \<noteq> [] \<and> \<not> fe_is_folder (nd_entry folder))"
    using assms by (auto simp: store_upload_def resolve_def Let_def split: option.splits if_splits)
  obtain fe fc ch where n: "folder = Node fe fc ch" by (cases folder)
  define e where "e = zero_entry\<lparr> fe_id := ''up-'' @ itoa (int (length ch + 1)), fe_name := name,
      fe_size := Some (int (length body)), fe_is_own := True \<rparr>"
  have r: "resolve (ss_root (st_objects st a)) path = Some (folder, False)"
    using d by (simp add: root resolve_def f)
  have st': "ss_root (st_objects st' a) = Some (add_child root (path_segments path) (Node e body []))"
    using assms r by (auto simp: store_upload_def Let_def root n e_def)
  have w: "walk (add_child root (path_segments path) (Node e body [])) (path_segments path) = Some (Node fe fc (ch @ [Node e body []]))"
    by (rule walk_add_child) (simp add: f n)
  have r': "resolve (ss_root (st_objects st' a)) path = Some (Node fe fc (ch @ [Node e body []]), False)"
    using d by (simp add: st' resolve_def w n)
  show ?thesis
    by (rule exI [of _ folder], rule exI [of _ "Node fe fc (ch @ [Node e body []])"], rule exI [of _ e])
      (simp add: r r', simp add: n filter_by_mode_def e_def)
qed

text \<open>Identifiers of uploads repeat: a file uploaded to the root and one uploaded to a folder of it can get
  the same, and then the identifier leads to the one in the folder only.\<close>

lemma upload_ids_collide:
  "let st0 = new_store 0; (d1, st1) = store_upload 2 [] ''a'' ''first'' st0;
       (d2, st2) = store_upload 2 ''Unterlagen'' ''b'' ''x'' st1; (d3, st3) = store_upload 2 ''Unterlagen'' ''c'' ''second'' st2;
       ch = nd_children (the (ss_root (st_objects st3 2)))
   in d1 \<and> d2 \<and> d3 \<and> map (\<lambda>n. fe_id (nd_entry n)) ch = [''plan'', ''unterlagen'', ''up-3'']
      \<and> map_option nd_content (find_by_id ch ''up-3'') = Some ''second''"
  by code_simp

subsection \<open>Examples\<close>

definition bearer :: "string \<Rightarrow> 'a request_scheme \<Rightarrow> 'a request_scheme" where
  "bearer payload r = r\<lparr> rq_headers := (rq_headers r)(''Authorization'' \<mapsto>
     ''Bearer h.'' @ b64_encode RawURLEncoding payload @ ''.s'') \<rparr>"

definition sample_stub_request :: gw_request where
  "sample_stub_request = (bearer (print_json (jobject [(''email'', jstring recipient_email)])) (gw_get []))
     \<lparr> rq_path_values := [''id'' \<mapsto> ''file-limited''] \<rparr>"

lemma sample_stub_claims: "tk_email (claims_from_request sample_stub_request) = recipient_email"
  by code_simp

lemma sample_ledger_download:
  "\<exists>st' v. handle_content sample_stub_request (new_store 0, new_writer) = (st', v) \<and> status_of v = 200
     \<and> ledger_of st' ''file-limited'' = Some (recipient_email, Some 0)"
proof -
  obtain st' v where h: "handle_content sample_stub_request (new_store 0, new_writer) = (st', v)" by fastforce
  have ok: "store_ok (new_store 0)" by (simp add: new_store_def seed_ok)
  have l: "ledger_of (new_store 0) ''file-limited'' = Some (recipient_email, Some 1)" by code_simp
  have "path_value sample_stub_request ''id'' = ''file-limited''"
    by (simp add: sample_stub_request_def path_value_def header_get_def)
  with handle_content_ledger [OF ok h]
  have "ledger_download recipient_email ''file-limited'' (ledger_of (new_store 0)) = (status_of v, ledger_of st')"
    by (simp add: sample_stub_claims)
  then have "status_of v = 200" "ledger_of st' = (ledger_of (new_store 0))(''file-limited'' \<mapsto> (recipient_email, Some 0))"
    using l by (auto simp: ledger_download_def)
  with h show ?thesis by auto
qed

definition raced :: stub_system where
  "raced =
     (let s0 = stub_init 0; s2 = s0\<lparr> sy_flight := [0 \<mapsto> 1, 1 \<mapsto> 1] \<rparr>
      in s2\<lparr> sy_store := snd (take_download 1 (sy_store s0)), sy_flight := [1 \<mapsto> 1], sy_taken := [1] \<rparr>)"

lemma raced_reachable: "stub_reachable raced"
proof -
  have m: "may_use (new_store 0) ''file-limited'' recipient_email = Some 1" by code_simp
  have t: "fst (take_download 1 (new_store 0)) \<noteq> None" by code_simp
  then obtain c st' where t: "take_download 1 (new_store 0) = (Some c, st')" by (metis option.exhaust surj_pair fst_conv)
  let ?s0 = "stub_init 0" and ?s1 = "(stub_init 0)\<lparr> sy_flight := [0 \<mapsto> 1] \<rparr>"
    and ?s2 = "(stub_init 0)\<lparr> sy_flight := [0 \<mapsto> 1, 1 \<mapsto> 1] \<rparr>"
  have "stub_step ?s0 ?s1" using stub_step.admit [of ?s0 "''file-limited''" recipient_email 1 0] m by (simp add: stub_init_def)
  moreover have "stub_step ?s1 ?s2" using stub_step.admit [of ?s1 "''file-limited''" recipient_email 1 1] m by (simp add: stub_init_def)
  moreover have "stub_step ?s2 raced"
    using stub_step.serve [of ?s2 0 1 c st'] t by (simp add: stub_init_def raced_def fun_upd_twist)
  ultimately show ?thesis by (blast intro: stub_reachable.intros)
qed

lemma download_limit_holds_interleaved_witness:
  "sy_flight raced 1 = Some 1 \<and> int (count_list (sy_taken raced) 1) \<le> 1"
proof -
  have p: "1 < st_next (sy_store raced)" "sh_max_downloads (ss_share (st_objects (sy_store raced) 1)) = Some 1" by code_simp+
  have "sy_flight raced 1 = Some 1" by (simp add: raced_def Let_def)
  with download_limit_holds_interleaved [OF raced_reachable p(1)] p(2) show ?thesis by blast
qed

lemma upload_is_listed_witness:
  "\<exists>st' e. store_upload 4 [] ''a.txt'' ''abc'' (new_store 0) = (True, st') \<and> fe_name e = ''a.txt''
     \<and> map_option (\<lambda>x. filter_by_mode (nd_children (fst x)) 1) (resolve (ss_root (st_objects st' 4)) []) = Some [e]"
proof -
  have "fst (store_upload 4 [] ''a.txt'' ''abc'' (new_store 0))" by code_simp
  then obtain st' where u: "store_upload 4 [] ''a.txt'' ''abc'' (new_store 0) = (True, st')"
    by (cases "store_upload 4 [] ''a.txt'' ''abc'' (new_store 0)") simp
  have r: "map_option (\<lambda>x. nd_children (fst x)) (resolve (ss_root (st_objects (new_store 0) 4)) []) = Some []" by code_simp
  from upload_is_listed [OF u] obtain folder folder' e
    where f: "resolve (ss_root (st_objects (new_store 0) 4)) [] = Some (folder, False)"
      and f': "resolve (ss_root (st_objects st' 4)) [] = Some (folder', False)" and n: "fe_name e = ''a.txt''"
      and l: "filter_by_mode (nd_children folder') 1 = filter_by_mode (nd_children folder) 1 @ [e]"
    by (elim exE conjE) (rule that)
  have "nd_children folder = []" using r unfolding f by simp
  then have "filter_by_mode (nd_children folder') 1 = [e]" unfolding l by (simp add: filter_by_mode_def)
  then show ?thesis
    by (intro exI [of _ st'] exI [of _ e]) (simp add: u f' n)
qed

end
