(* ===== verification/Mock_Oidc.thy ===== *)
theory Mock_Oidc
  imports Stub_Provider
begin

section \<open>The mock identity provider (\<open>cmd/atrium-e2e/mockoidc.go\<close>)\<close>

text \<open>
  The browser-drivable OpenID provider of the end-to-end harness: discovery, the login form, the
  authorization codes it mints and their exchange for an identity token.  Its state is the table of
  outstanding codes.  The token signer, the key set, the random bytes of a code and
  \<open>mime.ParseMediaType\<close> are arguments, and so are the results of listening and of key generation in
  \<open>start_mock_oidc\<close>.
\<close>

subsection \<open>State\<close>

record code_data =
  cd_email :: string
  cd_verified :: bool
  cd_nonce :: string

record mock_oidc =
  mk_issuer :: string
  mk_client_id :: string
  mk_jwks :: json
  mk_codes :: "string \<Rightarrow> code_data option"

type_synonym 'a mock_handler = "'a request_scheme \<Rightarrow> mock_oidc \<times> writer \<Rightarrow> mock_oidc \<times> writer"

definition mock_at :: "string \<Rightarrow> json \<Rightarrow> string \<Rightarrow> mock_oidc" where
  "mock_at addr jwks client =
     \<lparr> mk_issuer = ''http://'' @ addr, mk_client_id = client, mk_jwks = jwks, mk_codes = Map.empty \<rparr>"

text \<open>
  Key generation, the signer, the listener and the JSON of a key set (of a key, its identifier, algorithm and
  use) are arguments; the provider is handed out with the signer its tokens are made with.
\<close>

definition start_mock_oidc ::
  "go_error + 'k \<Rightarrow> ('k \<Rightarrow> string \<Rightarrow> string \<Rightarrow> go_error + 's) \<Rightarrow> go_error + string \<Rightarrow> ('k \<Rightarrow> string \<Rightarrow> string \<Rightarrow> string \<Rightarrow> json)
   \<Rightarrow> string \<Rightarrow> go_error + (mock_oidc \<times> 's)" where
  "start_mock_oidc generated mk_signer listen jwk_set client =
     (case generated of
        Inl e \<Rightarrow> Inl (Wrap ''generate oidc key: '' e [])
      | Inr key \<Rightarrow> (case mk_signer key ''RS256'' ''e2e-key'' of
          Inl e \<Rightarrow> Inl (Wrap ''new oidc signer: '' e [])
        | Inr signer \<Rightarrow> (case listen of
            Inl e \<Rightarrow> Inl (Wrap ''listen mock oidc: '' e [])
          | Inr addr \<Rightarrow> Inr (mock_at addr (jwk_set key ''e2e-key'' ''RS256'' ''sig'') client, signer))))"

subsection \<open>Forms\<close>

text \<open>
  \<open>Request.ParseForm\<close> of a \<open>POST\<close>: the pairs of an urlencoded body, then those of the query, or
  nothing when the body cannot be read or is too long, or when a pair is malformed.  The argument is the
  media type \<open>mime.ParseMediaType\<close> reads from the header.
\<close>

definition query_ok :: "string \<Rightarrow> bool" where
  "query_ok q = list_all (\<lambda>s. s = [] \<or> parse_pair s \<noteq> None) (split_on (CHR ''&'') q)"

definition max_form_size :: int where "max_form_size = 10 * 2 ^ 20"

definition parse_form :: "(string \<Rightarrow> string option) \<Rightarrow> 'a request_scheme \<Rightarrow> (string \<times> string) list option" where
  "parse_form mt r =
     (let ct = header_get (rq_headers r) ''Content-Type'';
          body = (case mt (if ct = [] then ''application/octet-stream'' else ct) of
              None \<Rightarrow> None
            | Some m \<Rightarrow>
                if m \<noteq> ''application/x-www-form-urlencoded'' then Some []
                else if rq_body_error r \<noteq> None \<or> max_form_size < int (length (rq_body r)) \<or> \<not> query_ok (rq_body r) then None
                else Some (query_values (rq_body r)));
          q = u_raw_query (rq_url r)
      in case body of
           None \<Rightarrow> None
         | Some ps \<Rightarrow> if query_ok q then Some (ps @ query_values q) else None)"

definition form_value :: "(string \<times> string) list \<Rightarrow> string \<Rightarrow> string" where
  "form_value f k = (case map_of f k of None \<Rightarrow> [] | Some v \<Rightarrow> v)"

subsection \<open>Handlers\<close>

text \<open>A Go map is written with its keys in order.\<close>

definition mock_discovery :: "'a mock_handler" where
  "mock_discovery r x =
     (let iss = mk_issuer (fst x); names = (\<lambda>ss. JArr (map jstring ss))
      in (fst x, stub_write_json (Some (jobject
           [(''authorization_endpoint'', jstring (iss @ ''/auth'')), (''end_session_endpoint'', jstring (iss @ ''/logout'')),
            (''id_token_signing_alg_values_supported'', names [''RS256'']), (''issuer'', jstring iss),
            (''jwks_uri'', jstring (iss @ ''/jwks'')), (''response_types_supported'', names [''code'']),
            (''scopes_supported'', names [''openid'', ''email'']), (''subject_types_supported'', names [''public'']),
            (''token_endpoint'', jstring (iss @ ''/token''))])) (snd x)))"

definition mock_jwks :: "'a mock_handler" where
  "mock_jwks r x = (fst x, stub_write_json (Some (mk_jwks (fst x))) (snd x))"

definition html_attr :: "string \<Rightarrow> string \<Rightarrow> string" where
  "html_attr k v = '' '' @ k @ ''='' @ [CHR 0x22] @ v @ [CHR 0x22]"

definition hidden_field :: "string \<Rightarrow> string \<Rightarrow> string" where
  "hidden_field name v = ''  <input'' @ html_attr ''type'' ''hidden'' @ html_attr ''name'' name @ html_attr ''value'' (html_escape v) @ ''>''"

definition login_form :: "string \<Rightarrow> string \<Rightarrow> string \<Rightarrow> string" where
  "login_form state nonce redirect_uri = join
     [''<!doctype html><html'' @ html_attr ''lang'' ''de'' @ ''><head><meta'' @ html_attr ''charset'' ''utf-8''
        @ ''><title>Mock Login</title></head>'',
      ''<body>'', ''<h1>Mock Identity Provider</h1>'',
      ''<form'' @ html_attr ''method'' ''POST'' @ html_attr ''action'' ''/auth'' @ ''>'',
      ''  <label>E-Mail <input'' @ html_attr ''name'' ''email'' @ html_attr ''aria-label'' ''E-Mail'' @ '' autofocus></label>'',
      ''  <label><input'' @ html_attr ''type'' ''checkbox'' @ html_attr ''name'' ''verified'' @ '' checked> Verifiziert</label>'',
      hidden_field ''state'' state, hidden_field ''nonce'' nonce, hidden_field ''redirect_uri'' redirect_uri,
      ''  <button'' @ html_attr ''type'' ''submit'' @ ''>Anmelden</button>'', ''</form>'', ''</body></html>''] newline"

definition mock_auth_form :: "'a mock_handler" where
  "mock_auth_form r x =
     (fst x, write_body (login_form (url_query_get r ''state'') (url_query_get r ''nonce'') (url_query_get r ''redirect_uri''))
       (w_set ''Content-Type'' ''text/html; charset=utf-8'' (snd x)))"

definition random_hex :: "string \<Rightarrow> string" where
  "random_hex bs = hex_encode bs"

definition mock_auth_submit :: "(string \<Rightarrow> string option) \<Rightarrow> string \<Rightarrow> 'a mock_handler" where
  "mock_auth_submit mt bs r x = (case parse_form mt r of
      None \<Rightarrow> (fst x, http_error ''bad form'' 400 (snd x))
    | Some f \<Rightarrow>
        (let code = random_hex bs;
             data = \<lparr> cd_email = form_value f ''email'', cd_verified = (form_value f ''verified'' \<noteq> []), cd_nonce = form_value f ''nonce'' \<rparr>;
             p = (fst x)\<lparr> mk_codes := (mk_codes (fst x))(code \<mapsto> data) \<rparr>;
             redirect = form_value f ''redirect_uri'';
             sep = (case url_parse redirect of None \<Rightarrow> ''?'' | Some u \<Rightarrow> if u_raw_query u \<noteq> [] then ''&'' else ''?'')
         in (p, http_redirect r (redirect @ sep @ ''code='' @ query_escape code @ ''&state='' @ query_escape (form_value f ''state''))
              302 (snd x))))"

definition mock_token_claims :: "mock_oidc \<Rightarrow> instant \<Rightarrow> code_data \<Rightarrow> (string \<times> json) list" where
  "mock_token_claims p now d =
     [(''aud'', jstring (mk_client_id p)), (''email'', jstring (cd_email d)), (''email_verified'', JBool (cd_verified d)),
      (''exp'', jint (unix_seconds (now + hour))), (''iat'', jint (unix_seconds now)), (''iss'', jstring (mk_issuer p)),
      (''nonce'', jstring (cd_nonce d)), (''sub'', jstring (''e2e|'' @ cd_email d))]"

definition token_reply :: "string \<Rightarrow> string \<Rightarrow> json" where
  "token_reply access id_token =
     jobject [(''access_token'', jstring access), (''expires_in'', jint 3600), (''id_token'', jstring id_token), (''token_type'', jstring ''Bearer'')]"

definition mock_token ::
  "(string \<Rightarrow> string option) \<Rightarrow> ((string \<times> json) list \<Rightarrow> go_error + string) \<Rightarrow> instant \<Rightarrow> 'a mock_handler" where
  "mock_token mt sign now r x = (case parse_form mt r of
      None \<Rightarrow> (fst x, http_error ''bad form'' 400 (snd x))
    | Some f \<Rightarrow>
        (let code = form_value f ''code''; p = (fst x)\<lparr> mk_codes := (mk_codes (fst x))(code := None) \<rparr>
         in case mk_codes (fst x) code of
              None \<Rightarrow> (p, http_error ''invalid_grant'' 400 (snd x))
            | Some d \<Rightarrow>
                (case sign (mock_token_claims p now d) of
                   Inl e \<Rightarrow> (p, http_error (error_text e) 500 (snd x))
                 | Inr t \<Rightarrow> (p, stub_write_json (Some (token_reply ''e2e-access-token'' t)) (snd x)))))"

definition mock_logout :: "'a mock_handler" where
  "mock_logout r x =
     (let target = url_query_get r ''post_logout_redirect_uri''
      in (fst x, http_redirect r (if target = [] then ''/'' else target) 302 (snd x)))"

definition mock_routes ::
  "(string \<Rightarrow> string option) \<Rightarrow> ((string \<times> json) list \<Rightarrow> go_error + string) \<Rightarrow> string \<Rightarrow> instant \<Rightarrow> 'a mock_handler route list" where
  "mock_routes mt sign bs now =
     [route ''GET /.well-known/openid-configuration'' mock_discovery, route ''GET /jwks'' mock_jwks, route ''GET /auth'' mock_auth_form,
      route ''POST /auth'' (mock_auth_submit mt bs), route ''POST /token'' (mock_token mt sign now), route ''GET /logout'' mock_logout]"

subsection \<open>Runs\<close>

text \<open>One request to the provider that does not mint the code \<open>c\<close>; the mutex makes it one step on the codes.\<close>

inductive mock_step :: "string \<Rightarrow> mock_oidc \<Rightarrow> mock_oidc \<Rightarrow> bool" where
  submit: "random_hex bs \<noteq> c \<Longrightarrow> mock_step c p (fst (mock_auth_submit mt bs (r :: gw_request) (p, w)))"
| token: "mock_step c p (fst (mock_token mt sign now (r :: gw_request) (p, w)))"
| other: "h \<in> {mock_discovery, mock_jwks, mock_auth_form, mock_logout} \<Longrightarrow> mock_step c p (fst (h (r :: gw_request) (p, w)))"

inductive mock_run :: "string \<Rightarrow> mock_oidc \<Rightarrow> mock_oidc \<Rightarrow> bool" where
  stop: "mock_run c p p"
| more: "mock_run c p q \<Longrightarrow> mock_step c q q' \<Longrightarrow> mock_run c p q'"

lemma mock_step_spent: "mock_step c p q \<Longrightarrow> mk_codes p c = None \<Longrightarrow> mk_codes q c = None"
  by (induction rule: mock_step.induct)
    (auto simp: mock_auth_submit_def mock_token_def mock_discovery_def mock_jwks_def mock_auth_form_def mock_logout_def Let_def
      split: option.splits sum.splits)

lemma mock_run_spent: "mock_run c p q \<Longrightarrow> mk_codes p c = None \<Longrightarrow> mk_codes q c = None"
  by (induction rule: mock_run.induct) (auto dest: mock_step_spent)

lemma mock_token_spends: "parse_form mt r = Some f \<Longrightarrow> mk_codes (fst (mock_token mt sign now r (p, w))) (form_value f ''code'') = None"
  by (auto simp: mock_token_def Let_def split: option.splits sum.splits)

lemma mock_token_unknown:
  assumes "parse_form mt r = Some f" "mk_codes p (form_value f ''code'') = None"
  shows "status_of (snd (mock_token mt sign now r (p, new_writer))) = 400"
  using assms by (simp add: mock_token_def Let_def http_error_status writer_simps)

text \<open>An authorization code is good for one exchange.  After a token request for a code, whatever
  requests follow that do not mint the same code again, every other token request for it is refused
  with \<open>invalid_grant\<close>; so a code is exchanged at most once, even if the first exchange failed.\<close>

theorem code_is_single_use:
  assumes "parse_form mt r = Some f" "mock_run (form_value f ''code'') (fst (mock_token mt sign now r (p, w))) q"
    and "parse_form mt' r' = Some f'" "form_value f' ''code'' = form_value f ''code''"
  shows "snd (mock_token mt' sign' now' r' (q, new_writer)) = http_error ''invalid_grant'' 400 new_writer"
proof -
  have "mk_codes q (form_value f' ''code'') = None"
    unfolding assms(4) by (rule mock_run_spent [OF assms(2) mock_token_spends [OF assms(1)]])
  with assms(3) show ?thesis by (simp add: mock_token_def Let_def)
qed

subsection \<open>Examples\<close>

definition sample_mock :: mock_oidc where
  "sample_mock = (mock_at ''127.0.0.1:9000'' JNull ''atrium-core-e2e'')
     \<lparr> mk_codes := [''ab'' \<mapsto> \<lparr> cd_email = recipient_email, cd_verified = True, cd_nonce = ''n'' \<rparr>] \<rparr>"

definition sample_token_request :: gw_request where
  "sample_token_request = (gw_get ''/token'')\<lparr> rq_method := ''POST'', rq_headers := [''Content-Type'' \<mapsto> ''application/x-www-form-urlencoded''],
     rq_body := ''code=ab'' \<rparr>"

lemma sample_form: "parse_form Some sample_token_request = Some [(''code'', ''ab'')]"
  by code_simp

lemma code_is_single_use_witness:
  "status_of (snd (mock_token Some (\<lambda>_. Inr ''a.b.c'') 0 sample_token_request (sample_mock, new_writer))) = 200
   \<and> snd (mock_token Some (\<lambda>_. Inr ''a.b.c'') 0 sample_token_request
        (fst (mock_token Some (\<lambda>_. Inr ''a.b.c'') 0 sample_token_request (sample_mock, new_writer)), new_writer))
      = http_error ''invalid_grant'' 400 new_writer"
proof
  show "status_of (snd (mock_token Some (\<lambda>_. Inr ''a.b.c'') 0 sample_token_request (sample_mock, new_writer))) = 200"
    by (simp add: mock_token_def sample_form form_value_def sample_mock_def Let_def stub_write_json_def encode_json_def
        write_body_reply status_of_def finish_def writer_simps)
qed (rule code_is_single_use [OF sample_form mock_run.stop sample_form refl])

end
