(* ===== verification/E2e_Harness.thy ===== *)
theory E2e_Harness
  imports Mock_Oidc Startup
begin

section \<open>The end-to-end harness (\<open>cmd/atrium-e2e/main.go\<close>)\<close>

text \<open>
  The harness wires the real gateway to the two stand-ins, with a configuration of its own instead of
  \<open>config.Load\<close>, and adds one route that resets the dataset.  The results of \<open>start_mock_oidc\<close>, of
  \<open>start_stub_provider\<close> and of \<open>gen_signing_key_pem\<close> are arguments, errors included.
\<close>

definition e2e_client_id :: string where "e2e_client_id = ''atrium-core-e2e''"

definition gen_signing_key_pem ::
  "go_error + 'k \<Rightarrow> ('k \<Rightarrow> go_error + string) \<Rightarrow> (string \<Rightarrow> string \<Rightarrow> string) \<Rightarrow> go_error + string" where
  "gen_signing_key_pem generated marshal pem_encode =
     bindr generated (\<lambda>key. bindr (marshal key) (\<lambda>der. Inr (pem_encode ''EC PRIVATE KEY'' der)))"

definition e2e_getenv :: "environ \<Rightarrow> string \<Rightarrow> string \<Rightarrow> string" where
  "e2e_getenv env key fallback = (let v = env key in if v \<noteq> [] then v else fallback)"

definition e2e_config :: "environ \<Rightarrow> string \<Rightarrow> string \<Rightarrow> string \<Rightarrow> config" where
  "e2e_config env issuer stub_url key =
     (let base = e2e_getenv env ''E2E_BASE_URL'' ''http://127.0.0.1:8080''; path = env ''TOS_PATH''
      in \<lparr> cf_addr = e2e_getenv env ''ATRIUM_ADDR'' ''127.0.0.1:8080'',
           cf_oidc = \<lparr> oc_issuer = issuer, oc_client_id = e2e_client_id, oc_client_secret = ''e2e-secret'',
             oc_redirect_uri = base @ callback_path, oc_require_email_verified = True, oc_mfa_acr_values = [] \<rparr>,
           cf_session_key = ''e2e-session-key-0123456789abcdef'', cf_absolute_ttl = 12 * hour, cf_idle_ttl = 0,
           cf_secure_cookies = False,
           cf_tos = (if path \<noteq> [] then \<lparr> tc_enabled = True, tc_path = path, tc_version = env ''TOS_VERSION'' \<rparr> else zero_tos_config),
           cf_provider = \<lparr> pv_type = [], pv_base_url = stub_url, pv_private_key_pem = key,
             pv_max_upload_size = (case parse_int ''ParseInt'' (env ''MAX_UPLOAD_SIZE'') of
                 Inl _ \<Rightarrow> 100 * 2 ^ 20
               | Inr n \<Rightarrow> if 0 < n then n else 100 * 2 ^ 20),
             pv_stream_timeout = 30 * minute \<rparr>,
           cf_audit = \<lparr> lc_pseudonymize = False, lc_salt = [] \<rparr>, cf_log_level = level_info, cf_branding_dir = [],
           cf_brand = \<lparr> bc_name = [], bc_sub = [], bc_accent_color = [], bc_default_theme = [] \<rparr> \<rparr>)"

definition e2e_shell :: "config \<Rightarrow> shell_config" where
  "e2e_shell cfg =
     \<lparr> br_name = [], br_sub = [], br_default_theme = [], br_accent_color = [],
       sc_max_upload_size = pv_max_upload_size (cf_provider cfg), sc_session_idle_ttl = 0 \<rparr>"

text \<open>The root multiplexer: the reset route, and the gateway for everything else.\<close>

definition e2e_routes :: "instant \<Rightarrow> handler \<Rightarrow> (gw_request \<Rightarrow> stub_store \<times> writer \<Rightarrow> stub_store \<times> writer) route list" where
  "e2e_routes now h = [route ''POST /_e2e/seed'' (handle_seed now), route ''/'' (\<lambda>r x. (fst x, h r (snd x)))]"

definition e2e_serve :: "instant \<Rightarrow> handler \<Rightarrow> gw_request \<Rightarrow> stub_store \<times> writer \<Rightarrow> stub_store \<times> writer" where
  "e2e_serve now h r x =
     (mux_store (fst x) (e2e_routes now h) r (snd x), serve_mux (mux_writer (fst x) (e2e_routes now h)) r (snd x))"

record e2e_service =
  es_addr :: string
  es_store :: stub_store
  es_gateway :: "deployment \<Rightarrow> instant \<Rightarrow> handler"

definition e2e_run ::
  "outside \<Rightarrow> environ \<Rightarrow> go_error + mock_oidc \<Rightarrow> instant \<Rightarrow> go_error + string \<Rightarrow> go_error + string \<Rightarrow> writer
   \<Rightarrow> (go_error + e2e_service) \<times> writer" where
  "e2e_run out env mock now stub key w = (case mock of
      Inl e \<Rightarrow> (Inl e, w)
    | Inr idp \<Rightarrow> (case stub of
        Inl e \<Rightarrow> (Inl e, w)
      | Inr stub_url \<Rightarrow> (case key of
          Inl e \<Rightarrow> (Inl e, w)
        | Inr pem \<Rightarrow>
            (let cfg = e2e_config env (mk_issuer idp) stub_url pem
             in case new_oidc_auth (os_discover out) (auth_config_of cfg) w of
                  (Inl e, w1) \<Rightarrow> (Inl e, w1)
                | (Inr a, w1) \<Rightarrow>
                    (case new_nextcloud (os_keys out) (pv_base_url (cf_provider cfg)) (pv_private_key_pem (cf_provider cfg))
                            (pv_stream_timeout (cf_provider cfg)) of
                       Inl e \<Rightarrow> (Inl e, w1)
                     | Inr c \<Rightarrow>
                         (case (if tc_enabled (cf_tos cfg)
                                then map_sum id Some (new_manager (os_read_file out) (tc_path (cf_tos cfg)) (tc_version (cf_tos cfg))
                                       (cf_session_key cfg) (cf_secure_cookies cfg))
                                else Inr None) of
                            Inl e \<Rightarrow> (Inl e, w1)
                          | Inr mo \<Rightarrow>
                              (Inr \<lparr> es_addr = cf_addr cfg, es_store = new_store now,
                                     es_gateway = (\<lambda>dp t. gateway dp a mo (client_service (os_net out) c t)
                                       (gateway_proxy (os_net out) c t (pv_max_upload_size (cf_provider cfg))) [] (e2e_shell cfg) False) \<rparr>,
                               log_plain level_info ''e2e harness listening''
                                 [attr_str ''addr'' (cf_addr cfg), attr_str ''issuer'' (mk_issuer idp),
                                  attr_str ''provider'' stub_url, attr_str ''tos'' (if tc_enabled (cf_tos cfg) then ''true'' else ''false'')] w1)))))))"

definition e2e_main ::
  "outside \<Rightarrow> environ \<Rightarrow> go_error + mock_oidc \<Rightarrow> instant \<Rightarrow> go_error + string \<Rightarrow> go_error + string \<Rightarrow> writer
   \<Rightarrow> (nat + e2e_service) \<times> writer" where
  "e2e_main out env mock now stub key w = (case e2e_run out env mock now stub key w of
      (Inl e, w1) \<Rightarrow> (Inl 1, log_plain level_error ''e2e harness terminated'' [attr_err e] w1)
    | (Inr s, w1) \<Rightarrow> (Inr s, w1))"

subsection \<open>The harness adds one route\<close>

lemma e2e_patterns:
  "pattern_of ''POST /_e2e/seed'' = (Some ''POST'', [SLit ''_e2e'', SLit ''seed''])" "pattern_of ''/'' = (None, [SSub])"
  by code_simp+

lemmas e2e_table = e2e_routes_def [unfolded e2e_patterns [THEN third_route]]

lemma e2e_match:
  "mux_match (e2e_routes now h) meth p =
     (if meth = ''POST'' \<and> mux_segments p = [''_e2e'', ''seed'']
      then Some ((Some ''POST'', [SLit ''_e2e'', SLit ''seed''], handle_seed now), [])
      else Some ((None, [SSub], \<lambda>r x. (fst x, h r (snd x))), []))"
proof -
  have "mux_segments p \<noteq> []" by (simp add: mux_segments_def Let_def)
  then have n: "match_path (of_method None (e2e_routes now h)) (mux_segments p) [] = Some ((None, [SSub], \<lambda>r x. (fst x, h r (snd x))), [])"
    by (simp add: e2e_table of_method_def match_subtree)
  have s: "match_path (of_method (Some meth) (e2e_routes now h)) (mux_segments p) []
      = (if meth = ''POST'' \<and> mux_segments p = [''_e2e'', ''seed''] then Some ((Some ''POST'', [SLit ''_e2e'', SLit ''seed''], handle_seed now), []) else None)"
    for meth by (auto simp: e2e_table of_method_def match_literals [of "[''_e2e'', ''seed'']", simplified] simp del: match_path.simps)
  show ?thesis by (auto simp: mux_match_def n s or_else_def)
qed

lemma e2e_no_slash:
  assumes "has_prefix p ''/''"
  shows "\<not> slash_redirect (e2e_routes now h) meth p"
proof
  assume r: "slash_redirect (e2e_routes now h) meth p"
  then have s: "\<not> has_suffix p ''/''" and x: "exact_match (mux_match (e2e_routes now h) meth (p @ ''/'')) (p @ ''/'')"
    by (auto simp: slash_redirect_def)
  have "mux_segments (p @ ''/'') = mux_segments p @ [''/'']" by (rule mux_segments_slash(1) [OF assms s])
  then have "mux_segments (p @ ''/'') \<noteq> [''_e2e'', ''seed'']" by auto
  moreover have "filter (\<lambda>c. c = CHR ''/'') p \<noteq> []" using assms by (auto simp: has_prefix_iff)
  ultimately show False using x by (simp add: e2e_match exact_match_def)
qed

text \<open>C38: The harness is the gateway with one more route.  For every clean request that is not the reset, the
  reply of the harness is the reply of the gateway it wraps and the dataset is untouched; the reset answers 204
  and leaves the dataset as a fresh one, without asking the gateway.\<close>

theorem harness_is_the_gateway:
  assumes "clean_path (escaped_path (rq_url r)) = escaped_path (rq_url r)" "u_path (rq_url r) \<noteq> ''*''"
  shows "e2e_serve now h r (st, w) =
    (if rq_method r = ''POST'' \<and> mux_segments (escaped_path (rq_url r)) = [''_e2e'', ''seed''] then (seed now st, write_header 204 w)
     else (st, h (r\<lparr> rq_path_values := Map.empty \<rparr>) w))"
proof -
  let ?p = "escaped_path (rq_url r)"
  have "has_prefix ?p ''/''" using clean_path_rooted [of ?p] by (simp add: assms(1))
  note n = e2e_no_slash [OF this, of now h "rq_method r"]
  show ?thesis
  proof (cases "rq_method r = ''POST'' \<and> mux_segments ?p = [''_e2e'', ''seed'']")
    case True
    then have m: "mux_match (e2e_routes now h) (rq_method r) ?p
        = Some ((Some ''POST'', [SLit ''_e2e'', SLit ''seed''], handle_seed now), [])" by (simp add: e2e_match)
    show ?thesis using serve_matched [OF refl assms m n, of st w] True by (simp add: e2e_serve_def handle_seed_def)
  next
    case False
    then have m: "mux_match (e2e_routes now h) (rq_method r) ?p = Some ((None, [SSub], \<lambda>r x. (fst x, h r (snd x))), [])"
      by (auto simp: e2e_match)
    show ?thesis using serve_matched [OF refl assms m n, of st w] False by (auto simp: e2e_serve_def path_values_def)
  qed
qed

lemma harness_is_the_gateway_witness:
  "e2e_serve 0 (\<lambda>r w. write_header 200 w) (gw_get ''/healthz'') (new_store 0, new_writer) = (new_store 0, write_header 200 new_writer)"
proof -
  have e: "escaped_path (empty_url\<lparr> u_path := ''/healthz'' \<rparr>) = ''/healthz''" "clean_path ''/healthz'' = ''/healthz''" by code_simp+
  then have "clean_path (escaped_path (rq_url (gw_get ''/healthz''))) = escaped_path (rq_url (gw_get ''/healthz''))"
    "u_path (rq_url (gw_get ''/healthz'')) \<noteq> ''*''" by simp_all
  from harness_is_the_gateway [OF this, of 0 "\<lambda>r w. write_header 200 w" "new_store 0" new_writer] show ?thesis by simp
qed

end
