(* ===== verification/Auth_Double.thy ===== *)
theory Auth_Double
  imports Mock_Oidc Startup
begin

section \<open>The test double of the identity provider (\<open>internal/authtest\<close>)\<close>

text \<open>
  The in-process provider of the unit tests: it mints one token whose extra claims the test dictates,
  for any code.  \<open>login_session_cookie\<close> is \<open>SessionCookie\<close>, which drives the gateway's own login and
  callback handlers; a failed test is \<open>None\<close>.  The generated key and the address of the
  test server are arguments.
\<close>

record test_provider =
  td_issuer :: string
  td_jwks :: json
  td_next_claims :: "(string \<times> json) list"

definition test_client_id :: string where "test_client_id = ''atrium-core-test''"

definition test_provider_at :: "string \<Rightarrow> json \<Rightarrow> test_provider" where
  "test_provider_at server_url jwks = \<lparr> td_issuer = server_url, td_jwks = jwks, td_next_claims = [] \<rparr>"

text \<open>Key generation, the signer and the JSON of a key set are arguments; the test server always starts.\<close>

definition new_test_provider ::
  "go_error + 'k \<Rightarrow> ('k \<Rightarrow> string \<Rightarrow> string \<Rightarrow> go_error + 's) \<Rightarrow> string \<Rightarrow> ('k \<Rightarrow> string \<Rightarrow> string \<Rightarrow> string \<Rightarrow> json)
   \<Rightarrow> (test_provider \<times> 's) option" where
  "new_test_provider generated mk_signer server_url jwk_set = (case generated of
      Inl e \<Rightarrow> None
    | Inr key \<Rightarrow> (case mk_signer key ''RS256'' ''test-key'' of
        Inl e \<Rightarrow> None
      | Inr signer \<Rightarrow> Some (test_provider_at server_url (jwk_set key ''test-key'' ''RS256'' ''sig''), signer)))"

definition set_id_token_claims :: "(string \<times> json) list \<Rightarrow> test_provider \<Rightarrow> test_provider" where
  "set_id_token_claims claims p = p\<lparr> td_next_claims := claims \<rparr>"

definition double_discovery :: "test_provider \<Rightarrow> 'a request_scheme \<Rightarrow> writer \<Rightarrow> writer" where
  "double_discovery p r w =
     (let iss = td_issuer p; names = (\<lambda>ss. JArr (map jstring ss))
      in stub_write_json (Some (jobject
           [(''authorization_endpoint'', jstring (iss @ ''/auth'')), (''end_session_endpoint'', jstring (iss @ ''/logout'')),
            (''id_token_signing_alg_values_supported'', names [''RS256'']), (''issuer'', jstring iss),
            (''jwks_uri'', jstring (iss @ ''/jwks'')), (''response_types_supported'', names [''code'']),
            (''subject_types_supported'', names [''public'']), (''token_endpoint'', jstring (iss @ ''/token''))])) w)"

definition double_jwks :: "test_provider \<Rightarrow> 'a request_scheme \<Rightarrow> writer \<Rightarrow> writer" where
  "double_jwks p r w = stub_write_json (Some (td_jwks p)) w"

text \<open>A map of claims as an association list; the extra claims override the fixed ones.\<close>

definition put_claim :: "string \<times> json \<Rightarrow> (string \<times> json) list \<Rightarrow> (string \<times> json) list" where
  "put_claim kv cs = filter (\<lambda>p. fst p \<noteq> fst kv) cs @ [kv]"

definition double_claims :: "test_provider \<Rightarrow> instant \<Rightarrow> instant \<Rightarrow> (string \<times> json) list" where
  "double_claims p now1 now2 = fold put_claim (td_next_claims p)
     [(''iss'', jstring (td_issuer p)), (''aud'', jstring test_client_id), (''sub'', jstring ''test-subject''),
      (''exp'', jint (unix_seconds (now1 + hour))), (''iat'', jint (unix_seconds now2))]"

definition double_token ::
  "((string \<times> json) list \<Rightarrow> go_error + string) \<Rightarrow> instant \<Rightarrow> instant \<Rightarrow> test_provider \<Rightarrow> 'a request_scheme \<Rightarrow> writer \<Rightarrow> writer" where
  "double_token sign now1 now2 p r w = (case sign (double_claims p now1 now2) of
      Inl e \<Rightarrow> http_error (error_text e) 500 w
    | Inr t \<Rightarrow> stub_write_json (Some (token_reply ''test-access-token'' t)) w)"

definition double_routes ::
  "((string \<times> json) list \<Rightarrow> go_error + string) \<Rightarrow> instant \<Rightarrow> instant \<Rightarrow> test_provider \<Rightarrow> ('a request_scheme \<Rightarrow> writer \<Rightarrow> writer) route list" where
  "double_routes sign now1 now2 p =
     [route ''GET /.well-known/openid-configuration'' (double_discovery p), route ''GET /jwks'' (double_jwks p),
      route ''POST /token'' (double_token sign now1 now2 p), route ''GET /auth'' (\<lambda>r. write_header 200)]"

subsection \<open>The client under test\<close>

definition double_config :: "test_provider \<Rightarrow> auth_config" where
  "double_config p =
     \<lparr> ac_oidc = \<lparr> oc_issuer = td_issuer p, oc_client_id = test_client_id, oc_client_secret = ''test-secret'',
         oc_redirect_uri = ''http://localhost:8080/auth/callback'', oc_require_email_verified = True, oc_mfa_acr_values = [] \<rparr>,
       ac_session_key = ''0123456789abcdef0123456789abcdef'', ac_absolute_ttl = hour, ac_idle_ttl = 0, ac_secure_cookies = False \<rparr>"

text \<open>The configuration after the mutators, the client, and a log the start-up lines were dropped from.\<close>

definition double_auth ::
  "(string \<Rightarrow> go_error + string) \<Rightarrow> (auth_config \<Rightarrow> auth_config) list \<Rightarrow> test_provider \<Rightarrow> (oidc_auth \<times> audit_logger \<times> log_record list) option" where
  "double_auth discover opts p =
     (case fst (new_oidc_auth discover (fold (\<lambda>f c. f c) opts (double_config p)) new_writer) of
        Inl e \<Rightarrow> None
      | Inr a \<Rightarrow> Some (a, audit_new level_info [] False, []))"

text \<open>The value of the last flow cookie of a name, as the loop over the cookies leaves it.\<close>

definition last_cookie :: "cookie list \<Rightarrow> string \<Rightarrow> string" where
  "last_cookie cs n = fold (\<lambda>c v. if ck_name c = n then ck_value c else v) cs []"

definition login_claims :: "string \<Rightarrow> string \<Rightarrow> (string \<times> json) list" where
  "login_claims email nonce = [(''email'', jstring email), (''email_verified'', JBool True), (''nonce'', jstring nonce)]"

definition double_callback :: "cookie list \<Rightarrow> gw_request" where
  "double_callback flow =
     (let r = gw_get callback_path
      in r\<lparr> rq_url := (rq_url r)\<lparr> u_raw_query := ''code=abc&state='' @ query_escape (last_cookie flow cookie_state) \<rparr>,
            rq_cookies := map (\<lambda>c. (ck_name c, ck_value c)) flow \<rparr>)"

text \<open>\<open>idp p\<close> is what the client sees of the provider in state \<open>p\<close>.\<close>

definition login_session_cookie ::
  "environment \<Rightarrow> (test_provider \<Rightarrow> oidc_provider) \<Rightarrow> go_error + string \<Rightarrow> go_error + string \<Rightarrow> string \<Rightarrow> oidc_auth \<Rightarrow> string
   \<Rightarrow> test_provider \<Rightarrow> cookie option \<times> test_provider" where
  "login_session_cookie env idp rnd1 rnd2 verifier a email p =
     (let flow = cookies_of (login_handler (idp p) a rnd1 rnd2 verifier (gw_get login_path) new_writer);
          p1 = set_id_token_claims (login_claims email (last_cookie flow cookie_nonce)) p;
          v = callback_handler env (idp p1) a (double_callback flow) new_writer
      in (find (\<lambda>c. ck_name c = session_cookie_name) (cookies_of v), p1))"

subsection \<open>The login it drives\<close>

text \<open>
  What a test relies on: for any code the provider hands out a token whose payload is the JSON text of the claims
  \<open>handleToken\<close> merges, in some order, and the verifier reads the nonce from it.
\<close>

definition honest_double :: "(test_provider \<Rightarrow> oidc_provider) \<Rightarrow> (test_provider \<Rightarrow> string) \<Rightarrow> bool" where
  "honest_double idp raw \<longleftrightarrow> (\<forall>q email nonce. td_next_claims q = login_claims email nonce \<and> valid_utf8 nonce \<longrightarrow>
     (\<forall>verifier. op_exchange (idp q) ''abc'' verifier = Inr (Some (raw q)))
     \<and> (\<exists>tok kvs now1 now2. op_verify (idp q) (raw q) = Inr tok \<and> it_payload tok = print_json (jobject kvs)
          \<and> set kvs = set (double_claims q now1 now2) \<and> distinct (map fst kvs) \<and> it_nonce tok = nonce))"

lemma double_claims_login:
  assumes "td_next_claims q = login_claims email nonce"
  shows "double_claims q now1 now2 =
    [(''iss'', jstring (td_issuer q)), (''aud'', jstring test_client_id), (''sub'', jstring ''test-subject''),
     (''exp'', jint (unix_seconds (now1 + hour))), (''iat'', jint (unix_seconds now2)), (''email'', jstring email),
     (''email_verified'', JBool True), (''nonce'', jstring nonce)]"
  by (simp add: double_claims_def assms login_claims_def put_claim_def)

lemma honest_token:
  assumes "honest_double idp raw" "td_next_claims q = login_claims email nonce" "valid_utf8 email" "valid_utf8 nonce"
  obtains tok c where "op_exchange (idp q) ''abc'' verifier = Inr (Some (raw q))" "op_verify (idp q) (raw q) = Inr tok"
    "it_nonce tok = nonce" "token_claims tok = Some c" "cl_email c = email" "cl_email_verified c"
proof -
  obtain tok kvs now1 now2 where t: "op_verify (idp q) (raw q) = Inr tok" "it_payload tok = print_json (jobject kvs)"
      "set kvs = set (double_claims q now1 now2)" "distinct (map fst kvs)"
      "it_nonce tok = nonce" "op_exchange (idp q) ''abc'' verifier = Inr (Some (raw q))"
    using assms(1,2,4) unfolding honest_double_def by blast
  have "list_all valid_utf8 [''iss'', ''aud'', ''sub'', ''exp'', ''iat'']" by code_simp
  then have m: "\<forall>kv \<in> set kvs. identity_member email True nonce kv"
    unfolding t(3) double_claims_login [OF assms(2)] using registered_claims by (simp add: identity_member_def)
  have "(''email'', jstring email) \<in> set kvs" "(''email_verified'', JBool True) \<in> set kvs"
    unfolding t(3) double_claims_login [OF assms(2)] by simp_all
  from identity_claims [OF t(2,4) m assms(3,4) this]
  obtain c where "token_claims tok = Some c" "cl_email c = email" "cl_email_verified c = True" by metis
  with that t show thesis by blast
qed

lemma last_cookie_jar:
  "last_cookie cs n = fold (\<lambda>p v. if fst p = n then snd p else v) (map (\<lambda>c. (ck_name c, ck_value c)) cs) []"
  by (simp add: last_cookie_def fold_map comp_def)

lemma callback_query:
  assumes "r = double_callback flow"
  shows "url_query_get r ''code'' = ''abc''" "url_query_get r ''state'' = last_cookie flow cookie_state" "url_query_get r ''error'' = []"
    "request_cookie r n = map_of (map (\<lambda>c. (ck_name c, ck_value c)) flow) n"
proof -
  let ?v = "last_cookie flow cookie_state"
  have lit: "encode_pair (''code'', ''abc'') = ''code=abc''" "query_escape ''state'' = ''state''" by code_simp+
  then have e: "''code=abc&state='' @ query_escape ?v = join (map encode_pair [(''code'', ''abc''), (''state'', ?v)]) ''&''"
    by (simp add: encode_pair_def)
  have q: "u_raw_query (rq_url r) = ''code=abc&state='' @ query_escape ?v"
    by (simp add: assms double_callback_def Let_def)
  have "query_values (u_raw_query (rq_url r)) = [(''code'', ''abc''), (''state'', ?v)]"
    unfolding q e by (rule query_values_join) simp
  then show "url_query_get r ''code'' = ''abc''" "url_query_get r ''state'' = ?v" "url_query_get r ''error'' = []"
    by (simp_all add: url_query_get_def query_get_def)
  show "request_cookie r n = map_of (map (\<lambda>c. (ck_name c, ck_value c)) flow) n"
    by (simp add: assms double_callback_def Let_def request_cookie_def)
qed

lemma double_auth_parts:
  assumes "double_auth discover [] p = Some (a, lg, log)"
  shows "oa_mfa_acr a = []" "oa_idle_ttl a = 0" "oa_absolute_ttl a = hour"
proof -
  obtain w where "new_oidc_auth discover (double_config p) new_writer = (Inr a, w)"
    using assms by (cases "new_oidc_auth discover (double_config p) new_writer") (auto simp: double_auth_def split: sum.splits)
  note k = new_oidc_auth_keeps [OF this]
  show "oa_mfa_acr a = []" "oa_idle_ttl a = 0" "oa_absolute_ttl a = hour" by (simp_all add: k double_config_def)
qed

text \<open>C37: The login helper of the unit tests signs in through the gateway's own handlers.  With a provider
  that mints what it is told, \<open>SessionCookie\<close> for an email returns the cookie the callback set, and with it
  every request within the hour is admitted as that email; so what the tests then observe is
  the behaviour for a session the real login and callback made.\<close>

theorem double_login_signs_in:
  assumes client: "double_auth discover [] p = Some (a, lg, log)" and honest: "honest_double idp raw"
    and email: "email \<noteq> []" "valid_utf8 email" and bytes: "list_all cookie_value_byte verifier"
    and p1: "p1 = set_id_token_claims (login_claims email (b64_encode RawURLEncoding b2)) p" "valid_utf8 (raw p1)"
    and cookie: "create_session_cookie a (en_zone env) (en_clock env 1) (en_clock env 2) email (raw p1) = Inr ck"
    and later: "request_cookie r session_cookie_name = Some (ck_value ck)" "en_clock env' 0 \<le> en_clock env 1 + hour"
  shows "login_session_cookie env idp (Inr b1) (Inr b2) verifier a email p = (Some ck, p1)
    \<and> (\<exists>d. fst (validate_session_cookie env' a r w) = Inr d \<and> se_email d = email)"
proof
  define lw where "lw = login_handler (idp p) a (Inr b1) (Inr b2) verifier (gw_get login_path) new_writer"
  let ?flow = "cookies_of lw"
  have "query_get [] ''next'' = []" by code_simp
  then have nx: "[] = safe_next_path (url_query_get (gw_get login_path) ''next'')"
    by (simp add: url_query_get_def empty_url_def safe_next_path_def)
  note jar = login_jar [OF lw_def bytes nx]
  have last: "last_cookie ?flow cookie_state = b64_encode RawURLEncoding b1" "last_cookie ?flow cookie_nonce = b64_encode RawURLEncoding b2"
    unfolding last_cookie_jar jar by (simp_all add: flow_cookie_defs)
  note part = double_auth_parts [OF client]
  have n: "td_next_claims p1 = login_claims email (b64_encode RawURLEncoding b2)" by (simp add: p1 set_id_token_claims_def)
  obtain tok c where ex: "op_exchange (idp p1) ''abc'' verifier = Inr (Some (raw p1))"
    and tok: "op_verify (idp p1) (raw p1) = Inr tok" "it_nonce tok = b64_encode RawURLEncoding b2" "token_claims tok = Some c"
      "cl_email c = email" "cl_email_verified c"
    by (rule honest_token [OF honest n email(2) valid_b64])
  have nr: "claims_refusal env a c = None" by (simp add: claims_refusal_None tok email part)
  let ?r = "double_callback ?flow"
  note q = callback_query [OF refl, of ?flow]
  have s: "signs_in env (idp p1) a ?r (raw p1) c"
    by (rule login_signs_in(1) [OF lw_def _ _ _ _ tok(1-3) nr bytes nx]) (simp_all add: q last ex)
  have "cookies_of (callback_handler env (idp p1) a ?r new_writer) = map (cleared_flow_cookie a) flow_cookie_names @ [ck]"
    by (rule accepted_reply(2) [OF s]) (simp only: tok(4) cookie)
  moreover have "ck_name ck = session_cookie_name"
    using cookie by (auto simp: create_session_cookie_def session_cookie_def bindr_eq_Inr)
  moreover have "find (\<lambda>c. ck_name c = session_cookie_name) (map (cleared_flow_cookie a) flow_cookie_names @ [ck]) = Some ck"
    using calculation(2) by (simp add: flow_cookie_names_def flow_cookie_defs cleared_flow_cookie_def session_cookie_name_def)
  ultimately show "login_session_cookie env idp (Inr b1) (Inr b2) verifier a email p = (Some ck, p1)"
    by (simp add: login_session_cookie_def Let_def flip: lw_def) (simp add: last p1(1))
  show "\<exists>d. fst (validate_session_cookie env' a r w) = Inr d \<and> se_email d = email"
    by (rule new_cookie_admitted [OF cookie email(2) p1(2) part(2) later(1)]) (use later(2) part(3) in simp)
qed

subsection \<open>Examples\<close>

text \<open>A provider that mints the merged claims, and a test that signs \<open>ada\<close> in.\<close>

definition sample_double :: test_provider where
  "sample_double = test_provider_at ''http://127.0.0.1:9001'' JNull"

definition double_idp :: "test_provider \<Rightarrow> oidc_provider" where
  "double_idp q =
     \<lparr> op_auth_code_url = (\<lambda>a s os. ''http://127.0.0.1:9001/auth?state='' @ s), op_exchange = (\<lambda>_ _. Inr (Some ''idt'')),
       op_verify = (\<lambda>_. Inr \<lparr> it_nonce = (case map_of (td_next_claims q) ''nonce'' of
           Some (JStr s) \<Rightarrow> (case unquote s of Some x \<Rightarrow> x | None \<Rightarrow> []) | _ \<Rightarrow> []),
         it_payload = print_json (jobject (double_claims q 0 0)) \<rparr>) \<rparr>"

lemma double_idp_honest: "honest_double double_idp (\<lambda>_. ''idt'')"
  unfolding honest_double_def
proof (intro allI impI conjI)
  fix q :: test_provider and email nonce verifier assume q: "td_next_claims q = login_claims email nonce \<and> valid_utf8 nonce"
  show "op_exchange (double_idp q) ''abc'' verifier = Inr (Some ''idt'')" by (simp add: double_idp_def)
  have "map_of (td_next_claims q) ''nonce'' = Some (jstring nonce)" using q by (simp add: login_claims_def)
  moreover have "distinct (map fst (double_claims q 0 0))" using q by (simp add: double_claims_login)
  ultimately show "\<exists>tok kvs now1 now2. op_verify (double_idp q) ''idt'' = Inr tok \<and> it_payload tok = print_json (jobject kvs)
      \<and> set kvs = set (double_claims q now1 now2) \<and> distinct (map fst kvs) \<and> it_nonce tok = nonce"
    using q by (intro exI [of _ "double_claims q 0 0"] exI [of _ "0 :: int"] exI conjI refl)
      (auto simp: double_idp_def jstring_def unquote_json_escape)
qed

lemma sample_double_auth:
  obtains a lg log where "double_auth (\<lambda>_. Inr ''{}'') [] sample_double = Some (a, lg, log)"
proof -
  have "unmarshal discovery_fields ''{}'' [] = Some []" by code_simp
  moreover have "case post_logout_redirect_uri ''http://localhost:8080/auth/callback'' of Inl _ \<Rightarrow> False | Inr _ \<Rightarrow> True" by code_simp
  ultimately have "\<exists>a. fst (new_oidc_auth (\<lambda>_. Inr ''{}'') (double_config sample_double) new_writer) = Inr a"
    by (auto simp: new_oidc_auth_def double_config_def Let_def split: sum.splits)
  with that show thesis by (auto simp: double_auth_def)
qed

lemma double_login_signs_in_witness:
  "\<exists>a lg log ck q d. double_auth (\<lambda>_. Inr ''{}'') [] sample_double = Some (a, lg, log)
     \<and> login_session_cookie sample_env double_idp (Inr ''s'') (Inr ''n'') ''verifier'' a ''ada@example.org'' sample_double = (Some ck, q)
     \<and> fst (validate_session_cookie sample_env a ((gw_get ''/'')\<lparr> rq_cookies := [(session_cookie_name, ck_value ck)] \<rparr>) new_writer) = Inr d
     \<and> se_email d = ''ada@example.org''"
proof -
  obtain a lg log where a: "double_auth (\<lambda>_. Inr ''{}'') [] sample_double = Some (a, lg, log)" by (rule sample_double_auth)
  have u: "''ada@example.org'' \<noteq> []" "valid_utf8 ''ada@example.org''" "list_all cookie_value_byte ''verifier''" "valid_utf8 ''idt''"
    by code_simp+
  have y: "fst (civil_from_days ((1700000000 * second + 0 * minute) div second div 86400)) = 2023"
    "fst (civil_from_days ((1700000000 * second + hour + 0 * minute) div second div 86400)) = 2023" by code_simp+
  have "\<exists>s. marshal_time 0 (1700000000 * second) = Some s" "\<exists>s. marshal_time 0 (1700000000 * second + hour) = Some s"
    using marshal_time_SomeI [of "1700000000 * second" 0] marshal_time_SomeI [of "1700000000 * second + hour" 0] y by simp_all
  then have "\<exists>j. marshal_session (en_zone sample_env) (new_session a (en_clock sample_env 1) ''ada@example.org'' ''idt'') = Some j"
    using double_auth_parts [OF a]
    by (auto simp: marshal_session_def session_json_def new_session_def sample_env_def json_time_def)
  then obtain ck where ck: "create_session_cookie a (en_zone sample_env) (en_clock sample_env 1) (en_clock sample_env 2) ''ada@example.org'' ''idt'' = Inr ck"
    by (auto simp: create_session_cookie_def session_cookie_def sign_and_encode_def)
  let ?r = "(gw_get ''/'')\<lparr> rq_cookies := [(session_cookie_name, ck_value ck)] \<rparr>"
  have r: "request_cookie ?r session_cookie_name = Some (ck_value ck)" by (simp add: request_cookie_def)
  have t: "en_clock sample_env 0 \<le> en_clock sample_env 1 + hour" by (simp add: sample_env_def hour_def minute_def second_def)
  from double_login_signs_in [OF a double_idp_honest u(1,2,3) refl u(4) ck r t] a show ?thesis by blast
qed

end
