(* ===== verification/Mock_Sign_In.thy ===== *)
theory Mock_Sign_In
  imports E2e_Harness
begin

section \<open>Signing in at the mock provider\<close>

text \<open>
  The gateway's login and callback handlers and the mock identity provider joined by a browser: it
  follows the redirect to the provider's page, submits the form with the hidden fields of that page, and follows
  the redirect to the callback with the cookies the login set.  The OAuth client between callback and provider is
  outside the repository; what it does with a reply of the token endpoint is the hypothesis \<open>honest_client\<close>.
\<close>

subsection \<open>Absolute redirects\<close>

definition absolute_url :: "string \<Rightarrow> bool" where
  "absolute_url s \<longleftrightarrow> has_prefix s ''http://'' \<and> (\<forall>c \<in> set s. byte c < 128 \<and> c \<noteq> CHR ''#'')"

definition query_part :: "string \<Rightarrow> string" where
  "query_part s = (case cut s ''?'' of (_, q, _) \<Rightarrow> q)"

text \<open>A browser that follows the redirect of a reply asks for the query of the location.\<close>

definition follows :: "gw_request \<Rightarrow> writer \<Rightarrow> bool" where
  "follows r v \<longleftrightarrow> u_raw_query (rq_url r) = (case header_of v ''Location'' of None \<Rightarrow> [] | Some loc \<Rightarrow> query_part loc)"

lemma http_cut:
  "cut (''http://'' @ x) ''#'' = (a, f, b) \<Longrightarrow> \<exists>y. a = ''http://'' @ y \<and> set y \<subseteq> set x"
  by (intro exI [of _ "takeWhile (\<lambda>c. c \<noteq> CHR ''#'') x"]) (auto simp: cut_single dest: set_takeWhileD)

lemma http_scheme: "get_scheme (''http://'' @ x) = Some (''http'', ''//'' @ x)"
  by (simp add: get_scheme_def scheme_char_def is_alnum_def is_lower_def is_upper_def is_digit_def byte_in_def)

lemma authority_keeps:
  "parse_absolute_or_path u rest = Some v \<Longrightarrow> u_scheme v = u_scheme u \<and> u_raw_query v = u_raw_query u"
  by (auto simp: parse_absolute_or_path_def set_path_def Let_def split: if_splits option.splits)

lemma http_parsed:
  assumes "url_parse s = Some u" "has_prefix s ''http://''"
  shows "u_scheme u = ''http''" "CHR ''?'' \<notin> set s \<Longrightarrow> u_raw_query u = []"
proof -
  obtain x where x: "s = ''http://'' @ x" using assms(2) by (auto simp: has_prefix_iff)
  obtain a f b where c: "cut s ''#'' = (a, f, b)" by (metis surj_pair)
  obtain y where y: "a = ''http://'' @ y" "set y \<subseteq> set x" using http_cut c unfolding x by blast
  obtain v where v: "parse_no_fragment a = Some v" "u_scheme u = u_scheme v" "u_raw_query u = u_raw_query v"
    using assms(1) by (auto simp: url_parse_def c split: option.splits if_splits)
  obtain rest q fq where q: "split_query (''//'' @ y) = (rest, q, fq)" by (metis surj_pair)
  have p: "parse_no_fragment a = (let u = empty_url\<lparr> u_scheme := map ascii_lower ''http'', u_raw_query := q, u_force_query := fq \<rparr>
        in if \<not> has_prefix rest ''/'' then Some (u\<lparr> u_opaque := rest \<rparr>) else parse_absolute_or_path u rest) \<or> parse_no_fragment a = None"
    using http_scheme [of y] q by (simp add: y(1) parse_no_fragment_def Let_def)
  have l: "map ascii_lower ''http'' = ''http''" by code_simp
  then have uv: "u_scheme v = ''http''" "u_raw_query v = q"
    using p v(1) authority_keeps by (auto simp: Let_def split: if_splits dest!: authority_keeps)
  then show "u_scheme u = ''http''" using v(2) by simp
  show "u_raw_query u = []" if "CHR ''?'' \<notin> set s"
  proof -
    have "CHR ''?'' \<notin> set (''//'' @ y)" using that y(2) by (auto simp: x)
    then have "q = []" using q by (auto simp: split_query_def cut_single_absent has_suffix_iff Let_def split: if_splits)
    with uv(2) v(3) show ?thesis by simp
  qed
qed

lemma redirect_absolute: "has_prefix t ''http://'' \<Longrightarrow> redirect_target r t = t"
  by (auto simp: redirect_target_def split: option.split dest: http_parsed(1))

lemma follows_redirect:
  assumes "absolute_url t" "w_committed w = None" "follows r (http_redirect r0 t n w)"
  shows "u_raw_query (rq_url r) = query_part t"
  using assms by (simp add: follows_def http_redirect_reply absolute_url_def redirect_absolute hex_escape_ascii)

lemma query_part_append: "CHR ''?'' \<notin> set a \<Longrightarrow> query_part (a @ CHR ''?'' # q) = q"
  by (simp add: query_part_def cut_single_append)

subsection \<open>The form\<close>

definition form_post :: "string \<Rightarrow> (string \<times> string) list \<Rightarrow> gw_request" where
  "form_post p fs = (gw_get p)\<lparr> rq_method := ''POST'', rq_headers := [''Content-Type'' \<mapsto> ''application/x-www-form-urlencoded''],
     rq_body := join (map encode_pair fs) ''&'' \<rparr>"

text \<open>What the browser submits: what the user typed and ticked, and the hidden fields as \<open>login_form\<close> wrote them.\<close>

definition sign_in_fields :: "string \<Rightarrow> bool \<Rightarrow> gw_request \<Rightarrow> (string \<times> string) list" where
  "sign_in_fields email ticked page =
     (''email'', email) # (if ticked then [(''verified'', ''on'')] else []) @ map (\<lambda>n. (n, url_query_get page n)) [''state'', ''nonce'', ''redirect_uri'']"

lemma query_ok_join: "fs \<noteq> [] \<Longrightarrow> query_ok (join (map encode_pair fs) ''&'')"
proof -
  assume "fs \<noteq> []"
  then have "split_on (CHR ''&'') (join (map encode_pair fs) ''&'') = map encode_pair fs"
    using encode_pair_no_amp by (intro split_join_absent) auto
  then show ?thesis by (simp add: query_ok_def parse_encode_pair list_all_iff)
qed

abbreviation form_type :: string where "form_type \<equiv> ''application/x-www-form-urlencoded''"

lemma parse_form_post:
  assumes "mt form_type = Some form_type" "fs \<noteq> []" "int (length (rq_body (form_post p fs))) \<le> max_form_size"
  shows "parse_form mt (form_post p fs) = Some fs"
proof -
  have "query_ok []" "query_values [] = []" by code_simp+
  with assms show ?thesis
    by (simp add: parse_form_def form_post_def header_get_def empty_url_def query_ok_join query_values_join)
qed

lemma form_value_fields:
  "form_value (sign_in_fields email ticked page) ''email'' = email"
  "form_value (sign_in_fields email ticked page) ''verified'' = (if ticked then ''on'' else [])"
  "form_value (sign_in_fields email ticked page) ''state'' = url_query_get page ''state''"
  "form_value (sign_in_fields email ticked page) ''nonce'' = url_query_get page ''nonce''"
  "form_value (sign_in_fields email ticked page) ''redirect_uri'' = url_query_get page ''redirect_uri''"
  by (simp_all add: form_value_def sign_in_fields_def)

text \<open>What the provider makes of it: a code for the identity, and a redirect that returns code and state.\<close>

lemma submitted:
  assumes "parse_form mt r0 = Some f" "form_value f ''redirect_uri'' = uri" "absolute_url uri" "CHR ''?'' \<notin> set uri"
    and "mock_auth_submit mt bs r0 (q, new_writer) = (q1, v)" "follows r v"
  shows "mk_codes q1 (random_hex bs) = Some \<lparr> cd_email = form_value f ''email'', cd_verified = (form_value f ''verified'' \<noteq> []),
      cd_nonce = form_value f ''nonce'' \<rparr>"
    and "url_query_get r ''code'' = random_hex bs" "url_query_get r ''state'' = form_value f ''state''" "url_query_get r ''error'' = []"
proof -
  let ?q = "join (map encode_pair [(''code'', random_hex bs), (''state'', form_value f ''state'')]) ''&''"
  have lit: "query_escape ''code'' = ''code''" "query_escape ''state'' = ''state''" by code_simp+
  have sep: "(case url_parse uri of None \<Rightarrow> ''?'' | Some u \<Rightarrow> if u_raw_query u \<noteq> [] then ''&'' else ''?'') = ''?''"
    using http_parsed(2) [of uri] assms(3,4) by (auto simp: absolute_url_def split: option.split)
  have v: "v = http_redirect r0 (uri @ ''?'' @ ?q) 302 new_writer"
    and codes: "mk_codes q1 (random_hex bs) = Some \<lparr> cd_email = form_value f ''email'', cd_verified = (form_value f ''verified'' \<noteq> []),
      cd_nonce = form_value f ''nonce'' \<rparr>"
    using assms(5) unfolding mock_auth_submit_def assms(1) option.case Let_def assms(2) sep
    by (auto simp: encode_pair_def lit)
  from codes show "mk_codes q1 (random_hex bs) = Some \<lparr> cd_email = form_value f ''email'', cd_verified = (form_value f ''verified'' \<noteq> []),
      cd_nonce = form_value f ''nonce'' \<rparr>" .
  have "absolute_url (uri @ ''?'' @ ?q)"
    using assms(3) query_escape_ascii query_escape_no_delims by (auto simp: absolute_url_def has_prefix_iff encode_pair_def byte_in_def query_delims_def)
  from follows_redirect [OF this _ assms(6) [unfolded v]] query_part_append [OF assms(4)]
  have "u_raw_query (rq_url r) = ?q" by (simp add: writer_simps)
  moreover have "query_values ?q = [(''code'', random_hex bs), (''state'', form_value f ''state'')]"
    by (rule query_values_join) simp
  ultimately show "url_query_get r ''code'' = random_hex bs" "url_query_get r ''state'' = form_value f ''state''" "url_query_get r ''error'' = []"
    by (simp_all add: url_query_get_def query_get_def)
qed

subsection \<open>The OAuth client\<close>

text \<open>
  What the gateway relies on in its OAuth client and verifier, \<open>idp q\<close>, when the provider is in state \<open>q\<close> and its
  clock reads \<open>now\<close>.  The address of the login page carries state, nonce and redirect URI.  A code is
  exchanged by a form that has it at the token endpoint: the identity token of a reply with status 200 is
  handed out, and any other status is an error.  A token the provider signed verifies, its payload is the JSON text of the
  signed claims, in some order, and the verifier reads the nonce from it.
\<close>

definition honest_client ::
  "(string \<Rightarrow> string option) \<Rightarrow> ((string \<times> json) list \<Rightarrow> go_error + string) \<Rightarrow> instant \<Rightarrow> (mock_oidc \<Rightarrow> oidc_provider) \<Rightarrow> bool" where
  "honest_client mt sign now idp \<longleftrightarrow>
     (\<forall>q a state nonce verifier. let page = op_auth_code_url (idp q) a state [ONonce nonce, OChallenge verifier]
        in absolute_url page \<and> query_get (query_part page) ''state'' = state \<and> query_get (query_part page) ''nonce'' = nonce
           \<and> query_get (query_part page) ''redirect_uri'' = oa_redirect_url a)
   \<and> (\<forall>q code verifier. length code = 32 \<longrightarrow> (\<exists>(r :: gw_request) f. parse_form mt r = Some f \<and> form_value f ''code'' = code
        \<and> (let v = snd (mock_token mt sign now r (q, new_writer))
           in if status_of v = 200
              then \<forall>acc t. valid_utf8 t \<and> parse_json (w_body v) = Some (token_reply acc t) \<longrightarrow> op_exchange (idp q) code verifier = Inr (Some t)
              else \<exists>e. op_exchange (idp q) code verifier = Inl e)))
   \<and> (\<forall>kvs t. sign kvs = Inr t \<longrightarrow> valid_utf8 t)
   \<and> (\<forall>q d t. sign (mock_token_claims q now d) = Inr t \<and> valid_utf8 (cd_email d) \<and> valid_utf8 (cd_nonce d) \<longrightarrow>
        (\<exists>tok kvs. op_verify (idp q) t = Inr tok \<and> it_payload tok = print_json (jobject kvs) \<and> distinct (map fst kvs)
           \<and> set kvs = set (mock_token_claims q now d) \<and> it_nonce tok = cd_nonce d))"

lemma honest_client_parts:
  assumes "honest_client mt sign now idp"
  shows "absolute_url (op_auth_code_url (idp q) a state [ONonce nonce, OChallenge verifier])"
    and "query_get (query_part (op_auth_code_url (idp q) a state [ONonce nonce, OChallenge verifier])) ''state'' = state"
    and "query_get (query_part (op_auth_code_url (idp q) a state [ONonce nonce, OChallenge verifier])) ''nonce'' = nonce"
    and "query_get (query_part (op_auth_code_url (idp q) a state [ONonce nonce, OChallenge verifier])) ''redirect_uri'' = oa_redirect_url a"
    and "sign kvs = Inr t \<Longrightarrow> valid_utf8 t"
  using assms by (simp_all add: honest_client_def Let_def)

lemma token_written:
  assumes "valid_utf8 t"
  shows "parse_json (w_body (stub_write_json (Some (token_reply ''e2e-access-token'' t)) new_writer)) = Some (token_reply ''e2e-access-token'' t)"
    and "status_of (stub_write_json (Some (token_reply ''e2e-access-token'' t)) new_writer) = 200"
proof -
  have "list_all valid_utf8 [''access_token'', ''expires_in'', ''id_token'', ''token_type'', ''e2e-access-token'', ''Bearer'']" by code_simp
  then have g: "good_json (token_reply ''e2e-access-token'' t)" "json_depth (token_reply ''e2e-access-token'' t) \<le> max_nesting"
    using assms depth_jobject_flat [of "[(''access_token'', jstring ''e2e-access-token''), (''expires_in'', jint 3600),
      (''id_token'', jstring t), (''token_type'', jstring ''Bearer'')]"]
    by (simp_all add: token_reply_def string_literal_json_escape max_nesting_def)
  have nl: "lex newline = Some []" "\<not> number_byte (hd newline)" by code_simp+
  show "parse_json (w_body (stub_write_json (Some (token_reply ''e2e-access-token'' t)) new_writer)) = Some (token_reply ''e2e-access-token'' t)"
    using parse_print_json_then [OF g nl(1)] nl(2) by (simp add: stub_write_json_def encode_json_def writer_simps)
  show "status_of (stub_write_json (Some (token_reply ''e2e-access-token'' t)) new_writer) = 200"
    by (simp add: stub_write_json_def encode_json_def write_body_reply status_of_def finish_def writer_simps)
qed

lemma mock_claims_members: "\<forall>kv \<in> set (mock_token_claims q now d). identity_member (cd_email d) (cd_verified d) (cd_nonce d) kv"
proof -
  have "list_all valid_utf8 [''iss'', ''aud'', ''sub'', ''exp'', ''iat'']" by code_simp
  then show ?thesis unfolding mock_token_claims_def using registered_claims by (simp add: identity_member_def)
qed

lemma client_exchange:
  assumes "honest_client mt sign now idp" "length code = 32"
  shows "mk_codes q code = None \<Longrightarrow> \<exists>e. op_exchange (idp q) code verifier = Inl e"
    and "mk_codes q code = Some d \<Longrightarrow> sign (mock_token_claims q now d) = Inl e \<Longrightarrow> \<exists>e. op_exchange (idp q) code verifier = Inl e"
    and "mk_codes q code = Some d \<Longrightarrow> sign (mock_token_claims q now d) = Inr t \<Longrightarrow> op_exchange (idp q) code verifier = Inr (Some t)"
proof -
  obtain r :: gw_request and f where r: "parse_form mt r = Some f" "form_value f ''code'' = code"
    and x: "let v = snd (mock_token mt sign now r (q, new_writer))
           in if status_of v = 200
              then \<forall>acc t. valid_utf8 t \<and> parse_json (w_body v) = Some (token_reply acc t) \<longrightarrow> op_exchange (idp q) code verifier = Inr (Some t)
              else \<exists>e. op_exchange (idp q) code verifier = Inl e"
    using assms unfolding honest_client_def by blast
  have same: "mock_token_claims (q\<lparr> mk_codes := c \<rparr>) now d = mock_token_claims q now d" for c d
    by (simp add: mock_token_claims_def)
  show "\<exists>e. op_exchange (idp q) code verifier = Inl e" if "mk_codes q code = None"
    using x that r by (simp add: mock_token_def Let_def http_error_status writer_simps)
  show "\<exists>e. op_exchange (idp q) code verifier = Inl e" if "mk_codes q code = Some d" "sign (mock_token_claims q now d) = Inl e"
    using x that r by (simp add: mock_token_def Let_def http_error_status writer_simps same)
  show "op_exchange (idp q) code verifier = Inr (Some t)" if "mk_codes q code = Some d" "sign (mock_token_claims q now d) = Inr t"
  proof -
    let ?v = "snd (mock_token mt sign now r (q, new_writer))"
    have v: "?v = stub_write_json (Some (token_reply ''e2e-access-token'' t)) new_writer"
      using that r by (simp add: mock_token_def Let_def same)
    have u: "valid_utf8 t" using honest_client_parts(5) [OF assms(1)] that(2) by blast
    have "parse_json (w_body ?v) = Some (token_reply ''e2e-access-token'' t)" "status_of ?v = 200"
      unfolding v by (rule token_written [OF u])+
    then show ?thesis using x u by (simp add: Let_def)
  qed
qed

text \<open>The claims of an exchanged token are the identity the code stands for.\<close>

lemma client_claims:
  assumes "honest_client mt sign now idp" "sign (mock_token_claims q now d) = Inr t" "valid_utf8 (cd_email d)" "valid_utf8 (cd_nonce d)"
  obtains tok c where "op_verify (idp q) t = Inr tok" "it_nonce tok = cd_nonce d" "token_claims tok = Some c"
    "cl_email c = cd_email d" "cl_email_verified c = cd_verified d"
proof -
  obtain tok kvs where t: "op_verify (idp q) t = Inr tok" "it_payload tok = print_json (jobject kvs)" "distinct (map fst kvs)"
      "set kvs = set (mock_token_claims q now d)" "it_nonce tok = cd_nonce d"
    using assms unfolding honest_client_def by metis
  have m: "\<forall>kv \<in> set kvs. identity_member (cd_email d) (cd_verified d) (cd_nonce d) kv" unfolding t(4) by (rule mock_claims_members)
  have "(''email'', jstring (cd_email d)) \<in> set kvs" "(''email_verified'', JBool (cd_verified d)) \<in> set kvs"
    unfolding t(4) mock_token_claims_def by simp_all
  from identity_claims [OF t(2,3) m assms(3,4) this]
  obtain c where "token_claims tok = Some c" "cl_email c = cd_email d" "cl_email_verified c = cd_verified d" by metis
  with that t show thesis by blast
qed

text \<open>The harness's own client.\<close>

abbreviation e2e_origin :: "environ \<Rightarrow> string" where
  "e2e_origin env \<equiv> e2e_getenv env ''E2E_BASE_URL'' ''http://127.0.0.1:8080''"

lemma e2e_auth_parts:
  assumes "new_oidc_auth disc (auth_config_of (e2e_config env issuer stub key)) w0 = (Inr a, w1)"
  shows "oa_redirect_url a = e2e_origin env @ callback_path" "oa_require_email_verified a" "oa_mfa_acr a = []" "oa_idle_ttl a = 0"
    "oa_absolute_ttl a = 12 * hour"
  using new_oidc_auth_keeps [OF assms] by (simp_all add: auth_config_of_def e2e_config_def Let_def)

text \<open>
  A sign-in up to the callback: the login, the provider's page, the submitted form, and the callback request.
\<close>

definition browser_signs_in ::
  "(string \<Rightarrow> string option) \<Rightarrow> string \<Rightarrow> oidc_provider \<Rightarrow> oidc_auth \<Rightarrow> string \<Rightarrow> string \<Rightarrow> string \<Rightarrow> gw_request \<Rightarrow> string \<Rightarrow> bool
   \<Rightarrow> mock_oidc \<Rightarrow> mock_oidc \<Rightarrow> gw_request \<Rightarrow> bool" where
  "browser_signs_in mt bs p a b1 b2 verifier lr email ticked q q1 r \<longleftrightarrow>
     (\<exists>page v. follows page (login_handler p a (Inr b1) (Inr b2) verifier lr new_writer)
        \<and> int (length (rq_body (form_post ''/auth'' (sign_in_fields email ticked page)))) \<le> max_form_size
        \<and> mock_auth_submit mt bs (form_post ''/auth'' (sign_in_fields email ticked page)) (q, new_writer) = (q1, v)
        \<and> follows r v
        \<and> (\<forall>n \<in> set flow_cookie_names. request_cookie r n
              = map_of (map (\<lambda>c. (ck_name c, ck_value c)) (cookies_of (login_handler p a (Inr b1) (Inr b2) verifier lr new_writer))) n))"

lemma login_redirects:
  assumes "oa_idle_ttl a = 0"
  shows "\<exists>w. w_committed w = None \<and> login_handler p a (Inr b1) (Inr b2) verifier lr new_writer
    = http_redirect lr (op_auth_code_url p a (b64_encode RawURLEncoding b1) [ONonce (b64_encode RawURLEncoding b2), OChallenge verifier]) 302 w"
proof -
  let ?w3 = "set_flow_cookie a cookie_pkce verifier (set_flow_cookie a cookie_nonce (b64_encode RawURLEncoding b2)
      (set_flow_cookie a cookie_state (b64_encode RawURLEncoding b1) new_writer))"
  let ?w = "if safe_next_path (url_query_get lr ''next'') \<noteq> []
     then set_flow_cookie a cookie_next_path (safe_next_path (url_query_get lr ''next'')) ?w3 else ?w3"
  have "w_committed ?w = None" by (simp add: set_flow_cookie_def writer_simps)
  moreover have "login_handler p a (Inr b1) (Inr b2) verifier lr new_writer
    = http_redirect lr (op_auth_code_url p a (b64_encode RawURLEncoding b1) [ONonce (b64_encode RawURLEncoding b2), OChallenge verifier]) 302 ?w"
    using assms by (simp add: login_handler_def random_token_def Let_def)
  ultimately show ?thesis by blast
qed

lemma e2e_callback_url:
  assumes "absolute_url (e2e_origin env)" "CHR ''?'' \<notin> set (e2e_origin env)"
  shows "absolute_url (e2e_origin env @ callback_path)" "CHR ''?'' \<notin> set (e2e_origin env @ callback_path)"
proof -
  have c: "\<forall>c \<in> set callback_path. byte c < 128 \<and> c \<noteq> CHR ''#''" "CHR ''?'' \<notin> set callback_path" by code_simp+
  then show "CHR ''?'' \<notin> set (e2e_origin env @ callback_path)" using assms(2) unfolding set_append by blast
  have "has_prefix (e2e_origin env) ''http://''" using assms(1) unfolding absolute_url_def by blast
  then have "has_prefix (e2e_origin env @ callback_path) ''http://''" unfolding has_prefix_iff by (metis append.assoc)
  then show "absolute_url (e2e_origin env @ callback_path)"
    using assms(1) c(1) unfolding absolute_url_def set_append by blast
qed

lemma login_page:
  assumes client: "new_oidc_auth disc (auth_config_of (e2e_config env0 issuer stub key)) w0 = (Inr a, w1)"
    and honest: "honest_client mt sign now idp"
    and page: "follows page (login_handler (idp q) a (Inr b1) (Inr b2) verifier lr new_writer)"
  shows "url_query_get page ''state'' = b64_encode RawURLEncoding b1" "url_query_get page ''nonce'' = b64_encode RawURLEncoding b2"
    "url_query_get page ''redirect_uri'' = e2e_origin env0 @ callback_path"
proof -
  note part = e2e_auth_parts [OF client]
  let ?lw = "login_handler (idp q) a (Inr b1) (Inr b2) verifier lr new_writer"
  let ?url = "op_auth_code_url (idp q) a (b64_encode RawURLEncoding b1) [ONonce (b64_encode RawURLEncoding b2), OChallenge verifier]"
  obtain w where lw: "?lw = http_redirect lr ?url 302 w" "w_committed w = None"
    using login_redirects [OF part(4)] by blast
  show "url_query_get page ''state'' = b64_encode RawURLEncoding b1" "url_query_get page ''nonce'' = b64_encode RawURLEncoding b2"
    "url_query_get page ''redirect_uri'' = e2e_origin env0 @ callback_path"
    unfolding url_query_get_def follows_redirect [OF honest_client_parts(1) [OF honest] lw(2) page [unfolded lw(1)]]
    by (simp_all only: honest_client_parts(2-4) [OF honest] part(1))
qed

lemma browser_signed_in:
  assumes client: "new_oidc_auth disc (auth_config_of (e2e_config env0 issuer stub key)) w0 = (Inr a, w1)"
    and origin: "absolute_url (e2e_origin env0)" "CHR ''?'' \<notin> set (e2e_origin env0)"
    and honest: "honest_client mt sign now idp" and mt: "mt form_type = Some form_type"
    and b: "browser_signs_in mt bs (idp q) a b1 b2 verifier lr email ticked q q1 r"
  shows "mk_codes q1 (random_hex bs) = Some \<lparr> cd_email = email, cd_verified = ticked, cd_nonce = b64_encode RawURLEncoding b2 \<rparr>"
    and "url_query_get r ''code'' = random_hex bs" "url_query_get r ''state'' = b64_encode RawURLEncoding b1" "url_query_get r ''error'' = []"
proof -
  let ?lw = "login_handler (idp q) a (Inr b1) (Inr b2) verifier lr new_writer"
  obtain page v where page: "follows page ?lw"
    and len: "int (length (rq_body (form_post ''/auth'' (sign_in_fields email ticked page)))) \<le> max_form_size"
    and s: "mock_auth_submit mt bs (form_post ''/auth'' (sign_in_fields email ticked page)) (q, new_writer) = (q1, v)" "follows r v"
    using b unfolding browser_signs_in_def by blast
  note part = e2e_auth_parts [OF client]
  note h = login_page [OF client honest page]
  note uri = e2e_callback_url [OF origin]
  have f: "parse_form mt (form_post ''/auth'' (sign_in_fields email ticked page)) = Some (sign_in_fields email ticked page)"
    using mt len by (intro parse_form_post) (auto simp: sign_in_fields_def)
  from submitted [OF f form_value_fields(5) [of email ticked page, unfolded h(3)] uri s]
  show "mk_codes q1 (random_hex bs) = Some \<lparr> cd_email = email, cd_verified = ticked, cd_nonce = b64_encode RawURLEncoding b2 \<rparr>"
    "url_query_get r ''code'' = random_hex bs" "url_query_get r ''state'' = b64_encode RawURLEncoding b1" "url_query_get r ''error'' = []"
    by (simp_all add: form_value_fields h)
qed

subsection \<open>Properties\<close>

text \<open>C15: Whoever signs in at the mock provider is signed in to the gateway as exactly that identity.  A browser
  that follows the login to the provider's page, types an email, ticks whether it is verified and
  follows the redirect to the callback gets a session for that email, which every request within the twelve
  hours is then admitted with, when the email is there and ticked as verified; otherwise, or when the provider
  cannot sign, it is sent to the error page and gets no session.\<close>

theorem mock_sign_in_is_the_identity:
  assumes client: "new_oidc_auth disc (auth_config_of (e2e_config env0 issuer stub key)) w0 = (Inr a, w1)"
    and origin: "absolute_url (e2e_origin env0)" "CHR ''?'' \<notin> set (e2e_origin env0)"
    and honest: "honest_client mt sign now idp" and mt: "mt form_type = Some form_type"
    and b: "browser_signs_in mt bs (idp q) a b1 b2 verifier lr email ticked q q1 r"
    and bytes: "list_all cookie_value_byte verifier" "length bs = 16" "valid_utf8 email"
    and v: "v = callback_handler env (idp q1) a r new_writer"
  shows "case sign (mock_token_claims q1 now \<lparr> cd_email = email, cd_verified = ticked, cd_nonce = b64_encode RawURLEncoding b2 \<rparr>) of
      Inr raw \<Rightarrow> (if email \<noteq> [] \<and> ticked
        then \<forall>ck. create_session_cookie a (en_zone env) (en_clock env 1) (en_clock env 2) email raw = Inr ck \<longrightarrow>
          status_of v = 302 \<and> cookies_of v = map (cleared_flow_cookie a) flow_cookie_names @ [ck]
          \<and> (\<forall>env' r' w. request_cookie r' session_cookie_name = Some (ck_value ck) \<and> en_clock env' 0 \<le> en_clock env 1 + 12 * hour \<longrightarrow>
               (\<exists>d. fst (validate_session_cookie env' a r' w) = Inr d \<and> se_email d = email))
        else status_of v = 303 \<and> cookies_of v = map (cleared_flow_cookie a) flow_cookie_names)
    | Inl e \<Rightarrow> status_of v = 303 \<and> cookies_of v = map (cleared_flow_cookie a) flow_cookie_names"
proof -
  let ?d = "\<lparr> cd_email = email, cd_verified = ticked, cd_nonce = b64_encode RawURLEncoding b2 \<rparr>"
  note part = e2e_auth_parts [OF client]
  note r = browser_signed_in [OF client origin honest mt b]
  have code: "length (random_hex bs) = 32" by (simp add: random_hex_def bytes(2))
  note ex = client_exchange [OF honest code, of q1, unfolded r(1)]
  show ?thesis
  proof (cases "sign (mock_token_claims q1 now ?d)")
    case (Inl e)
    then have "\<exists>e. op_exchange (idp q1) (random_hex bs) vf = Inl e" for vf using ex(2) by blast
    then have "\<forall>raw c. \<not> signs_in env (idp q1) a r raw c" unfolding signs_in_def r(2) by (metis sum.distinct(1))
    with Inl v show ?thesis by (simp add: refused_reply)
  next
    case (Inr raw)
    have x: "op_exchange (idp q1) (random_hex bs) vf = Inr (Some raw)" for vf using ex(3) Inr by blast
    obtain tok c where tok: "op_verify (idp q1) raw = Inr tok" "it_nonce tok = b64_encode RawURLEncoding b2" "token_claims tok = Some c"
      "cl_email c = email" "cl_email_verified c = ticked"
      by (rule client_claims [OF honest Inr]) (simp_all add: bytes valid_b64)
    show ?thesis
    proof (cases "email \<noteq> [] \<and> ticked")
      case False
      have "\<not> signs_in env (idp q1) a r raw' c'" for raw' c'
      proof
        assume "signs_in env (idp q1) a r raw' c'"
        then have "c' = c" "claims_refusal env a c' = None" using x tok(1,3) by (auto simp: signs_in_def r(2))
        with False tok(4,5) part(2) show False by (simp add: claims_refusal_None)
      qed
      with False Inr v show ?thesis by (auto simp: refused_reply)
    next
      case True
      let ?lw = "login_handler (idp q) a (Inr b1) (Inr b2) verifier lr new_writer"
      have jar: "\<forall>n \<in> set flow_cookie_names. request_cookie r n = map_of (map (\<lambda>c. (ck_name c, ck_value c)) (cookies_of ?lw)) n"
        using b by (auto simp: browser_signs_in_def)
      have nr: "claims_refusal env a c = None" using True by (simp add: claims_refusal_None tok part)
      have s: "signs_in env (idp q1) a r raw c"
        by (rule login_signs_in(1) [OF refl jar r(3,4) x [folded r(2)] tok(1-3) nr bytes(1) refl])
      have adm: "\<exists>d. fst (validate_session_cookie env' a r' w) = Inr d \<and> se_email d = email"
        if "create_session_cookie a (en_zone env) (en_clock env 1) (en_clock env 2) email raw = Inr ck"
          "request_cookie r' session_cookie_name = Some (ck_value ck)" "en_clock env' 0 \<le> en_clock env 1 + 12 * hour" for ck env' r' w
        by (rule new_cookie_admitted [OF that(1) _ _ _ that(2)])
          (use that(3) part honest_client_parts(5) [OF honest Inr] bytes in simp_all)
      have "status_of v = 302 \<and> cookies_of v = map (cleared_flow_cookie a) flow_cookie_names @ [ck]"
        if "create_session_cookie a (en_zone env) (en_clock env 1) (en_clock env 2) email raw = Inr ck" for ck
        using accepted_reply [OF s] that v by (simp add: tok(4))
      with True Inr adm show ?thesis by simp blast
    qed
  qed
qed

text \<open>C16: A code that was presented once signs nobody in.  After any token request for a code, whether
  it was answered or refused, and whatever requests the mock provider sees from then on that do not mint
  the same code, a callback that brings the code, with any cookies, ends at the error page
  and sets no session cookie.\<close>

theorem spent_code_signs_nobody_in:
  assumes "honest_client mt sign now idp" "parse_form mt' r0 = Some f" "form_value f ''code'' = code" "length code = 32"
    and "mock_run code (fst (mock_token mt' sign' now' r0 (q, w))) q1" "url_query_get r ''code'' = code"
  shows "status_of (callback_handler env (idp q1) a r new_writer) = 303
    \<and> header_of (callback_handler env (idp q1) a r new_writer) ''Location'' = Some error_path
    \<and> cookies_of (callback_handler env (idp q1) a r new_writer) = map (cleared_flow_cookie a) flow_cookie_names"
proof -
  have "mk_codes (fst (mock_token mt' sign' now' r0 (q, w))) code = None"
    using mock_token_spends [OF assms(2), of sign' now' q w] assms(3) by simp
  from mock_run_spent [OF assms(5) this] have "\<exists>e. op_exchange (idp q1) code vf = Inl e" for vf by (rule client_exchange(1) [OF assms(1,4)])
  then have "\<forall>raw c. \<not> signs_in env (idp q1) a r raw c" unfolding signs_in_def assms(6) by (metis sum.distinct(1))
  then show ?thesis by (simp add: refused_reply)
qed

subsection \<open>Examples\<close>

text \<open>A client that does what is asked of it, with the text of the claims as the token.\<close>

definition plain_sign :: "(string \<times> json) list \<Rightarrow> go_error + string" where
  "plain_sign kvs = (let t = print_json (jobject kvs) in if valid_utf8 t then Inr t else Inl (Plain ''utf8''))"

definition mock_client :: "mock_oidc \<Rightarrow> oidc_provider" where
  "mock_client q =
     \<lparr> op_auth_code_url = (\<lambda>a state os. ''http://127.0.0.1:9000/auth?'' @ join (map encode_pair
         ([(''nonce'', n). ONonce n \<leftarrow> os] @ [(''redirect_uri'', oa_redirect_url a), (''state'', state)])) ''&''),
       op_exchange = (\<lambda>code verifier. case mk_codes q code of None \<Rightarrow> Inl (Plain ''invalid_grant'')
         | Some d \<Rightarrow> map_sum id Some (plain_sign (mock_token_claims q 0 d))),
       op_verify = (\<lambda>t. Inr \<lparr> it_nonce = (case token_claims \<lparr> it_nonce = [], it_payload = t \<rparr> of None \<Rightarrow> [] | Some c \<Rightarrow> cl_nonce c),
         it_payload = t \<rparr>) \<rparr>"

lemma mock_client_page:
  assumes "page = op_auth_code_url (mock_client q) a state [ONonce nonce, OChallenge verifier]"
  shows "absolute_url page" "query_get (query_part page) ''state'' = state" "query_get (query_part page) ''nonce'' = nonce"
    "query_get (query_part page) ''redirect_uri'' = oa_redirect_url a"
proof -
  let ?ps = "[(''nonce'', nonce), (''redirect_uri'', oa_redirect_url a), (''state'', state)]"
  have p: "page = ''http://127.0.0.1:9000/auth'' @ ''?'' @ join (map encode_pair ?ps) ''&''"
    by (simp add: assms mock_client_def)
  have b: "\<forall>c \<in> set ''http://127.0.0.1:9000/auth?''. byte c < 128 \<and> c \<noteq> CHR ''#''" "byte (CHR ''='') < 128" "byte (CHR ''&'') < 128" by code_simp+
  have "\<forall>c \<in> set (encode_pair kv). byte c < 128 \<and> c \<noteq> CHR ''#''" for kv
    using query_escape_ascii query_escape_no_delims b(2) by (auto simp: encode_pair_def query_delims_def)
  then have "\<forall>c \<in> set (join (map encode_pair ?ps) ''&''). byte c < 128 \<and> c \<noteq> CHR ''#''" using b(3) by auto
  with b(1) show "absolute_url page" unfolding p absolute_url_def by (auto simp: has_prefix_iff)
  have "query_part page = join (map encode_pair ?ps) ''&''" by (simp add: p query_part_def cut_single takeWhile_append dropWhile_append)
  then have "query_values (query_part page) = ?ps" using query_values_join [of ?ps] by simp
  then show "query_get (query_part page) ''state'' = state" "query_get (query_part page) ''nonce'' = nonce"
    "query_get (query_part page) ''redirect_uri'' = oa_redirect_url a" by (simp_all add: query_get_def)
qed

lemma url_escape_length: "length (url_escape m s) \<le> 3 * length s"
  by (induction s) (auto simp: url_escape_def escape_char_def)

lemma token_reply_inject:
  assumes "token_reply x t = token_reply y u" "valid_utf8 t" "valid_utf8 u"
  shows "t = u"
proof -
  have v: "map snd xs = map snd ys" if "jobject xs = jobject ys" for xs ys :: "(string \<times> json) list"
  proof -
    have s: "map snd (map (\<lambda>(k, v). (json_escape k, v)) zs) = map snd zs" for zs :: "(string \<times> json) list"
      by (induction zs) auto
    from that have "map snd (map (\<lambda>(k, v). (json_escape k, v)) xs) = map snd (map (\<lambda>(k, v). (json_escape k, v)) ys)"
      unfolding jobject_def json.inject by (rule arg_cong)
    then show ?thesis unfolding s .
  qed
  have "jstring t = jstring u"
    using v [OF assms(1) [unfolded token_reply_def]] unfolding list.map snd_conv list.inject by blast
  then have "json_escape t = json_escape u" unfolding jstring_def json.inject .
  then show ?thesis by (metis unquote_json_escape [OF assms(2)] unquote_json_escape [OF assms(3)] option.inject)
qed

lemma mock_client_exchanges:
  assumes "length code = 32"
  shows "\<exists>(r :: gw_request) f. parse_form Some r = Some f \<and> form_value f ''code'' = code
        \<and> (let v = snd (mock_token Some plain_sign 0 r (q, new_writer))
           in if status_of v = 200
              then \<forall>acc t. valid_utf8 t \<and> parse_json (w_body v) = Some (token_reply acc t)
                \<longrightarrow> op_exchange (mock_client q) code verifier = Inr (Some t)
              else \<exists>e. op_exchange (mock_client q) code verifier = Inl e)"
proof -
  let ?r = "form_post ''/token'' [(''code'', code)]"
  have l: "length (query_escape ''code'') = 4" by code_simp
  have "length (rq_body ?r) \<le> 5 + 3 * 32"
    using url_escape_length [of EncQueryComponent code] assms l by (simp add: form_post_def encode_pair_def query_escape_def)
  then have f: "parse_form Some ?r = Some [(''code'', code)]" "form_value [(''code'', code)] ''code'' = code"
    by (auto intro!: parse_form_post simp: max_form_size_def form_value_def)
  have same: "mock_token_claims (q\<lparr> mk_codes := c \<rparr>) 0 d = mock_token_claims q 0 d" for c d by (simp add: mock_token_claims_def)
  let ?v = "snd (mock_token Some plain_sign 0 ?r (q, new_writer))"
  have "if status_of ?v = 200
      then \<forall>acc t. valid_utf8 t \<and> parse_json (w_body ?v) = Some (token_reply acc t) \<longrightarrow> op_exchange (mock_client q) code verifier = Inr (Some t)
      else \<exists>e. op_exchange (mock_client q) code verifier = Inl e"
  proof (cases "mk_codes q code")
    case None
    then show ?thesis
      by (simp add: mock_token_def f Let_def http_error_status writer_simps mock_client_def)
  next
    case (Some d)
    show ?thesis
    proof (cases "plain_sign (mock_token_claims q 0 d)")
      case (Inl e)
      with Some show ?thesis
        by (simp add: mock_token_def f Let_def http_error_status writer_simps mock_client_def same)
    next
      case (Inr t)
      then have u: "valid_utf8 t" by (auto simp: plain_sign_def Let_def split: if_splits)
      have v: "?v = stub_write_json (Some (token_reply ''e2e-access-token'' t)) new_writer"
        using Inr Some by (simp add: mock_token_def f Let_def same)
      have "t' = t" if "parse_json (w_body ?v) = Some (token_reply acc t')" "valid_utf8 t'" for acc t'
        using token_written [OF u] that u unfolding v by (auto dest: token_reply_inject)
      moreover have "op_exchange (mock_client q) code verifier = Inr (Some t)" using Inr Some by (simp add: mock_client_def)
      moreover have "status_of ?v = 200" unfolding v by (rule token_written(2) [OF u])
      ultimately show ?thesis by auto
    qed
  qed
  with f show ?thesis unfolding Let_def by blast
qed

lemma mock_client_honest: "honest_client Some plain_sign 0 mock_client"
proof -
  have s: "valid_utf8 t" "t = print_json (jobject kvs)" if "plain_sign kvs = Inr t" for kvs t
    using that by (auto simp: plain_sign_def Let_def split: if_splits)
  have "\<exists>tok kvs. op_verify (mock_client q) t = Inr tok \<and> it_payload tok = print_json (jobject kvs) \<and> distinct (map fst kvs)
      \<and> set kvs = set (mock_token_claims q 0 d) \<and> it_nonce tok = cd_nonce d"
    if t: "plain_sign (mock_token_claims q 0 d) = Inr t" and v: "valid_utf8 (cd_email d)" "valid_utf8 (cd_nonce d)" for q d t
  proof -
    let ?tok = "\<lparr> it_nonce = [], it_payload = t \<rparr>"
    have m: "\<forall>kv \<in> set (mock_token_claims q 0 d). identity_member (cd_email d) (cd_verified d) (cd_nonce d) kv" by (rule mock_claims_members)
    have "it_payload ?tok = print_json (jobject (mock_token_claims q 0 d))" using s(2) [OF t] by simp
    from identity_claims [OF this _ m v] obtain c where "token_claims ?tok = Some c" "cl_nonce c = cd_nonce d"
      by (auto simp: mock_token_claims_def)
    then have o: "op_verify (mock_client q) t = Inr \<lparr> it_nonce = cd_nonce d, it_payload = t \<rparr>" by (simp add: mock_client_def)
    show ?thesis
    proof (intro exI conjI)
      show "op_verify (mock_client q) t = Inr \<lparr> it_nonce = cd_nonce d, it_payload = t \<rparr>" by (rule o)
      show "it_payload \<lparr> it_nonce = cd_nonce d, it_payload = t \<rparr> = print_json (jobject (mock_token_claims q 0 d))"
        unfolding id_token.select_convs by (rule s(2) [OF t])
      show "distinct (map fst (mock_token_claims q 0 d))" by (simp add: mock_token_claims_def)
    qed simp_all
  qed
  note verified = this
  show ?thesis
    unfolding honest_client_def
  proof (intro conjI allI impI)
    show "let page = op_auth_code_url (mock_client q) a state [ONonce nonce, OChallenge verifier]
        in absolute_url page \<and> query_get (query_part page) ''state'' = state \<and> query_get (query_part page) ''nonce'' = nonce
           \<and> query_get (query_part page) ''redirect_uri'' = oa_redirect_url a" for q a state nonce verifier
      using mock_client_page [OF refl] by (simp add: Let_def)
  qed (rule mock_client_exchanges, assumption, erule s(1), elim conjE, rule verified)
qed

definition following :: "string \<Rightarrow> cookie list \<Rightarrow> writer \<Rightarrow> gw_request" where
  "following p cs v = (gw_get p)\<lparr> rq_url := empty_url\<lparr> u_path := p,
       u_raw_query := (case header_of v ''Location'' of None \<Rightarrow> [] | Some loc \<Rightarrow> query_part loc) \<rparr>,
     rq_cookies := map (\<lambda>c. (ck_name c, ck_value c)) cs \<rparr>"

lemma following_follows [simp]: "follows (following p cs v) v"
  by (simp add: following_def follows_def)

lemma following_cookies [simp]: "request_cookie (following p cs v) n = map_of (map (\<lambda>c. (ck_name c, ck_value c)) cs) n"
  by (simp add: following_def request_cookie_def)

definition bare_environ :: environ where "bare_environ = (\<lambda>_. [])"

lemma sample_e2e_client:
  obtains a w1 where "new_oidc_auth (\<lambda>_. Inr ''{}'') (auth_config_of (e2e_config bare_environ ''http://127.0.0.1:9000'' [] [])) new_writer = (Inr a, w1)"
proof -
  have u: "unmarshal discovery_fields ''{}'' [] = Some []" by code_simp
  have p: "case post_logout_redirect_uri ''http://127.0.0.1:8080/auth/callback'' of Inl _ \<Rightarrow> False | Inr _ \<Rightarrow> True" by code_simp
  have r: "oc_redirect_uri (ac_oidc (auth_config_of (e2e_config bare_environ ''http://127.0.0.1:9000'' [] []))) = ''http://127.0.0.1:8080/auth/callback''"
    by (simp add: auth_config_of_def e2e_config_def e2e_getenv_def bare_environ_def callback_path_def Let_def)
  have "\<exists>a w1. new_oidc_auth (\<lambda>_. Inr ''{}'') (auth_config_of (e2e_config bare_environ ''http://127.0.0.1:9000'' [] [])) new_writer = (Inr a, w1)"
    using u p unfolding new_oidc_auth_def Let_def r by (auto split: sum.splits)
  with that show thesis by blast
qed

abbreviation sample_code_bytes :: string where "sample_code_bytes \<equiv> replicate 16 (CHR 0x01)"

lemma sample_browser:
  assumes "new_oidc_auth (\<lambda>_. Inr ''{}'') (auth_config_of (e2e_config bare_environ ''http://127.0.0.1:9000'' [] [])) new_writer = (Inr a, w1)"
  obtains q1 r where "browser_signs_in Some sample_code_bytes (mock_client sample_mock) a ''s'' ''n'' ''verifier'' (gw_get login_path)
      ''ada@example.org'' True sample_mock q1 r" "mk_issuer q1 = mk_issuer sample_mock" "mk_client_id q1 = mk_client_id sample_mock"
proof -
  let ?lw = "login_handler (mock_client sample_mock) a (Inr ''s'') (Inr ''n'') ''verifier'' (gw_get login_path) new_writer"
  let ?page = "following ''/auth'' [] ?lw"
  let ?post = "form_post ''/auth'' (sign_in_fields ''ada@example.org'' True ?page)"
  obtain q1 v where s: "mock_auth_submit Some sample_code_bytes ?post (sample_mock, new_writer) = (q1, v)" by fastforce
  note h = login_page [OF assms mock_client_honest following_follows]
  have o: "e2e_origin bare_environ @ callback_path = ''http://127.0.0.1:8080/auth/callback''" by code_simp
  have "sign_in_fields ''ada@example.org'' True ?page = [(''email'', ''ada@example.org''), (''verified'', ''on''),
      (''state'', b64_encode RawURLEncoding ''s''), (''nonce'', b64_encode RawURLEncoding ''n''), (''redirect_uri'', ''http://127.0.0.1:8080/auth/callback'')]"
    by (simp only: sign_in_fields_def list.map h o if_True append.simps)
  moreover have "length (join (map encode_pair [(''email'', ''ada@example.org''), (''verified'', ''on''),
      (''state'', b64_encode RawURLEncoding ''s''), (''nonce'', b64_encode RawURLEncoding ''n''), (''redirect_uri'', ''http://127.0.0.1:8080/auth/callback'')]) ''&'') \<le> 1000"
    by code_simp
  ultimately have l: "int (length (rq_body ?post)) \<le> max_form_size" by (simp add: form_post_def max_form_size_def)
  have "browser_signs_in Some sample_code_bytes (mock_client sample_mock) a ''s'' ''n'' ''verifier'' (gw_get login_path)
      ''ada@example.org'' True sample_mock q1 (following callback_path (cookies_of ?lw) v)"
    unfolding browser_signs_in_def
    by (rule exI [of _ ?page], rule exI [of _ v], intro conjI following_follows l s ballI following_cookies)
  moreover have "mk_issuer q1 = mk_issuer sample_mock" "mk_client_id q1 = mk_client_id sample_mock"
    using s by (auto simp: mock_auth_submit_def Let_def split: option.splits)
  ultimately show thesis by (rule that)
qed

lemma mock_sign_in_is_the_identity_witness:
  "\<exists>a q1 r ck. browser_signs_in Some sample_code_bytes (mock_client sample_mock) a ''s'' ''n'' ''verifier'' (gw_get login_path)
      ''ada@example.org'' True sample_mock q1 r
    \<and> status_of (callback_handler sample_env (mock_client q1) a r new_writer) = 302
    \<and> cookies_of (callback_handler sample_env (mock_client q1) a r new_writer) = map (cleared_flow_cookie a) flow_cookie_names @ [ck]"
proof -
  obtain a w1 where a: "new_oidc_auth (\<lambda>_. Inr ''{}'') (auth_config_of (e2e_config bare_environ ''http://127.0.0.1:9000'' [] [])) new_writer = (Inr a, w1)"
    by (rule sample_e2e_client)
  obtain q1 r where b: "browser_signs_in Some sample_code_bytes (mock_client sample_mock) a ''s'' ''n'' ''verifier'' (gw_get login_path)
      ''ada@example.org'' True sample_mock q1 r" and q1: "mk_issuer q1 = mk_issuer sample_mock" "mk_client_id q1 = mk_client_id sample_mock"
    by (rule sample_browser [OF a])
  let ?d = "\<lparr> cd_email = ''ada@example.org'', cd_verified = True, cd_nonce = b64_encode RawURLEncoding ''n'' \<rparr>"
  have c: "mock_token_claims q1 0 ?d = mock_token_claims sample_mock 0 ?d" by (simp add: mock_token_claims_def q1)
  have "case plain_sign (mock_token_claims sample_mock 0 ?d) of Inl _ \<Rightarrow> False | Inr _ \<Rightarrow> True" by code_simp
  then obtain raw where raw: "plain_sign (mock_token_claims q1 0 ?d) = Inr raw" by (auto simp: c split: sum.splits)
  have u: "absolute_url (e2e_origin bare_environ)" "CHR ''?'' \<notin> set (e2e_origin bare_environ)" by code_simp+
  have v: "list_all cookie_value_byte ''verifier''" "valid_utf8 ''ada@example.org''" "''ada@example.org'' \<noteq> []" by code_simp+
  have y: "fst (civil_from_days ((1700000000 * second + 0 * minute) div second div 86400)) = 2023"
    "fst (civil_from_days ((1700000000 * second + 12 * hour + 0 * minute) div second div 86400)) = 2023" by code_simp+
  have "\<exists>s. marshal_time 0 (1700000000 * second) = Some s" "\<exists>s. marshal_time 0 (1700000000 * second + 12 * hour) = Some s"
    using marshal_time_SomeI [of "1700000000 * second" 0] marshal_time_SomeI [of "1700000000 * second + 12 * hour" 0] y by simp_all
  then have "\<exists>j. marshal_session (en_zone sample_env) (new_session a (en_clock sample_env 1) ''ada@example.org'' raw) = Some j"
    using e2e_auth_parts [OF a] by (auto simp: marshal_session_def session_json_def new_session_def sample_env_def json_time_def)
  then obtain ck where ck: "create_session_cookie a (en_zone sample_env) (en_clock sample_env 1) (en_clock sample_env 2) ''ada@example.org'' raw = Inr ck"
    by (auto simp: create_session_cookie_def session_cookie_def sign_and_encode_def)
  have m: "Some form_type = Some form_type" and l: "length sample_code_bytes = 16" by simp_all
  from mock_sign_in_is_the_identity [OF a u mock_client_honest m b v(1) l v(2) refl, of sample_env] raw ck v(3)
  have "status_of (callback_handler sample_env (mock_client q1) a r new_writer) = 302
    \<and> cookies_of (callback_handler sample_env (mock_client q1) a r new_writer) = map (cleared_flow_cookie a) flow_cookie_names @ [ck]"
    by auto
  with b show ?thesis by blast
qed

definition sample_code :: string where "sample_code = replicate 32 (CHR ''a'')"

definition sample_spent :: mock_oidc where
  "sample_spent = sample_mock\<lparr> mk_codes := [sample_code \<mapsto> \<lparr> cd_email = recipient_email, cd_verified = True, cd_nonce = ''n'' \<rparr>] \<rparr>"

lemma spent_code_signs_nobody_in_witness:
  "\<exists>(r0 :: gw_request) (r :: gw_request). mk_codes sample_spent sample_code \<noteq> None \<and> url_query_get r ''code'' = sample_code
    \<and> cookies_of (callback_handler sample_env (mock_client (fst (mock_token Some plain_sign 0 r0 (sample_spent, new_writer))))
        sample_auth r new_writer) = map (cleared_flow_cookie sample_auth) flow_cookie_names"
proof -
  let ?post = "form_post ''/token'' [(''code'', sample_code)]"
  let ?r = "(gw_get callback_path)\<lparr> rq_url := empty_url\<lparr> u_path := callback_path, u_raw_query := ''code='' @ sample_code \<rparr> \<rparr>"
  have "length (join (map encode_pair [(''code'', sample_code)]) ''&'') \<le> 1000" by code_simp
  then have f: "parse_form Some ?post = Some [(''code'', sample_code)]"
    by (intro parse_form_post) (simp_all add: form_post_def max_form_size_def)
  have "query_get (''code='' @ sample_code) ''code'' = sample_code" by code_simp
  then have r: "url_query_get ?r ''code'' = sample_code" by (simp add: url_query_get_def)
  have v: "form_value [(''code'', sample_code)] ''code'' = sample_code" by (simp add: form_value_def)
  have l: "length sample_code = 32" by (simp add: sample_code_def)
  have "mk_codes sample_spent sample_code \<noteq> None" by (simp add: sample_spent_def)
  with spent_code_signs_nobody_in [OF mock_client_honest f v l mock_run.stop r] r show ?thesis by blast
qed

end
