(* ===== verification/Stub_Wire.thy ===== *)
theory Stub_Wire
  imports Stub_Provider
begin

section \<open>The wire between the provider client and the stub\<close>

text \<open>
  The two ends of the provider contract joined: a request the client of \<open>internal/provider\<close> sends is
  what the stub of \<open>cmd/atrium-e2e\<close> receives, and its reply is what the client reads.  The wire is
  the request line and the headers; the token signer stays an argument, and what the stub relies on,
  that the payload between the dots is the JSON text of the claims, is the hypothesis \<open>compact_jws\<close>.
  The last lemma gives, for any operation of the client, the handler of the stub that runs, the
  request it sees and what the client makes of its reply.
\<close>

subsection \<open>The wire\<close>

definition wire_request :: "outgoing \<Rightarrow> gw_request option" where
  "wire_request q = Option.bind (url_parse (og_url q)) (\<lambda>u. map_option
     (\<lambda>t. (gw_get [])\<lparr> rq_method := og_method q, rq_url := t, rq_headers := og_header q, rq_body := og_body q,
            rq_body_error := og_body_error q \<rparr>)
     (parse_no_fragment (request_uri u)))"

text \<open>A short reply is sent with its length, a longer one in chunks.\<close>

definition wire_reply :: "outgoing \<Rightarrow> writer \<Rightarrow> reply" where
  "wire_reply q w =
     \<lparr> rp_status = status_of w, rp_header = header_of w,
       rp_content_length = (if length (w_body w) \<le> 2048 then int (length (w_body w)) else -1),
       rp_body = w_body w, rp_body_error = None, rp_taken = length (og_body q) \<rparr>"

definition stub_transport :: "instant \<Rightarrow> stub_store \<Rightarrow> outgoing \<Rightarrow> go_error + reply" where
  "stub_transport now st q = (case (og_body_error q, wire_request q) of
      (None, Some r) \<Rightarrow> Inr (wire_reply q (snd (stub_serve now r (st, new_writer))))
    | (Some e, _) \<Rightarrow> Inl (Wrap ''send: '' e [])
    | (None, None) \<Rightarrow> Inl (Plain ''bad request''))"

text \<open>The store after the requests a call sent.\<close>

definition stub_after :: "instant \<Rightarrow> outgoing list \<Rightarrow> stub_store \<Rightarrow> stub_store" where
  "stub_after now qs st = fold
     (\<lambda>q st. case wire_request q of None \<Rightarrow> st | Some r \<Rightarrow> fst (stub_serve now r (st, new_writer))) qs st"

subsection \<open>Local addresses\<close>

text \<open>The address of a listener: a host and a port that need no escaping.\<close>

definition listen_addr :: "string \<Rightarrow> bool" where
  "listen_addr h \<longleftrightarrow> parse_host ''http'' h = Some h \<and> (\<forall>c \<in> set h. is_alnum c \<or> c \<in> set ''.:-'')"

lemma listen_addr_bytes:
  assumes "listen_addr h" "c \<in> set h"
  shows "c \<noteq> CHR ''/'' \<and> c \<noteq> CHR ''#'' \<and> c \<noteq> CHR ''?'' \<and> c \<noteq> CHR ''@'' \<and> \<not> is_ctl c"
  using assms by (auto simp: listen_addr_def is_alnum_def is_lower_def is_upper_def is_digit_def byte_in_def is_ctl_def)

definition plain_path :: "string \<Rightarrow> bool" where
  "plain_path p \<longleftrightarrow> has_prefix p ''/'' \<and> \<not> has_prefix p ''//'' \<and> valid_encoded EncPath p
     \<and> (\<forall>c \<in> set p. c \<noteq> CHR ''?'' \<and> c \<noteq> CHR ''#'' \<and> \<not> is_ctl c)"

definition raw_path_of :: "string \<Rightarrow> string \<Rightarrow> string" where
  "raw_path_of p path = (if p = url_escape EncPath path then [] else p)"

definition path_url :: "string \<Rightarrow> string \<Rightarrow> string \<Rightarrow> url" where
  "path_url p path qs = empty_url\<lparr> u_path := path, u_raw_path := raw_path_of p path, u_raw_query := qs \<rparr>"

text \<open>A query that needs no escaping, and how it follows the path.\<close>

definition plain_query :: "string \<Rightarrow> bool" where
  "plain_query qs \<longleftrightarrow> (\<forall>c \<in> set qs. c \<noteq> CHR ''#'' \<and> \<not> is_ctl c)"

definition query_tail :: "string \<Rightarrow> string" where
  "query_tail qs = (if qs = [] then [] else CHR ''?'' # qs)"

lemma query_tail_bytes: "plain_query qs \<Longrightarrow> c \<in> set (query_tail qs) \<Longrightarrow> c \<noteq> CHR ''#'' \<and> \<not> is_ctl c"
proof -
  have "\<not> is_ctl (CHR ''?'')" by code_simp
  then show "plain_query qs \<Longrightarrow> c \<in> set (query_tail qs) \<Longrightarrow> c \<noteq> CHR ''#'' \<and> \<not> is_ctl c"
    by (auto simp: plain_query_def query_tail_def split: if_splits)
qed

lemma set_path_raw:
  "url_unescape EncPath p = Some path \<Longrightarrow> set_path p u = Some (u\<lparr> u_path := path, u_raw_path := raw_path_of p path \<rparr>)"
  by (simp add: set_path_def raw_path_of_def)

lemma split_query_plain:
  assumes "CHR ''?'' \<notin> set p"
  shows "split_query (p @ query_tail qs) = (p, qs, False)"
proof (cases "qs = []")
  case True
  with assms show ?thesis by (auto simp: query_tail_def split_query_def cut_single_absent has_suffix_iff)
next
  case False
  have "count_list (p @ CHR ''?'' # qs) (CHR ''?'') = Suc (count_list qs (CHR ''?''))"
    using assms by (simp add: count_list_0_iff)
  moreover have "count_list qs (CHR ''?'') \<noteq> 0" if "has_suffix (p @ CHR ''?'' # qs) ''?''"
  proof -
    from that obtain t where "p @ CHR ''?'' # qs = t @ ''?''" by (auto simp: has_suffix_iff)
    then have "last (p @ CHR ''?'' # qs) = CHR ''?''" by (metis last_snoc)
    then have "CHR ''?'' \<in> set qs" using False last_in_set [OF False] by simp
    then show ?thesis by (simp add: count_list_0_iff)
  qed
  ultimately show ?thesis using False by (auto simp: query_tail_def split_query_def cut_single_append [OF assms])
qed

lemma get_scheme_path: "has_prefix p ''/'' \<Longrightarrow> get_scheme p = Some ([], p)"
  by (auto simp: has_prefix_iff get_scheme_def scheme_char_def is_alnum_def is_lower_def is_upper_def is_digit_def byte_in_def)

lemma parse_plain_path:
  assumes "plain_path p" "url_unescape EncPath p = Some path" "plain_query qs"
  shows "parse_no_fragment (p @ query_tail qs) = Some (path_url p path qs)"
proof -
  have p: "has_prefix p ''/''" "\<not> has_prefix p ''//''" "CHR ''?'' \<notin> set p" "\<not> list_ex is_ctl (p @ query_tail qs)"
    using assms(1) query_tail_bytes [OF assms(3)] by (auto simp: plain_path_def list_ex_iff)
  then have q: "has_prefix (p @ query_tail qs) ''/''" by (auto simp: has_prefix_iff)
  then have "p @ query_tail qs \<noteq> ''*''" by auto
  with p q show ?thesis
    by (simp add: parse_no_fragment_def get_scheme_path split_query_plain Let_def parse_absolute_or_path_def is_abs_def
        set_path_raw [OF assms(2)] path_url_def empty_url_def)
qed

lemma parse_local_url:
  assumes "listen_addr h" "plain_path p" "url_unescape EncPath p = Some path" "plain_query qs"
  shows "url_parse (''http://'' @ h @ p @ query_tail qs) = Some ((path_url p path qs)\<lparr> u_scheme := ''http'', u_host := h \<rparr>)"
proof -
  have p: "has_prefix p ''/''" "\<And>c. c \<in> set p \<Longrightarrow> c \<noteq> CHR ''?'' \<and> c \<noteq> CHR ''#'' \<and> \<not> is_ctl c"
    using assms(2) by (auto simp: plain_path_def)
  note h = listen_addr_bytes [OF assms(1)]
  note qt = query_tail_bytes [OF assms(4)]
  obtain raw sch rest0 rest where raw: "raw = ''http://'' @ h @ p @ query_tail qs" and sch: "sch = ''http''"
    and rest: "rest = ''//'' @ h @ p" and rest0: "rest0 = rest @ query_tail qs" by blast
  have "list_all (\<lambda>c. \<not> is_ctl c \<and> c \<noteq> CHR ''#'') ''http://''" by code_simp
  then have clean: "\<forall>c \<in> set raw. \<not> is_ctl c \<and> c \<noteq> CHR ''#''"
    using h p(2) qt by (auto simp: raw list_all_iff)
  then have ctl: "\<not> list_ex is_ctl raw" by (auto simp: list_ex_iff)
  have no_hash: "cut raw ''#'' = (raw, [], False)" using clean by (intro cut_single_absent) auto
  have sc: "get_scheme raw = Some (sch, rest0)"
    by (simp add: raw sch rest rest0 get_scheme_def scheme_char_def is_alnum_def is_lower_def is_upper_def is_digit_def byte_in_def)
  have lower: "map ascii_lower sch = sch" unfolding sch by code_simp
  have q: "split_query rest0 = (rest, qs, False)"
    unfolding rest0 rest by (rule split_query_plain) (auto dest: h p(2))
  have tw: "takeWhile (\<lambda>c. c \<noteq> CHR ''/'') (h @ p) = h" "dropWhile (\<lambda>c. c \<noteq> CHR ''/'') (h @ p) = p"
    using h p(1) by (auto simp: has_prefix_iff takeWhile_append dropWhile_append)
  have r: "has_prefix rest ''//''" "has_prefix rest ''/''" "drop 2 rest = h @ p" by (simp_all add: rest)
  have au: "parse_authority sch h = Some (None, h)"
    using assms(1) h unfolding sch by (auto simp: parse_authority_def last_index_def listen_addr_def)
  have s: "sch \<noteq> []" "raw \<noteq> ''*''" by (simp_all add: raw sch)
  have "url_parse raw = Some ((path_url p path qs)\<lparr> u_scheme := sch, u_host := h \<rparr>)"
    unfolding url_parse_def no_hash
    by (simp add: parse_no_fragment_def ctl sc q lower parse_absolute_or_path_def is_abs_def r tw au s
        set_path_raw [OF assms(3)] path_url_def empty_url_def Let_def)
  then show ?thesis by (simp add: raw sch)
qed

lemma unescape_path_rooted: "has_prefix p ''/'' \<Longrightarrow> url_unescape EncPath p = Some path \<Longrightarrow> has_prefix path ''/''"
  by (auto simp: has_prefix_iff url_unescape.simps(2))

lemma escaped_path_url:
  assumes "plain_path p" "url_unescape EncPath p = Some path" "u_raw_path u = raw_path_of p path" "u_path u = path"
  shows "escaped_path u = p"
proof -
  have "has_prefix path ''/''" using assms(1) by (intro unescape_path_rooted [OF _ assms(2)]) (simp add: plain_path_def)
  then have s: "path \<noteq> ''*''" by auto
  have "has_prefix p ''/''" "valid_encoded EncPath p" using assms(1) by (simp_all add: plain_path_def)
  then have p: "p \<noteq> []" "valid_encoded EncPath p" by auto
  show ?thesis
  proof (cases "url_escape EncPath path = p")
    case True
    then have "u_raw_path u = []" by (simp add: assms(3) raw_path_of_def)
    with True s show ?thesis by (simp add: escaped_path_def assms(4))
  next
    case False
    then have "u_raw_path u = p" using assms(3) by (auto simp: raw_path_of_def)
    with p show ?thesis by (simp add: escaped_path_def assms(2,4))
  qed
qed

lemma path_url_parts [simp]:
  "u_path (path_url p path qs) = path" "u_raw_path (path_url p path qs) = raw_path_of p path" "u_opaque (path_url p path qs) = []"
  "u_raw_query (path_url p path qs) = qs" "\<not> u_force_query (path_url p path qs)"
  by (simp_all add: path_url_def empty_url_def)

text \<open>The path and the query of a request survive the wire.\<close>

lemma wire_request_path:
  assumes "listen_addr h" "plain_path p" "url_unescape EncPath p = Some path" "plain_query qs" "og_url q = ''http://'' @ h @ p @ query_tail qs"
  shows "wire_request q = Some ((gw_get [])\<lparr> rq_method := og_method q, rq_url := path_url p path qs, rq_headers := og_header q,
    rq_body := og_body q, rq_body_error := og_body_error q \<rparr>)"
proof -
  have "has_prefix p ''/''" using assms(2) by (simp add: plain_path_def)
  then have "p \<noteq> []" by auto
  then have "request_uri ((path_url p path qs)\<lparr> u_scheme := ''http'', u_host := h \<rparr>) = p @ query_tail qs"
    by (simp add: request_uri_def escaped_path_url [OF assms(2,3)] query_tail_def)
  then show ?thesis
    unfolding wire_request_def assms(5) parse_local_url [OF assms(1-4)]
    by (simp add: parse_plain_path [OF assms(2-4)])
qed

subsection \<open>The token\<close>

text \<open>A compact signed token: three parts, the middle one the JSON text of the claims, in some order.\<close>

definition compact_jws :: "provider_net \<Rightarrow> parsed_key \<Rightarrow> bool" where
  "compact_jws net key \<longleftrightarrow> (\<forall>claims. distinct (map fst claims) \<longrightarrow>
     (\<exists>h kvs s. pn_sign net key claims = Inr (h @ ''.'' @ b64_encode RawURLEncoding (print_json (jobject kvs)) @ ''.'' @ s)
        \<and> CHR ''.'' \<notin> set h \<and> CHR ''.'' \<notin> set s \<and> set kvs = set claims \<and> distinct (map fst kvs)))"

lemma token_claims_distinct: "distinct (map fst (token_claim_set c now i e a m))"
  by (simp add: token_claim_set_def)

lemma token_field_names:
  "find_field token_fields ''iss'' = None" "find_field token_fields ''aud'' = None" "find_field token_fields ''iat'' = None"
  "find_field token_fields ''exp'' = None" "find_field token_fields ''share_id'' = None" "find_field token_fields ''ip'' = None"
  "find_field token_fields ''xff'' = None"
proof -
  have f: "map (\<lambda>f. fold_name (fst f)) token_fields = [''EMAIL'', ''ACTION'']"
    unfolding token_fields_def by code_simp
  have n: "map fold_name [''iss'', ''aud'', ''iat'', ''exp'', ''share_id'', ''ip'', ''xff'']
      = [''ISS'', ''AUD'', ''IAT'', ''EXP'', ''SHARE_ID'', ''IP'', ''XFF'']" by code_simp
  show "find_field token_fields ''iss'' = None" "find_field token_fields ''aud'' = None" "find_field token_fields ''iat'' = None"
    "find_field token_fields ''exp'' = None" "find_field token_fields ''share_id'' = None" "find_field token_fields ''ip'' = None"
    "find_field token_fields ''xff'' = None"
    using n by (intro find_field_None; simp add: f)+
qed

lemma token_field_hits:
  "find_field token_fields ''email'' = Some (lenient (dec_string (\<lambda>x c. c\<lparr> tk_email := x \<rparr>)))"
  "find_field token_fields ''action'' = Some (lenient (dec_string (\<lambda>x c. c\<lparr> tk_action := x \<rparr>)))"
  by (intro find_field_exact; simp add: token_fields_def)+

lemma decode_claims:
  assumes "distinct (map fst kvs)" "set kvs \<subseteq> set (token_claim_set c now i e a m)" "valid_utf8 e" "valid_utf8 a"
  shows "\<exists>d'. decode_plain token_fields kvs d = Some d'
    \<and> tk_email d' = (if ''email'' \<in> fst ` set kvs then e else tk_email d)"
  using assms(1,2)
proof (induction kvs arbitrary: d)
  case (Cons kv kvs)
  obtain k v where kv: "kv = (k, v)" by fastforce
  have ih: "\<exists>d'. decode_plain token_fields kvs d1 = Some d' \<and> tk_email d' = (if ''email'' \<in> fst ` set kvs then e else tk_email d1)" for d1
    using Cons.prems by (intro Cons.IH) simp_all
  have "(k, v) \<in> set (token_claim_set c now i e a m)" using Cons.prems(2) by (simp add: kv)
  then consider "k = ''email''" "v = jstring e" | "k = ''action''" "v = jstring a" | "k \<noteq> ''email''" "find_field token_fields k = None"
    using token_field_names by (auto simp: token_claim_set_def split: if_splits)
  then show ?case
  proof cases
    case 1
    with Cons.prems(1) have "''email'' \<notin> fst ` set kvs" by (auto simp: kv)
    with ih [of "d\<lparr> tk_email := e \<rparr>"] show ?thesis using 1 assms(3) by (simp add: kv token_field_hits lenient_def)
  next
    case 2
    with ih [of "d\<lparr> tk_action := a \<rparr>"] assms(4) show ?thesis
      by (cases "''email'' \<in> fst ` set kvs") (simp_all add: kv token_field_hits lenient_def)
  next
    case 3
    with ih [of d] show ?thesis by (simp add: kv)
  qed
qed simp

text \<open>What the stub reads from a token the client signed.\<close>

lemma stub_reads_email:
  assumes "compact_jws net (pc_key c)" "create_token net c now i e a m = Inr token" "valid_utf8 e" "valid_utf8 a"
    and "rq_headers r ''Authorization'' = Some (''Bearer '' @ token)"
  shows "tk_email (claims_from_request r) = e"
proof -
  let ?cl = "token_claim_set c now i e a m"
  obtain h kvs s where t: "pn_sign net (pc_key c) ?cl = Inr (h @ ''.'' @ b64_encode RawURLEncoding (print_json (jobject kvs)) @ ''.'' @ s)"
    and d: "CHR ''.'' \<notin> set h" "CHR ''.'' \<notin> set s" and k: "set kvs = set ?cl" "distinct (map fst kvs)"
    using assms(1) token_claims_distinct unfolding compact_jws_def by blast
  have token: "token = h @ ''.'' @ b64_encode RawURLEncoding (print_json (jobject kvs)) @ ''.'' @ s"
    using assms(2) t by (simp add: create_token_def)
  have parts: "split_on (CHR ''.'') token = [h, b64_encode RawURLEncoding (print_json (jobject kvs)), s]"
    using d by (simp add: token split_on_append split_on_absent)
  have valid: "\<forall>(k, v) \<in> set kvs. valid_utf8 k \<and> good_json v \<and> json_depth v = 0"
  proof -
    have "list_all valid_utf8 [''iss'', ''aud'', ''iat'', ''exp'', ''action'', ''share_id'', ''email'', ''ip'', ''xff'']" by code_simp
    then show ?thesis unfolding k(1) by (auto simp: token_claim_set_def split: if_splits)
  qed
  obtain d' where d': "decode_plain token_fields kvs no_token_claims = Some d'"
    "tk_email d' = (if ''email'' \<in> fst ` set kvs then e else [])"
    using decode_claims [OF k(2) _ assms(3,4), of c now i m no_token_claims] k(1) by (auto simp: no_token_claims_def)
  have "''email'' \<in> fst ` set kvs \<longleftrightarrow> e \<noteq> []" unfolding k(1) by (auto simp: token_claim_set_def)
  then have "tk_email d' = e" using d'(2) by auto
  moreover have "claims_from_request r = d'"
    unfolding claims_from_request_def header_get_def assms(5) option.case trim_prefix_append parts
    by (simp add: unmarshal_printed [OF valid] d'(1))
  ultimately show ?thesis by simp
qed

subsection \<open>Routing\<close>

lemma clean_elements_id:
  "list_all clean_element es \<Longrightarrow> clean_elements r st es = rev st @ es"
  by (induction es arbitrary: st) (simp_all add: clean_element_def)

lemma clean_path_join:
  assumes "es \<noteq> []" "list_all clean_element es"
  shows "clean_path (CHR ''/'' # join es ''/'') = CHR ''/'' # join es ''/''"
    and "mux_segments (CHR ''/'' # join es ''/'') = map path_unescape es"
proof -
  let ?p = "CHR ''/'' # join es ''/''"
  have sp: "split_on (CHR ''/'') (join es ''/'') = es"
    using assms by (intro split_join_absent) (auto simp: list_all_iff clean_element_def)
  have l: "last es \<noteq> []" using assms by (auto simp: list_all_iff clean_element_def)
  have pc: "path_clean ?p = ?p"
    by (simp add: path_clean_def sp clean_elements_id [OF assms(2)])
  have "join es ''/'' \<noteq> [] \<and> last (join es ''/'') \<noteq> CHR ''/''"
    using last_split_on [of "CHR ''/''" "join es ''/''"] sp l by auto
  then have "\<not> has_suffix ?p ''/''" by (simp add: has_suffix_slash)
  then show "clean_path ?p = ?p" by (simp add: clean_path_def pc Let_def)
  have "map path_unescape es = map path_unescape (butlast es) @ [path_unescape (last es)]"
    using assms(1) by (metis append_butlast_last_id list.simps(8,9) map_append)
  then show "mux_segments ?p = map path_unescape es" by (simp add: mux_segments_def sp l Let_def)
qed

lemma unescape_path_segment: "url_unescape EncPath s = url_unescape EncPathSegment s"
  by (induction EncPath s rule: url_unescape.induct) (auto simp: url_unescape.simps(2) split: list.split)

lemma unescape_path_escape: "url_unescape EncPath (path_escape i @ s) = map_option ((@) i) (url_unescape EncPath s)"
proof (induction i)
  case (Cons c i)
  then show ?case
    unfolding unescape_path_segment
    by (simp add: path_escape_def url_escape_Cons unescape_escape_char option.map_comp comp_def)
qed (simp add: path_escape_def option.map_ident)

text \<open>An identifier that stands for itself as one segment of a path.\<close>

definition plain_id :: "string \<Rightarrow> bool" where
  "plain_id i \<longleftrightarrow> i \<noteq> [] \<and> i \<noteq> ''.'' \<and> i \<noteq> ''..'' \<and> i \<noteq> ''/''"

lemma path_unescape_escape [simp]: "path_unescape (path_escape i) = i"
  by (simp add: path_unescape_def path_escape_def)

lemma path_escape_clean: "plain_id i \<Longrightarrow> clean_element (path_escape i)"
proof -
  assume i: "plain_id i"
  have inj: "path_escape i = path_escape j \<longleftrightarrow> i = j" for j
    unfolding path_escape_def by (rule url_escape_inject) simp
  have "path_escape ''.'' = ''.''" "path_escape ''..'' = ''..''" "path_escape [] = []" by code_simp+
  then have "path_escape i \<noteq> []" "path_escape i \<noteq> ''.''" "path_escape i \<noteq> ''..''"
    using i inj [of "''.''"] inj [of "''..''"] inj [of "[]"] by (simp_all add: plain_id_def)
  moreover have "CHR ''/'' \<notin> set (path_escape i)" using path_escape_no_delims [of _ i] by (auto simp: segment_delims_def)
  ultimately show ?thesis by (simp add: clean_element_def)
qed


lemma stub_patterns:
  "pattern_of ''GET /api/v1/health'' = (Some ''GET'', map SLit [''api'', ''v1'', ''health''])"
  "pattern_of ''GET /api/v1/shares'' = (Some ''GET'', map SLit [''api'', ''v1'', ''shares''])"
  "pattern_of ''GET /api/v1/shares/{id}/content'' = (Some ''GET'', map SLit [''api'', ''v1'', ''shares''] @ [SWild ''id'', SLit ''content''])"
  "pattern_of ''GET /api/v1/shares/{id}/folder'' = (Some ''GET'', map SLit [''api'', ''v1'', ''shares''] @ [SWild ''id'', SLit ''folder''])"
  "pattern_of ''GET /api/v1/shares/{id}/folder/{fileID}/content''
     = (Some ''GET'', map SLit [''api'', ''v1'', ''shares''] @ [SWild ''id'', SLit ''folder'', SWild ''fileID'', SLit ''content''])"
  "pattern_of ''POST /api/v1/shares/{id}/upload'' = (Some ''POST'', map SLit [''api'', ''v1'', ''shares''] @ [SWild ''id'', SLit ''upload''])"
  "pattern_of ''POST /_seed'' = (Some ''POST'', [SLit ''_seed''])"
  by code_simp+

lemmas stub_table = stub_routes_def [unfolded stub_patterns [THEN third_route]]

text \<open>The path of a list of names, each escaped as one segment.\<close>

definition segment_path :: "string list \<Rightarrow> string" where
  "segment_path ids = CHR ''/'' # join (map path_escape ids) ''/''"

lemma join_bytes: "c \<in> set (join ts sep) \<Longrightarrow> c \<in> set sep \<or> (\<exists>t \<in> set ts. c \<in> set t)"
  using set_join [of ts sep] by auto

lemma path_escape_bytes:
  assumes "c \<in> set (path_escape i)"
  shows "c \<noteq> CHR ''?'' \<and> c \<noteq> CHR ''#'' \<and> c \<noteq> CHR ''/'' \<and> \<not> is_ctl c \<and> (c = CHR ''%'' \<or> \<not> should_escape EncPath c)"
  using path_escape_no_delims [OF assms] url_escape_no_ctl [of c EncPathSegment i] url_escape_bytes [of c EncPathSegment i]
    alnum_unescaped [of c EncPath] assms
  by (auto simp: segment_delims_def path_escape_def should_escape_def split: if_splits)

lemma unescape_segments: "url_unescape EncPath (join (map path_escape ids) ''/'') = Some (join ids ''/'')"
proof (induction ids)
  case (Cons i ids)
  then show ?case
    using unescape_path_escape [of i "[]"]
    by (cases ids) (simp_all add: unescape_path_escape url_unescape.simps(2))
qed simp

lemma segment_path_parts:
  assumes "ids \<noteq> []" "\<forall>i \<in> set ids. plain_id i"
  shows "plain_path (segment_path ids)" "url_unescape EncPath (segment_path ids) = Some (CHR ''/'' # join ids ''/'')"
    "clean_path (segment_path ids) = segment_path ids" "mux_segments (segment_path ids) = ids"
proof -
  have c: "map path_escape ids \<noteq> []" "list_all clean_element (map path_escape ids)"
    using assms path_escape_clean by (auto simp: list_all_iff)
  note q = clean_path_join [OF c]
  show "clean_path (segment_path ids) = segment_path ids" "mux_segments (segment_path ids) = ids"
    unfolding segment_path_def using q by (simp_all add: comp_def)
  show "url_unescape EncPath (segment_path ids) = Some (CHR ''/'' # join ids ''/'')"
    by (simp add: segment_path_def url_unescape.simps(2) unescape_segments)
  have b: "c \<noteq> CHR ''?'' \<and> c \<noteq> CHR ''#'' \<and> \<not> is_ctl c \<and> (c \<in> {CHR ''/'', CHR ''%''} \<or> \<not> should_escape EncPath c)"
    if c: "c \<in> set (segment_path ids)" for c
  proof (cases "c = CHR ''/''")
    case True
    moreover have "\<not> is_ctl (CHR ''/'')" by code_simp
    ultimately show ?thesis by simp
  next
    case False
    then obtain i where "c \<in> set (path_escape i)"
      using c join_bytes [of c "map path_escape ids" "''/''"] by (auto simp: segment_path_def)
    from path_escape_bytes [OF this] show ?thesis by blast
  qed
  obtain i is' where i: "ids = i # is'" using assms(1) by (cases ids) auto
  then have "clean_element (path_escape i)" using assms(2) path_escape_clean by simp
  then obtain x xs where x: "path_escape i = x # xs" "x \<noteq> CHR ''/''" by (cases "path_escape i") (auto simp: clean_element_def)
  then have "\<not> has_prefix (segment_path ids) ''//''"
    by (cases is') (simp_all add: segment_path_def i)
  moreover have m: "c \<in> set valid_encoded_marks \<or> \<not> should_escape EncPath c" if c: "c \<in> set (segment_path ids)" for c
  proof -
    have "\<not> should_escape EncPath (CHR ''/'')" "CHR ''%'' \<in> set valid_encoded_marks" by code_simp+
    then show ?thesis using b [OF c] by auto
  qed
  then have "valid_encoded EncPath (segment_path ids)" by (simp add: valid_encoded_def list_all_iff)
  moreover have "has_prefix (segment_path ids) ''/''" by (simp add: segment_path_def)
  moreover have "\<forall>c \<in> set (segment_path ids). c \<noteq> CHR ''?'' \<and> c \<noteq> CHR ''#'' \<and> \<not> is_ctl c" using b by blast
  ultimately show "plain_path (segment_path ids)" unfolding plain_path_def by blast
qed

lemma contract_names: "path_escape ''api'' = ''api''" "path_escape ''v1'' = ''v1''" "path_escape ''shares'' = ''shares''"
  "path_escape ''content'' = ''content''" "path_escape ''folder'' = ''folder''" "path_escape ''upload'' = ''upload''"
  "list_all plain_id [''api'', ''v1'', ''shares'', ''content'', ''folder'', ''upload'']"
  by code_simp+

lemma contract_paths:
  "''/api/v1/shares'' = segment_path [''api'', ''v1'', ''shares'']"
  "share_path i @ ''/content'' = segment_path [''api'', ''v1'', ''shares'', i, ''content'']"
  "share_path i @ ''/folder'' = segment_path [''api'', ''v1'', ''shares'', i, ''folder'']"
  "share_path i @ ''/folder/'' @ path_escape f @ ''/content'' = segment_path [''api'', ''v1'', ''shares'', i, ''folder'', f, ''content'']"
  "share_path i @ ''/upload'' = segment_path [''api'', ''v1'', ''shares'', i, ''upload'']"
  by (simp_all add: segment_path_def share_path_def contract_names)

lemma contract_ids:
  "[''api'', ''v1'', ''shares''] \<noteq> []" "\<forall>x \<in> set [''api'', ''v1'', ''shares'']. plain_id x"
  "plain_id i \<Longrightarrow> \<forall>x \<in> set [''api'', ''v1'', ''shares'', i, ''content'']. plain_id x"
  "plain_id i \<Longrightarrow> \<forall>x \<in> set [''api'', ''v1'', ''shares'', i, ''folder'']. plain_id x"
  "plain_id i \<Longrightarrow> plain_id f \<Longrightarrow> \<forall>x \<in> set [''api'', ''v1'', ''shares'', i, ''folder'', f, ''content'']. plain_id x"
  "plain_id i \<Longrightarrow> \<forall>x \<in> set [''api'', ''v1'', ''shares'', i, ''upload'']. plain_id x"
  using contract_names(7) by simp_all

lemma plain_id_slash: "plain_id i \<Longrightarrow> i \<noteq> ''/''"
  by (simp add: plain_id_def)

text \<open>The routes of the contract used below.\<close>

lemma stub_matches:
  "mux_segments p = [''api'', ''v1'', ''shares''] \<Longrightarrow> mux_match (stub_routes now) ''GET'' p
     = Some ((Some ''GET'', map SLit [''api'', ''v1'', ''shares''], handle_shares), [])"
  "mux_segments p = [''api'', ''v1'', ''shares'', i, ''content''] \<Longrightarrow> i \<noteq> ''/'' \<Longrightarrow> mux_match (stub_routes now) ''GET'' p
     = Some ((Some ''GET'', map SLit [''api'', ''v1'', ''shares''] @ [SWild ''id'', SLit ''content''], handle_content), [i])"
  "mux_segments p = [''api'', ''v1'', ''shares'', i, ''folder''] \<Longrightarrow> i \<noteq> ''/'' \<Longrightarrow> mux_match (stub_routes now) ''GET'' p
     = Some ((Some ''GET'', map SLit [''api'', ''v1'', ''shares''] @ [SWild ''id'', SLit ''folder''], handle_folder), [i])"
  "mux_segments p = [''api'', ''v1'', ''shares'', i, ''folder'', f, ''content''] \<Longrightarrow> i \<noteq> ''/'' \<Longrightarrow> f \<noteq> ''/'' \<Longrightarrow>
     mux_match (stub_routes now) ''GET'' p
     = Some ((Some ''GET'', map SLit [''api'', ''v1'', ''shares''] @ [SWild ''id'', SLit ''folder'', SWild ''fileID'', SLit ''content''],
         handle_folder_file), [i, f])"
  "mux_segments p = [''api'', ''v1'', ''shares'', i, ''upload''] \<Longrightarrow> i \<noteq> ''/'' \<Longrightarrow> mux_match (stub_routes now) ''POST'' p
     = Some ((Some ''POST'', map SLit [''api'', ''v1'', ''shares''] @ [SWild ''id'', SLit ''upload''], handle_stub_upload), [i])"
  by (simp_all add: mux_match_def stub_table of_method_def lits_def wilds_def ended_def or_else_def)

subsection \<open>Calls that reach the stub\<close>

text \<open>A client and a stub that hear each other: the address is the stub's, the tokens are compact.\<close>

definition joined :: "provider_net \<Rightarrow> provider_client \<Rightarrow> instant \<Rightarrow> stub_store \<Rightarrow> bool" where
  "joined net c now st \<longleftrightarrow> pn_transport net = stub_transport now st \<and> compact_jws net (pc_key c)
     \<and> (\<exists>h. listen_addr h \<and> pc_base_url c = ''http://'' @ h)"

lemma query_tail_Nil [simp]: "query_tail [] = []" and plain_query_Nil: "plain_query []"
  by (simp_all add: query_tail_def plain_query_def)

text \<open>The query of a path inside a folder.\<close>

definition path_query :: "string \<Rightarrow> string" where
  "path_query path = (if path = [] then [] else join (map encode_pair [(''path'', path)]) ''&'')"

lemma with_path_query: "with_path p path = p @ query_tail (path_query path)"
proof -
  have "query_escape ''path'' = ''path''" by code_simp
  then show ?thesis by (simp add: with_path_def query_tail_def path_query_def encode_pair_def)
qed

lemma path_query_get: "query_get (path_query path) ''path'' = path"
proof (cases "path = []")
  case True
  have "query_get [] ''path'' = []" by code_simp
  with True show ?thesis by (simp add: path_query_def)
next
  case False
  then have "query_values (path_query path) = [(''path'', path)]"
    unfolding path_query_def using query_values_join [of "[(''path'', path)]"] by simp
  then show ?thesis by (simp add: query_get_def)
qed

lemma path_query_plain: "plain_query (path_query path)"
proof -
  have "query_escape ''path'' = ''path''" by code_simp
  moreover have "list_all (\<lambda>c. c \<noteq> CHR ''#'' \<and> \<not> is_ctl c) ''path=''" by code_simp
  moreover have "c \<noteq> CHR ''#'' \<and> \<not> is_ctl c" if "c \<in> set (query_escape path)" for c
    using that query_escape_no_delims [OF that] url_escape_no_ctl [of c EncQueryComponent path]
    by (auto simp: query_delims_def query_escape_def)
  ultimately show ?thesis by (auto simp: plain_query_def path_query_def encode_pair_def)
qed

text \<open>The headers of a request: the token, and what the operation adds.\<close>

definition sent_headers :: "string \<Rightarrow> (string \<times> string) list \<Rightarrow> string header_map" where
  "sent_headers token headers = og_header (build_request undefined 0 [] [] token no_body headers)"

lemma sent_headers_build: "og_header (build_request c t meth p token body headers) = sent_headers token headers"
  by (simp add: sent_headers_def build_request_def)

text \<open>What the client makes of a reply of the stub, or of a body that broke off.\<close>

definition client_reads :: "outgoing \<Rightarrow> string \<Rightarrow> writer \<Rightarrow> go_error + reply" where
  "client_reads q path v = (case og_body_error q of
      Some e \<Rightarrow> Inl (Wrap (''call provider '' @ og_method q @ '' '' @ path @ '': '') (Wrap ''send: '' e []) [])
    | None \<Rightarrow> if 200 \<le> status_of v \<and> status_of v < 300 then Inr (wire_reply q v) else Inl (map_error_status (status_of v)))"

lemma stub_answers:
  fixes hd1 :: "gw_request \<Rightarrow> stub_store \<times> writer \<Rightarrow> stub_store \<times> writer"
  assumes j: "joined net c snow st" and e: "valid_utf8 email" "valid_utf8 action"
    and ids: "ids \<noteq> []" "\<forall>i \<in> set ids. plain_id i" and qs: "plain_query qs"
    and m: "mux_match (stub_routes snow) meth (segment_path ids) = Some ((m0, segs, hd1), vals)" "last segs \<noteq> SSub"
    and hs: "''Authorization'' \<notin> set (map fst headers)"
  obtains r q st' v token where "tk_email (claims_from_request r) = email" "rq_path_values r = path_values segs vals"
    "u_raw_query (rq_url r) = qs" "rq_body r = fst body" "rq_body_error r = snd body" "rq_headers r = sent_headers token headers"
    "hd1 r (st, new_writer) = (st', v)" "stub_after snow [q] st = st'" "og_body q = fst body" "og_body_error q = snd body"
    "og_method q = meth"
    "provider_request net c now ctx timeout meth (segment_path ids @ query_tail qs) i email action body headers w
     = (client_reads q (segment_path ids @ query_tail qs) v, record_sent q w)"
proof -
  obtain h where h: "listen_addr h" "pc_base_url c = ''http://'' @ h" using j by (auto simp: joined_def)
  have js: "compact_jws net (pc_key c)" and tr: "pn_transport net = stub_transport snow st" using j by (auto simp: joined_def)
  let ?claims = "token_claim_set c now i email action (meta_from_context ctx)"
  from js token_claims_distinct obtain token where "pn_sign net (pc_key c) ?claims = Inr token" unfolding compact_jws_def by blast
  then have token: "create_token net c now i email action (meta_from_context ctx) = Inr token" by (simp add: create_token_def)
  let ?p = "segment_path ids" and ?path = "CHR ''/'' # join ids ''/''"
  note p = segment_path_parts(1-3) [OF ids]
  define q where "q = build_request c timeout meth (?p @ query_tail qs) token body headers"
  define r where "r = (gw_get [])\<lparr> rq_method := og_method q, rq_url := path_url ?p ?path qs, rq_headers := og_header q,
      rq_body := og_body q, rq_body_error := og_body_error q \<rparr>"
  let ?r' = "r\<lparr> rq_path_values := path_values segs vals \<rparr>"
  have url: "og_url q = ''http://'' @ h @ ?p @ query_tail qs" by (simp add: q_def h(2))
  note wr = wire_request_path [OF h(1) p(1,2) qs url, folded r_def]
  have hq: "og_header q = sent_headers token headers" by (simp add: q_def sent_headers_build)
  have "rq_headers ?r' ''Authorization'' = Some (''Bearer '' @ token)"
    using build_request_header [OF hs] by (simp add: r_def q_def)
  note email = stub_reads_email [OF js token e this]
  obtain st' v where hd: "hd1 ?r' (st, new_writer) = (st', v)" by fastforce
  have up: "escaped_path (rq_url r) = ?p" using escaped_path_url [OF p(1,2)] by (simp add: r_def)
  have ns: "u_path (rq_url r) \<noteq> ''*''" by (simp add: r_def)
  have mm: "mux_match (stub_routes snow) (rq_method r) ?p = Some ((m0, segs, hd1), vals)"
    using m(1) by (simp add: r_def q_def)
  have serve: "stub_serve snow r (st, new_writer) = (st', v)"
    unfolding stub_serve_def fst_conv snd_conv by (rule trans [OF serve_routed [OF up p(3) ns mm m(2)] hd])
  have after: "stub_after snow [q] st = st'" by (simp add: stub_after_def wr serve)
  have u: "url_parse (pc_base_url c @ ?p @ query_tail qs) \<noteq> None" using parse_local_url [OF h(1) p(1,2) qs] by (simp add: h(2))
  have wq: "wire_request q = Some r" by (rule wr)
  have qe: "og_body_error q = snd body" by (simp add: q_def)
  have t: "pn_transport net q = (case snd body of Some e \<Rightarrow> Inl (Wrap ''send: '' e []) | None \<Rightarrow> Inr (wire_reply q v))"
    by (cases "snd body") (simp_all add: tr stub_transport_def wq serve qe)
  have req: "provider_request net c now ctx timeout meth (?p @ query_tail qs) i email action body headers w
     = (client_reads q (?p @ query_tail qs) v, record_sent q w)"
  proof (cases "snd body")
    case None
    with t have "pn_transport net q = Inr (wire_reply q v)" by simp
    from provider_request_answered [OF token u this [unfolded q_def], of w] None show ?thesis
      by (simp add: wire_reply_def q_def client_reads_def)
  next
    case (Some e)
    obtain x where "url_parse (pc_base_url c @ ?p @ query_tail qs) = Some x" using u by blast
    with Some t show ?thesis
      by (simp add: provider_request_def token Let_def q_def [symmetric] client_reads_def qe) (simp add: q_def)
  qed
  show thesis by (rule that [OF email _ _ _ _ _ hd after _ qe _ req]) (simp_all add: r_def q_def sent_headers_build)
qed

text \<open>A request without a body.\<close>

lemma stub_answers_get:
  fixes hd1 :: "gw_request \<Rightarrow> stub_store \<times> writer \<Rightarrow> stub_store \<times> writer"
  assumes "joined net c snow st" "valid_utf8 email" "valid_utf8 action" "ids \<noteq> []" "\<forall>i \<in> set ids. plain_id i" "plain_query qs"
    "mux_match (stub_routes snow) ''GET'' (segment_path ids) = Some ((m0, segs, hd1), vals)" "last segs \<noteq> SSub"
  obtains r q st' v where "tk_email (claims_from_request r) = email" "rq_path_values r = path_values segs vals"
    "u_raw_query (rq_url r) = qs" "hd1 r (st, new_writer) = (st', v)" "stub_after snow [q] st = st'"
    "provider_request net c now ctx timeout ''GET'' (segment_path ids @ query_tail qs) i email action no_body [] w
     = (if 200 \<le> status_of v \<and> status_of v < 300 then Inr (wire_reply q v) else Inl (map_error_status (status_of v)), record_sent q w)"
proof -
  have hs: "''Authorization'' \<notin> set (map fst [])" by simp
  obtain r q st' v token where a: "tk_email (claims_from_request r) = email" "rq_path_values r = path_values segs vals"
    "u_raw_query (rq_url r) = qs" "hd1 r (st, new_writer) = (st', v)" "stub_after snow [q] st = st'" "og_body_error q = snd no_body" "og_method q = ''GET''"
    "provider_request net c now ctx timeout ''GET'' (segment_path ids @ query_tail qs) i email action no_body [] w
     = (client_reads q (segment_path ids @ query_tail qs) v, record_sent q w)"
    by (rule stub_answers [OF assms hs])
  show thesis by (rule that [OF a(1-5)]) (simp add: a(8), simp add: client_reads_def a(6) no_body_def)
qed

end
