(* ===== verification/Stub_Client.thy ===== *)
theory Stub_Client
  imports Stub_Wire
begin

section \<open>The provider client over the stub provider\<close>

text \<open>
  The operations of the client of \<open>internal/provider\<close>, answered by the stub of \<open>cmd/atrium-e2e\<close> over the
  wire of \<open>Stub_Wire\<close>: listing shares and folders through both ends returns exactly what the store
  holds, a download is the download of the ledger, and an upload puts the body into the folder it names.
\<close>

subsection \<open>Downloads\<close>

text \<open>What the client gets for the content of a share.\<close>

definition served :: "string \<Rightarrow> string \<Rightarrow> content" where
  "served name content =
     \<lparr> ct_body = content, ct_body_error = None, ct_type = ''application/octet-stream'',
       ct_disposition = ''attachment; filename='' @ quote_text name,
       ct_length = (if length content \<le> 2048 then int (length content) else -1) \<rparr>"

definition served_content :: "share_state \<Rightarrow> content" where
  "served_content o1 = served (sh_file_name (ss_share o1)) (ss_content o1)"

lemma content_of_served: "content_of_reply (wire_reply q (serve_file name content new_writer)) = served name content"
  by (simp add: content_of_reply_def wire_reply_def served_def serve_file_def write_body_reply write_header_status
      writer_simps header_get_def new_writer_def)

lemma served_body: "ct_body (served name content) = content"
  by (simp add: served_def)

lemma handle_content_served:
  assumes "handle_content r (st, new_writer) = (st', v)" "status_of v = 200"
  obtains a where "st_shares st (path_value r ''id'') = Some a"
    "v = serve_file (sh_file_name (ss_share (st_objects st a))) (ss_content (st_objects st a)) new_writer"
proof -
  obtain a where m: "may_use st (path_value r ''id'') (tk_email (claims_from_request r)) = Some a"
    using assms by (cases "may_use st (path_value r ''id'') (tk_email (claims_from_request r))")
      (auto simp: handle_content_def authorize_def http_error_status writer_simps)
  have i: "st_shares st (path_value r ''id'') = Some a"
    using m by (simp add: may_use_def find_share_def split: option.splits if_splits)
  obtain res st1 where t: "take_download a st = (res, st1)" by fastforce
  then have v: "v = download_reply res new_writer" using assms(1) m by (simp add: handle_content_def authorize_def)
  have "status_of (download_reply None new_writer) = 410" by (simp add: download_reply_def http_error_status writer_simps)
  with assms(2) v have "res \<noteq> None" by (cases res) simp_all
  with t have "res = Some (sh_file_name (ss_share (st_objects st a)), ss_content (st_objects st a))"
    by (auto simp: take_download_def Let_def split: if_splits)
  with v i that show thesis by (simp add: download_reply_def)
qed

lemma ledger_status: "fst (ledger_download email i l) \<in> {200, 404, 410}"
  by (auto simp: ledger_download_def split: option.split nat.split)

lemma client_download:
  assumes ok: "store_ok st" and j: "joined net c snow st" and e: "valid_utf8 email" and i: "plain_id i"
    and d: "download net c now ctx i email w = (res, w')"
    and s: "stub_after snow (drop (length (w_sent w)) (w_sent w')) st = st'"
    and l: "ledger_download email i (ledger_of st) = (status, l')"
  shows "ledger_of st' = l' \<and> store_ok st' \<and>
    res = (if status = 200 then Inr (served_content (st_objects st (the (st_shares st i))))
           else if status = 410 then Inl err_share_gone else Inl err_share_not_found)"
proof -
  have a: "valid_utf8 ''download''" by code_simp
  note m = stub_matches(2) [OF segment_path_parts(4) [OF _ contract_ids(3) [OF i]] plain_id_slash [OF i]]
  obtain r q st1 v where r: "tk_email (claims_from_request (r :: gw_request)) = email"
      "rq_path_values r = path_values (map SLit [''api'', ''v1'', ''shares''] @ [SWild ''id'', SLit ''content'']) [i]"
    and h: "handle_content r (st, new_writer) = (st1, v)" and after: "stub_after snow [q] st = st1"
    and req: "provider_request net c now ctx (pc_stream_timeout c) ''GET'' (share_path i @ ''/content'') i email ''download'' no_body [] w
      = (if 200 \<le> status_of v \<and> status_of v < 300 then Inr (wire_reply q v) else Inl (map_error_status (status_of v)), record_sent q w)"
    by (rule stub_answers_get [OF j e a _ contract_ids(3) [OF i] plain_query_Nil m, folded contract_paths, unfolded query_tail_Nil append_Nil2]) simp_all
  have pv: "path_value r ''id'' = i" by (simp add: path_value_def r(2) path_values_def header_get_def)
  from handle_content_ledger [OF ok h] have st: "status = status_of v" "l' = ledger_of st1" "store_ok st1"
    by (simp_all add: r(1) pv l)
  have d': "res = map_sum id content_of_reply (if 200 \<le> status_of v \<and> status_of v < 300 then Inr (wire_reply q v)
      else Inl (map_error_status (status_of v)))" "w' = record_sent q w"
    using d by (auto simp: download_def req map_result_def split: if_splits)
  then have "st' = st1" using s after by (simp add: writer_simps)
  moreover have "status \<in> {200, 404, 410}" using ledger_status [of email i "ledger_of st"] by (simp add: l)
  moreover have "res = Inr (served_content (st_objects st (the (st_shares st i))))" if "status = 200"
  proof -
    from that st(1) have v200: "status_of v = 200" by simp
    from handle_content_served [OF h v200] obtain a where "st_shares st i = Some a"
      "v = serve_file (sh_file_name (ss_share (st_objects st a))) (ss_content (st_objects st a)) new_writer"
      unfolding pv by blast
    then show ?thesis using d'(1) v200 content_of_served by (simp add: served_content_def)
  qed
  moreover have "res = Inl (map_error_status status)" if "status \<in> {404, 410}" using d'(1) that st(1) by auto
  ultimately show ?thesis using st by (auto simp: map_error_status_def)
qed

subsection \<open>Listings\<close>

text \<open>The client reads back the time the stub wrote, with its zone.\<close>

lemma zone_of_marshal:
  assumes "marshal_time zone t = Some s"
  shows "zone_of_text s = zone"
proof -
  obtain pre where s: "s = pre @ zone_text zone" and z: "\<bar>zone\<bar> < 24 * 60"
    using assms by (auto simp: marshal_time_def Let_def split: prod.splits if_splits)
  show ?thesis
  proof (cases "zone = 0")
    case True
    then have "has_suffix s ''Z''" by (auto simp: s zone_text_def has_suffix_iff)
    then show ?thesis by (simp add: zone_of_text_def True)
  next
    case False
    then have l: "length (zone_text zone) = 6" by (simp add: zone_text_def fixed_digits_length)
    have "is_digit (last (zone_text zone))"
      using False fixed_digits_are_digits [of 2 "nat \<bar>zone\<bar> mod 60"] fixed_digits_length [of 2 "nat \<bar>zone\<bar> mod 60"]
      by (auto simp: zone_text_def last_append simp del: fixed_digits_length)
    moreover have "last s = last (zone_text zone)" using l by (cases "zone_text zone = []") (simp_all add: s)
    ultimately have "is_digit (last s)" by simp
    then have "\<not> has_suffix s ''Z''" by (auto simp: has_suffix_iff is_digit_def byte_in_def)
    then show ?thesis using get_zone_text [OF z] by (simp add: zone_of_text_def s l)
  qed
qed

lemma stamp_json_time: "json_time zone t = Some v \<Longrightarrow> dec_ptr stamp_value put v s = Some (put (Some (t, zone)) s)"
  using parse_marshal_time zone_of_marshal by (auto simp: json_time_def dec_ptr_def stamp_value_def)

lemma decode_plain_append: "decode_plain fs (xs @ ys) s = Option.bind (decode_plain fs xs s) (decode_plain fs ys)"
  by (induction fs xs s rule: decode_plain.induct) (auto split: option.split Option.bind_split)
lemma share_hits:
  "find_field share_fields ''id'' = Some (dec_string (\<lambda>x s. s\<lparr> sh_id := x \<rparr>))"
  "find_field share_fields ''recipient_email'' = Some (dec_string (\<lambda>x s. s\<lparr> sh_recipient_email := x \<rparr>))"
  "find_field share_fields ''display_name'' = Some (dec_string (\<lambda>x s. s\<lparr> sh_display_name := x \<rparr>))"
  "find_field share_fields ''file_name'' = Some (dec_string (\<lambda>x s. s\<lparr> sh_file_name := x \<rparr>))"
  "find_field share_fields ''size'' = Some (dec_ptr int_value (\<lambda>x s. s\<lparr> sh_size := x \<rparr>))"
  "find_field share_fields ''is_folder'' = Some (dec_bool (\<lambda>x s. s\<lparr> sh_is_folder := x \<rparr>))"
  "find_field share_fields ''mode'' = Some (dec_int (\<lambda>x s. s\<lparr> sh_mode := x \<rparr>))"
  "find_field share_fields ''max_downloads'' = Some (dec_ptr int_value (\<lambda>x s. s\<lparr> sh_max_downloads := x \<rparr>))"
  "find_field share_fields ''download_count'' = Some (dec_int (\<lambda>x s. s\<lparr> sh_download_count := x \<rparr>))"
  "find_field share_fields ''expires_at'' = Some (dec_ptr stamp_value (\<lambda>x s. s\<lparr> sh_expires_at := x \<rparr>))"
  "find_field share_fields ''created_at'' = Some (dec_ptr stamp_value (\<lambda>x s. s\<lparr> sh_created_at := x \<rparr>))"
  by (intro find_field_exact; simp add: share_fields_def)+

text \<open>A share as Go can hold it: text in UTF-8, 64-bit numbers, times of four-digit years.\<close>

definition stamp_ok :: "stamp option \<Rightarrow> bool" where
  "stamp_ok x \<longleftrightarrow> (case x of None \<Rightarrow> True | Some (t, zone) \<Rightarrow> marshal_time zone t \<noteq> None)"

definition int_ok :: "int option \<Rightarrow> bool" where
  "int_ok x \<longleftrightarrow> (case x of None \<Rightarrow> True | Some n \<Rightarrow> in_int64 n)"

definition good_share :: "share \<Rightarrow> bool" where
  "good_share s \<longleftrightarrow> valid_utf8 (sh_id s) \<and> valid_utf8 (sh_recipient_email s) \<and> valid_utf8 (sh_display_name s)
     \<and> valid_utf8 (sh_file_name s) \<and> int_ok (sh_size s) \<and> in_int64 (sh_mode s) \<and> int_ok (sh_max_downloads s)
     \<and> in_int64 (sh_download_count s) \<and> stamp_ok (sh_expires_at s) \<and> stamp_ok (sh_created_at s)"

lemma decode_omit:
  "find_field fs k = Some (dec_string put) \<Longrightarrow> valid_utf8 x \<Longrightarrow>
     decode_plain fs (omit_string k x) s = Some (if x = [] then s else put x s)"
  "find_field fs k = Some (dec_ptr int_value put1) \<Longrightarrow> int_ok n \<Longrightarrow>
     decode_plain fs (omit_int k n) s = Some (case n of None \<Rightarrow> s | Some i \<Rightarrow> put1 (Some i) s)"
  by (auto simp: omit_string_def omit_int_def int_ok_def dec_ptr_def int_value_def jint_def parse_int64_itoa split: option.splits)

lemma decode_omit_time:
  assumes "find_field fs k = Some (dec_ptr stamp_value put)" "omit_time k st = Some l"
  shows "decode_plain fs l s = Some (case st of None \<Rightarrow> s | Some z \<Rightarrow> put (Some z) s)"
proof (cases st)
  case None
  with assms show ?thesis by (simp add: omit_time_def)
next
  case (Some z)
  obtain t zone where z: "z = (t, zone)" by fastforce
  with Some assms obtain j where j: "json_time zone t = Some j" "l = [(k, j)]" by (auto simp: omit_time_def)
  then show ?thesis using Some z by (simp add: assms(1) stamp_json_time)
qed

lemma share_members_parts:
  assumes "share_members s = Some ms"
  obtains expires created where "omit_time ''expires_at'' (sh_expires_at s) = Some expires"
    "omit_time ''created_at'' (sh_created_at s) = Some created"
    "ms = [(''id'', jstring (sh_id s)), (''recipient_email'', jstring (sh_recipient_email s))]
       @ omit_string ''display_name'' (sh_display_name s) @ omit_string ''file_name'' (sh_file_name s)
       @ omit_int ''size'' (sh_size s) @ [(''is_folder'', JBool (sh_is_folder s)), (''mode'', jint (sh_mode s))]
       @ omit_int ''max_downloads'' (sh_max_downloads s) @ [(''download_count'', jint (sh_download_count s))]
       @ expires @ created"
  using assms by (auto simp: share_members_def bind_eq_Some_conv)

lemma share_members_good:
  assumes "share_members s = Some ms"
  shows "\<forall>(k, v) \<in> set ms. valid_utf8 k \<and> good_json v \<and> json_depth v = 0"
proof -
  have k: "list_all valid_utf8 [''id'', ''recipient_email'', ''display_name'', ''file_name'', ''size'', ''is_folder'', ''mode'',
      ''max_downloads'', ''download_count'', ''expires_at'', ''created_at'']" by code_simp
  have o: "\<forall>(k, v) \<in> set l. k = n \<and> good_json v \<and> json_depth v = 0" if "omit_time n st = Some l" for n st l
    using that json_time_good by (auto simp: omit_time_def split: option.splits)
  from share_members_parts [OF assms] obtain expires created
    where t: "omit_time ''expires_at'' (sh_expires_at s) = Some expires" "omit_time ''created_at'' (sh_created_at s) = Some created"
    and ms: "ms = [(''id'', jstring (sh_id s)), (''recipient_email'', jstring (sh_recipient_email s))]
       @ omit_string ''display_name'' (sh_display_name s) @ omit_string ''file_name'' (sh_file_name s)
       @ omit_int ''size'' (sh_size s) @ [(''is_folder'', JBool (sh_is_folder s)), (''mode'', jint (sh_mode s))]
       @ omit_int ''max_downloads'' (sh_max_downloads s) @ [(''download_count'', jint (sh_download_count s))]
       @ expires @ created" .
  show ?thesis
    unfolding ms using o [OF t(1)] o [OF t(2)] k
    by (simp add: ball_Un omit_string_def omit_int_def split: option.split) auto
qed

lemma decode_share_members:
  assumes "share_members s = Some ms" "good_share s"
  shows "decode_plain share_fields ms zero_share = Some s"
proof -
  from share_members_parts [OF assms(1)] obtain expires created
    where t: "omit_time ''expires_at'' (sh_expires_at s) = Some expires" "omit_time ''created_at'' (sh_created_at s) = Some created"
    and ms: "ms = [(''id'', jstring (sh_id s)), (''recipient_email'', jstring (sh_recipient_email s))]
       @ omit_string ''display_name'' (sh_display_name s) @ omit_string ''file_name'' (sh_file_name s)
       @ omit_int ''size'' (sh_size s) @ [(''is_folder'', JBool (sh_is_folder s)), (''mode'', jint (sh_mode s))]
       @ omit_int ''max_downloads'' (sh_max_downloads s) @ [(''download_count'', jint (sh_download_count s))]
       @ expires @ created" .
  note h = share_hits
  note d = decode_omit(1) [OF h(3)] decode_omit(1) [OF h(4)] decode_omit(2) [OF h(5)] decode_omit(2) [OF h(8)]
    decode_omit_time [OF h(10) t(1)] decode_omit_time [OF h(11) t(2)]
  show ?thesis
    unfolding ms using assms(2) [unfolded good_share_def]
    by (elim conjE) (simp add: decode_plain_append d h dec_bool_def, cases s, simp add: zero_share_def split: option.split)
qed

lemma decode_share_json:
  assumes "share_json s = Some j" "good_share s"
  shows "decode_struct share_fields j zero_share = Some s \<and> good_json j \<and> json_depth j = 1"
proof -
  obtain ms where ms: "share_members s = Some ms" "j = jobject ms" using assms(1) by (auto simp: share_json_def)
  note g = share_members_good [OF ms(1)]
  have v: "\<forall>(k, v) \<in> set ms. valid_utf8 k" using g by fastforce
  have "decode_struct share_fields j zero_share = decode_plain share_fields ms zero_share"
    unfolding ms(2) by (simp add: decode_struct_def jobject_def decode_members_escaped [OF v])
  moreover have "good_json j" unfolding ms(2) using g by (fastforce simp: string_literal_json_escape)
  moreover have "json_depth j = Suc 0" unfolding ms(2) using g by (intro depth_jobject_flat) fastforce
  ultimately show ?thesis using decode_share_members [OF ms(1) assms(2)] by simp
qed

lemma share_json_exists: "good_share s \<Longrightarrow> \<exists>j. share_json s = Some j"
  by (auto simp: good_share_def stamp_ok_def share_json_def share_members_def omit_time_def json_time_def split: option.splits)

lemma shares_json:
  assumes "\<forall>s \<in> set ss. good_share s"
  obtains js where "those (map share_json ss) = Some js" "those (map (\<lambda>j. decode_struct share_fields j zero_share) js) = Some ss"
    "\<forall>j \<in> set js. good_json j \<and> json_depth j = 1"
proof -
  have "\<exists>js. those (map share_json ss) = Some js \<and> those (map (\<lambda>j. decode_struct share_fields j zero_share) js) = Some ss
      \<and> (\<forall>j \<in> set js. good_json j \<and> json_depth j = 1)"
    using assms
  proof (induction ss)
    case (Cons s ss)
    then obtain js where js: "those (map share_json ss) = Some js" "those (map (\<lambda>j. decode_struct share_fields j zero_share) js) = Some ss"
      "\<forall>j \<in> set js. good_json j \<and> json_depth j = 1" by auto
    obtain j where j: "share_json s = Some j" using Cons.prems share_json_exists by auto
    then have "decode_struct share_fields j zero_share = Some s \<and> good_json j \<and> json_depth j = 1"
      using Cons.prems by (intro decode_share_json) simp_all
    with js j show ?case by (intro exI [of _ "j # js"]) simp
  qed simp
  with that show thesis by blast
qed

lemma depth_jarr: "\<forall>j \<in> set js. json_depth j = 1 \<Longrightarrow> json_depth (JArr js) \<le> 2"
proof -
  assume a: "\<forall>j \<in> set js. json_depth j = 1"
  have "foldr max (map json_depth js) 0 \<le> 1" using a by (induction js) auto
  then show ?thesis by simp
qed

lemma client_listing:
  assumes j: "joined net c snow st" and e: "valid_utf8 email" and g: "\<forall>s \<in> set (list_for st email). good_share s"
    and l: "list_shares net c now ctx email w = (res, w')"
  shows "res = Inr (list_for st email) \<and> stub_after snow (drop (length (w_sent w)) (w_sent w')) st = st"
proof -
  have a: "valid_utf8 ''list-shares''" by code_simp
  note m = stub_matches(1) [OF segment_path_parts(4) [OF contract_ids(1,2)]]
  obtain r q st1 v where r: "tk_email (claims_from_request (r :: gw_request)) = email"
    and h: "handle_shares r (st, new_writer) = (st1, v)" and after: "stub_after snow [q] st = st1"
    and req: "provider_request net c now ctx (pc_timeout c) ''GET'' ''/api/v1/shares'' [] email ''list-shares'' no_body [] w
      = (if 200 \<le> status_of v \<and> status_of v < 300 then Inr (wire_reply q v) else Inl (map_error_status (status_of v)), record_sent q w)"
    by (rule stub_answers_get [OF j e a contract_ids(1,2) plain_query_Nil m, folded contract_paths, unfolded query_tail_Nil append_Nil2]) simp_all
  obtain js where js: "those (map share_json (list_for st email)) = Some js"
      "those (map (\<lambda>j. decode_struct share_fields j zero_share) js) = Some (list_for st email)"
      "\<forall>j \<in> set js. good_json j \<and> json_depth j = 1"
    by (rule shares_json [OF g])
  have v: "st1 = st" "v = encode_json (JArr js) (w_set ''Content-Type'' ''application/json'' new_writer)"
    using h by (simp_all add: handle_shares_def r js(1) stub_write_json_def Let_def)
  have v2: "status_of v = 200" "w_body v = print_json (JArr js) @ newline"
    by (simp_all add: v(2) encode_json_def write_body_reply reply_uncommitted writer_simps new_writer_def)
  have nl: "lex newline = Some []" "\<not> number_byte (hd newline)" by code_simp+
  have "json_depth (JArr js) \<le> max_nesting" using depth_jarr [of js] js(3) by (simp add: max_nesting_def)
  then have "parse_json (print_json (JArr js) @ newline) = Some (JArr js)"
    using js(3) nl by (intro parse_print_json_then) simp_all
  then have d: "decode_first (rp_body (wire_reply q v)) = Some (JArr js)"
    using decode_first_document by (simp add: wire_reply_def v2)
  have "(res, w') = (Inr (list_for st email), record_sent q w)"
    using l by (simp add: list_shares_def provider_do_def req v2(1) d decode_list_def js(2))
  then show ?thesis using after v(1) by (simp add: writer_simps)
qed

subsection \<open>The two ends together\<close>

text \<open>C13: A listing survives the wire.  Whatever shares the stub stores for a recipient, with texts in UTF-8,
  64-bit numbers and times of four-digit years, the client's \<open>ListShares\<close> for that recipient returns exactly
  those shares, field by field, optional fields, time zones and order included, and the store is unchanged.\<close>

theorem listing_survives_the_wire:
  assumes "joined net c snow st" "valid_utf8 email" "\<forall>s \<in> set (list_for st email). good_share s"
    and "list_shares net c now ctx email w = (res, w')"
  shows "res = Inr (list_for st email) \<and> stub_after snow (drop (length (w_sent w)) (w_sent w')) st = st"
  by (rule client_listing [OF assms])

subsection \<open>Examples\<close>

definition joined_client :: provider_client where
  "joined_client = sample_client\<lparr> pc_base_url := ''http://127.0.0.1:9000'' \<rparr>"

definition joined_net :: "stub_store \<Rightarrow> provider_net" where
  "joined_net st = \<lparr> pn_transport = stub_transport 0 st,
     pn_sign = (\<lambda>_ claims. Inr (''h.'' @ b64_encode RawURLEncoding (print_json (jobject claims)) @ ''.s'')) \<rparr>"

lemma fixture_good:
  assumes "marshal_time 0 now \<noteq> None" "marshal_time 0 (now + 48 * hour) \<noteq> None"
  shows "\<forall>x \<in> set (fixture now). good_share (ss_share (snd x))"
proof -
  have v: "list_all valid_utf8 [''file-basic'', ''file-limited'', ''folder-readall'', ''folder-readonly'', ''folder-readown'',
      ''folder-dropzone'', ''file-other'', recipient_email, other_email, ''Quartalsbericht.pdf'', ''Limitiert.pdf'', ''Projekt'',
      ''NurLesen'', ''MeineUploads'', ''Briefkasten'', ''Fremd.pdf'']" by code_simp
  have n: "list_all in_int64 [0, 1, 2, 3, 5, 7, 11, 23]" by code_simp
  show ?thesis
    using v n assms by (simp add: fixture_def fixture_file_def fixture_folder_def Let_def good_share_def zero_share_def int_ok_def stamp_ok_def)
qed

lemma new_store_objects:
  assumes "marshal_time 0 now \<noteq> None" "marshal_time 0 (now + 48 * hour) \<noteq> None" "st_shares (new_store now) i = Some a"
  shows "good_share (ss_share (st_objects (new_store now) a))"
proof -
  obtain k where "k < 7" "a = st_next empty_store + k" using assms(3) by (auto simp: new_store_def seed_shares)
  then have "st_objects (new_store now) a = snd (fixture now ! k)" "fixture now ! k \<in> set (fixture now)"
    by (simp_all add: new_store_def)
  with fixture_good [OF assms(1,2)] show ?thesis by simp
qed

lemma list_for_own: "s \<in> set (list_for st email) \<Longrightarrow> \<exists>i a. st_shares st i = Some a \<and> ss_recipient (st_objects st a) = email \<and> s = ss_share (st_objects st a)"
proof -
  let ?f = "\<lambda>i. case st_shares st i of None \<Rightarrow> None
    | Some a \<Rightarrow> if ss_recipient (st_objects st a) = email then Some (ss_share (st_objects st a)) else None"
  assume "s \<in> set (list_for st email)"
  then obtain i where "?f i \<noteq> None" "s = the (?f i)" by (auto simp: list_for_def List.map_filter_def simp del: not_None_eq)
  then show ?thesis by (cases "st_shares st i") (auto split: if_splits)
qed

text \<open>The times of a store seeded at the epoch.\<close>

lemma epoch_times: "marshal_time 0 0 \<noteq> None" "marshal_time 0 (0 + 48 * hour) \<noteq> None"
proof -
  have "fst (civil_from_days 0) = 1970" "fst (civil_from_days 2) = 1970" by code_simp+
  moreover have "48 * hour div second div 86400 = 2" by (simp add: hour_def minute_def second_def)
  ultimately show "marshal_time 0 0 \<noteq> None" "marshal_time 0 (0 + 48 * hour) \<noteq> None"
    using marshal_time_SomeI [of 0 0] marshal_time_SomeI [of "48 * hour" 0] by auto
qed

lemma sample_joined: "joined (joined_net st) joined_client 0 st"
proof -
  have "listen_addr ''127.0.0.1:9000''" by code_simp
  moreover have "compact_jws (joined_net st) k" for k
    unfolding compact_jws_def by (intro allI impI exI [of _ "''h''"] exI [of _ "''s''"] exI) (simp add: joined_net_def)
  ultimately show ?thesis by (auto simp: joined_def joined_net_def joined_client_def)
qed

lemma listing_survives_the_wire_witness:
  "fst (list_shares (joined_net (new_store 0)) joined_client 0 None recipient_email new_writer) = Inr (list_for (new_store 0) recipient_email)
   \<and> map sh_id (list_for (new_store 0) recipient_email) = butlast listing_order"
proof -
  obtain res w' where l: "list_shares (joined_net (new_store 0)) joined_client 0 None recipient_email new_writer = (res, w')"
    by fastforce
  have u: "valid_utf8 recipient_email" by code_simp
  have g: "\<forall>s \<in> set (list_for (new_store 0) recipient_email). good_share s"
    using list_for_own new_store_objects [OF epoch_times] by blast
  have "map sh_id (list_for (new_store 0) recipient_email) = butlast listing_order" by code_simp
  with listing_survives_the_wire [OF sample_joined u g l] l show ?thesis by simp
qed

end
