(* ===== verification/Stub_Folders.thy ===== *)
theory Stub_Folders
  imports Stub_Client
begin

section \<open>Folders through the provider client\<close>

text \<open>
  The three operations on folder shares, answered by the stub over the wire: a listing is read back
  as the stub holds it, a file of a folder is the one with the identifier, and an upload stores the
  bytes of the body under the decoded name.
\<close>

subsection \<open>Entries on the wire\<close>

definition good_entry :: "folder_entry \<Rightarrow> bool" where
  "good_entry e \<longleftrightarrow> valid_utf8 (fe_id e) \<and> valid_utf8 (fe_name e) \<and> valid_utf8 (fe_mime_type e)
     \<and> int_ok (fe_size e) \<and> stamp_ok (fe_uploaded_at e)"

lemma entry_hits:
  "find_field entry_fields ''id'' = Some (dec_string (\<lambda>x e. e\<lparr> fe_id := x \<rparr>))"
  "find_field entry_fields ''name'' = Some (dec_string (\<lambda>x e. e\<lparr> fe_name := x \<rparr>))"
  "find_field entry_fields ''size'' = Some (dec_ptr int_value (\<lambda>x e. e\<lparr> fe_size := x \<rparr>))"
  "find_field entry_fields ''mime_type'' = Some (dec_string (\<lambda>x e. e\<lparr> fe_mime_type := x \<rparr>))"
  "find_field entry_fields ''is_folder'' = Some (dec_bool (\<lambda>x e. e\<lparr> fe_is_folder := x \<rparr>))"
  "find_field entry_fields ''is_own'' = Some (dec_bool (\<lambda>x e. e\<lparr> fe_is_own := x \<rparr>))"
  "find_field entry_fields ''uploaded_at'' = Some (dec_ptr stamp_value (\<lambda>x e. e\<lparr> fe_uploaded_at := x \<rparr>))"
  by (intro find_field_exact; simp add: entry_fields_def)+

lemma listing_hits:
  "find_field listing_fields ''is_file'' = Some (dec_bool (\<lambda>x l. l\<lparr> fl_is_file := x \<rparr>))"
  "find_field listing_fields ''entries'' = Some (dec_list entry_fields zero_entry (\<lambda>x l. l\<lparr> fl_entries := x \<rparr>))"
  "find_field listing_fields ''entry'' = Some (dec_struct_ptr entry_fields zero_entry fl_entry (\<lambda>x l. l\<lparr> fl_entry := x \<rparr>))"
  by (intro find_field_exact; simp add: listing_fields_def)+

lemma entry_decoded:
  assumes "good_entry e"
  obtains kvs where "entry_json e = Some (jobject kvs)" "decode_struct entry_fields (jobject kvs) zero_entry = Some e"
    "good_json (jobject kvs)" "json_depth (jobject kvs) = 1"
proof -
  obtain up where up: "omit_time ''uploaded_at'' (fe_uploaded_at e) = Some up"
    using assms by (auto simp: good_entry_def stamp_ok_def omit_time_def json_time_def split: option.splits)
  define kvs where "kvs = [(''id'', jstring (fe_id e)), (''name'', jstring (fe_name e))] @ omit_int ''size'' (fe_size e)
      @ omit_string ''mime_type'' (fe_mime_type e)
      @ [(''is_folder'', JBool (fe_is_folder e)), (''is_own'', JBool (fe_is_own e))] @ up"
  have k: "list_all valid_utf8 [''id'', ''name'', ''size'', ''mime_type'', ''is_folder'', ''is_own'', ''uploaded_at'']" by code_simp
  have o: "\<forall>(k, v) \<in> set up. k = ''uploaded_at'' \<and> good_json v \<and> json_depth v = 0"
    using up json_time_good by (auto simp: omit_time_def split: option.splits)
  have g: "\<forall>(k, v) \<in> set kvs. valid_utf8 k \<and> good_json v \<and> json_depth v = 0"
    unfolding kvs_def using o k
    by (simp add: ball_Un omit_string_def omit_int_def split: option.split) auto
  then have v: "\<forall>(k, v) \<in> set kvs. valid_utf8 k" by fastforce
  note d = decode_omit(1) [OF entry_hits(4)] decode_omit(2) [OF entry_hits(3)] decode_omit_time [OF entry_hits(7) up]
  have "decode_plain entry_fields kvs zero_entry = Some e"
    unfolding kvs_def using assms [unfolded good_entry_def]
    by (elim conjE) (simp add: decode_plain_append d entry_hits dec_bool_def, cases e, simp add: zero_entry_def split: option.split)
  then have "decode_struct entry_fields (jobject kvs) zero_entry = Some e"
    by (simp add: decode_struct_def jobject_def decode_members_escaped [OF v])
  moreover have "good_json (jobject kvs)" using g by (fastforce simp: string_literal_json_escape)
  moreover have "json_depth (jobject kvs) = 1" using depth_jobject_flat [of kvs] g by fastforce
  moreover have "entry_json e = Some (jobject kvs)" by (simp add: entry_json_def up kvs_def)
  ultimately show thesis using that by blast
qed

lemma entries_decoded:
  assumes "\<forall>e \<in> set es. good_entry e"
  obtains js where "those (map entry_json es) = Some js" "those (map (\<lambda>j. decode_struct entry_fields j zero_entry) js) = Some es"
    "\<forall>j \<in> set js. good_json j \<and> json_depth j = 1"
proof -
  have "\<exists>js. those (map entry_json es) = Some js \<and> those (map (\<lambda>j. decode_struct entry_fields j zero_entry) js) = Some es
      \<and> (\<forall>j \<in> set js. good_json j \<and> json_depth j = 1)"
    using assms
  proof (induction es)
    case (Cons e es)
    then obtain js where js: "those (map entry_json es) = Some js" "those (map (\<lambda>j. decode_struct entry_fields j zero_entry) js) = Some es"
      "\<forall>j \<in> set js. good_json j \<and> json_depth j = 1" by auto
    have "good_entry e" using Cons.prems by simp
    then obtain kvs where "entry_json e = Some (jobject kvs)" "decode_struct entry_fields (jobject kvs) zero_entry = Some e"
      "good_json (jobject kvs)" "json_depth (jobject kvs) = 1" by (rule entry_decoded)
    with js show ?case by (intro exI [of _ "jobject kvs # js"]) simp
  qed simp
  with that show thesis by blast
qed

text \<open>What the stub says of a path in a folder share.\<close>

definition stub_listing :: "share_state \<Rightarrow> string \<Rightarrow> folder_listing option" where
  "stub_listing o1 path = map_option
     (\<lambda>(target, is_file).
        if is_file then \<lparr> fl_is_file = True, fl_entries = [], fl_entry = Some (nd_entry target) \<rparr>
        else \<lparr> fl_is_file = False, fl_entries = filter_by_mode (nd_children target) (sh_mode (ss_share o1)), fl_entry = None \<rparr>)
     (resolve (ss_root o1) path)"

definition good_listing :: "folder_listing \<Rightarrow> bool" where
  "good_listing l \<longleftrightarrow> (\<forall>e \<in> set (fl_entries l). good_entry e) \<and> (\<forall>e. fl_entry l = Some e \<longrightarrow> good_entry e)"

lemma listing_decoded_object:
  assumes es: "decode_list entry_fields zero_entry jes = Some es" "good_json jes" "json_depth jes \<le> 2"
    and e: "dec_struct_ptr entry_fields zero_entry fl_entry (\<lambda>x l. l\<lparr> fl_entry := x \<rparr>) je
        \<lparr> fl_is_file = b, fl_entries = es, fl_entry = None \<rparr> = Some \<lparr> fl_is_file = b, fl_entries = es, fl_entry = en \<rparr>"
      "good_json je" "json_depth je \<le> 2"
    and j: "j = jobject [(''is_file'', JBool b), (''entries'', jes), (''entry'', je)]"
  shows "decode_struct listing_fields j zero_listing = Some \<lparr> fl_is_file = b, fl_entries = es, fl_entry = en \<rparr>"
    "good_json j" "json_depth j \<le> 3"
proof -
  have k: "valid_utf8 ''is_file''" "valid_utf8 ''entries''" "valid_utf8 ''entry''" by code_simp+
  then have v: "\<forall>(k, v) \<in> set [(''is_file'', JBool b), (''entries'', jes), (''entry'', je)]. valid_utf8 k" by simp
  have "decode_plain listing_fields [(''is_file'', JBool b), (''entries'', jes), (''entry'', je)] zero_listing
      = Some \<lparr> fl_is_file = b, fl_entries = es, fl_entry = en \<rparr>"
    using e(1) by (simp add: listing_hits dec_bool_def dec_list_def es(1) zero_listing_def)
  then show "decode_struct listing_fields j zero_listing = Some \<lparr> fl_is_file = b, fl_entries = es, fl_entry = en \<rparr>"
    unfolding j by (simp only: decode_struct_def jobject_def json.case decode_members_escaped [OF v])
  show "good_json j" unfolding j using k es(2) e(2) by (simp add: string_literal_json_escape)
  show "json_depth j \<le> 3" unfolding j jobject_def using es(3) e(3) by simp
qed

lemma stub_listing_json:
  assumes "stub_listing o1 path = Some l" "good_listing l" "resolve (ss_root o1) path = Some (target, is_file)"
  obtains j where "(if is_file then listing_json True None (Some (nd_entry target))
      else listing_json False (Some (filter_by_mode (nd_children target) (sh_mode (ss_share o1)))) None) = Some j"
    "decode_struct listing_fields j zero_listing = Some l" "good_json j" "json_depth j \<le> 3"
proof (cases is_file)
  case True
  then have l: "l = \<lparr> fl_is_file = True, fl_entries = [], fl_entry = Some (nd_entry target) \<rparr>"
    using assms(1,3) by (simp add: stub_listing_def)
  with assms(2) have "good_entry (nd_entry target)" by (simp add: good_listing_def)
  then obtain kvs where e: "entry_json (nd_entry target) = Some (jobject kvs)"
    "decode_struct entry_fields (jobject kvs) zero_entry = Some (nd_entry target)" "good_json (jobject kvs)" "json_depth (jobject kvs) = 1"
    by (rule entry_decoded)
  let ?j = "jobject [(''is_file'', JBool True), (''entries'', JNull), (''entry'', jobject kvs)]"
  have "decode_struct listing_fields ?j zero_listing = Some l" "good_json ?j" "json_depth ?j \<le> 3"
    unfolding l using e(2-4)
    by (intro listing_decoded_object [OF _ _ _ _ _ _ refl]; simp add: decode_list_def dec_struct_ptr_def jobject_def)+
  with True e(1) that [of ?j] show thesis by (simp add: listing_json_def)
next
  case False
  let ?es = "filter_by_mode (nd_children target) (sh_mode (ss_share o1))"
  from False have l: "l = \<lparr> fl_is_file = False, fl_entries = ?es, fl_entry = None \<rparr>"
    using assms(1,3) by (simp add: stub_listing_def)
  with assms(2) have "\<forall>e \<in> set ?es. good_entry e" by (simp add: good_listing_def)
  then obtain js where js: "those (map entry_json ?es) = Some js" "those (map (\<lambda>j. decode_struct entry_fields j zero_entry) js) = Some ?es"
    "\<forall>j \<in> set js. good_json j \<and> json_depth j = 1" by (rule entries_decoded)
  let ?j = "jobject [(''is_file'', JBool False), (''entries'', JArr js), (''entry'', JNull)]"
  have "decode_struct listing_fields ?j zero_listing = Some l" "good_json ?j" "json_depth ?j \<le> 3"
    unfolding l using js(2,3) depth_jarr [of js]
    by (intro listing_decoded_object [OF _ _ _ _ _ _ refl]; simp add: decode_list_def dec_struct_ptr_def)+
  with False js(1) that [of ?j] show thesis by (simp add: listing_json_def)
qed

subsection \<open>The operations\<close>

lemma client_folder:
  assumes j: "joined net c snow st" and e: "valid_utf8 email" and i: "plain_id i"
    and g: "\<And>a l. may_use st i email = Some a \<Longrightarrow> stub_listing (st_objects st a) path = Some l \<Longrightarrow> good_listing l"
    and l: "list_folder net c now ctx i email path w = (res, w')"
  shows "stub_after snow (drop (length (w_sent w)) (w_sent w')) st = st
    \<and> res = (case Option.bind (may_use st i email) (\<lambda>a. stub_listing (st_objects st a) path) of
        None \<Rightarrow> Inl err_share_not_found
      | Some l \<Rightarrow> Inr l)"
proof -
  have a: "valid_utf8 ''list-folder''" by code_simp
  note m = stub_matches(3) [OF segment_path_parts(4) [OF _ contract_ids(4) [OF i]] plain_id_slash [OF i]]
  obtain r q st1 v where r: "tk_email (claims_from_request (r :: gw_request)) = email"
      "rq_path_values r = path_values (map SLit [''api'', ''v1'', ''shares''] @ [SWild ''id'', SLit ''folder'']) [i]"
      "u_raw_query (rq_url r) = path_query path"
    and h: "handle_folder r (st, new_writer) = (st1, v)" and after: "stub_after snow [q] st = st1"
    and req: "provider_request net c now ctx (pc_timeout c) ''GET'' ((share_path i @ ''/folder'') @ query_tail (path_query path))
        i email ''list-folder'' no_body [] w
      = (if 200 \<le> status_of v \<and> status_of v < 300 then Inr (wire_reply q v) else Inl (map_error_status (status_of v)), record_sent q w)"
    by (rule stub_answers_get [OF j e a _ contract_ids(4) [OF i] path_query_plain m, folded contract_paths]) simp_all
  note req = req [folded with_path_query]
  have pv: "path_value r ''id'' = i" "url_query_get r ''path'' = path"
    by (simp_all add: path_value_def r(2) path_values_def header_get_def url_query_get_def r(3) path_query_get)
  have not_found: "res = Inl err_share_not_found \<and> stub_after snow (drop (length (w_sent w)) (w_sent w')) st = st"
    if "st1 = st" "status_of v = 404"
    using l after that by (auto simp: list_folder_def provider_do_def req map_error_status_def writer_simps)
  show ?thesis
  proof (cases "may_use st i email")
    case None
    then have "st1 = st" "v = http_error ''not found'' 404 new_writer"
      using h by (simp_all add: handle_folder_def authorize_def pv r(1))
    with not_found None show ?thesis by (simp add: http_error_status writer_simps)
  next
    case (Some x)
    note use = Some
    show ?thesis
    proof (cases "resolve (ss_root (st_objects st x)) path")
      case None
      with use have "st1 = st" "v = http_error ''not found'' 404 new_writer"
        using h by (simp_all add: handle_folder_def authorize_def pv r(1))
      moreover have "stub_listing (st_objects st x) path = None" using None by (simp add: stub_listing_def)
      ultimately show ?thesis using not_found use by (simp add: http_error_status writer_simps)
    next
      case (Some t)
      obtain target is_file where t: "t = (target, is_file)" by fastforce
      with Some obtain fl where fl: "stub_listing (st_objects st x) path = Some fl" by (simp add: stub_listing_def)
      obtain js where js: "(if is_file then listing_json True None (Some (nd_entry target))
          else listing_json False (Some (filter_by_mode (nd_children target) (sh_mode (ss_share (st_objects st x))))) None) = Some js"
        "decode_struct listing_fields js zero_listing = Some fl" "good_json js" "json_depth js \<le> 3"
        by (rule stub_listing_json [OF fl g [OF use fl] Some [unfolded t]])
      have v: "st1 = st" "v = encode_json js (w_set ''Content-Type'' ''application/json'' new_writer)"
        using h use by (simp_all add: handle_folder_def authorize_def pv r(1) Some t js(1) stub_write_json_def Let_def)
      have v2: "status_of v = 200" "w_body v = print_json js @ newline"
        by (simp_all add: v(2) encode_json_def write_body_reply reply_uncommitted writer_simps new_writer_def)
      have nl: "lex newline = Some []" "\<not> number_byte (hd newline)" by code_simp+
      have "parse_json (print_json js @ newline) = Some js"
        using js(3,4) nl by (intro parse_print_json_then) (simp_all add: max_nesting_def)
      then have d: "decode_first (rp_body (wire_reply q v)) = Some js"
        using decode_first_document by (simp add: wire_reply_def v2)
      have "(res, w') = (Inr fl, record_sent q w)"
        using l by (simp add: list_folder_def provider_do_def req v2(1) d js(2))
      then show ?thesis using after v(1) use fl by (simp add: writer_simps)
    qed
  qed
qed

text \<open>The file of a folder share with an identifier.\<close>

definition stub_file :: "share_state \<Rightarrow> string \<Rightarrow> node option" where
  "stub_file o1 f = (case ss_root o1 of None \<Rightarrow> None | Some n \<Rightarrow> find_by_id (nd_children n) f)"

lemma client_file:
  assumes j: "joined net c snow st" and e: "valid_utf8 email" and i: "plain_id i" and f: "plain_id f"
    and l: "download_folder_file net c now ctx i f email w = (res, w')"
  shows "stub_after snow (drop (length (w_sent w)) (w_sent w')) st = st
    \<and> res = (case Option.bind (may_use st i email) (\<lambda>a. stub_file (st_objects st a) f) of
        None \<Rightarrow> Inl err_share_not_found
      | Some n \<Rightarrow> Inr (served (fe_name (nd_entry n)) (nd_content n)))"
proof -
  have a: "valid_utf8 ''download-file''" by code_simp
  note m = stub_matches(4) [OF segment_path_parts(4) [OF _ contract_ids(5) [OF i f]] plain_id_slash [OF i] plain_id_slash [OF f]]
  obtain r q st1 v where r: "tk_email (claims_from_request (r :: gw_request)) = email"
      "rq_path_values r = path_values (map SLit [''api'', ''v1'', ''shares''] @ [SWild ''id'', SLit ''folder'', SWild ''fileID'', SLit ''content'']) [i, f]"
    and h: "handle_folder_file r (st, new_writer) = (st1, v)" and after: "stub_after snow [q] st = st1"
    and req: "provider_request net c now ctx (pc_stream_timeout c) ''GET'' (share_path i @ ''/folder/'' @ path_escape f @ ''/content'')
        i email ''download-file'' no_body [] w
      = (if 200 \<le> status_of v \<and> status_of v < 300 then Inr (wire_reply q v) else Inl (map_error_status (status_of v)), record_sent q w)"
    by (rule stub_answers_get [OF j e a _ contract_ids(5) [OF i f] plain_query_Nil m, folded contract_paths, unfolded query_tail_Nil append_Nil2])
      simp_all
  have pv: "path_value r ''id'' = i" "path_value r ''fileID'' = f"
    by (simp_all add: path_value_def r(2) path_values_def header_get_def)
  have v: "st1 = st" "v = (case Option.bind (may_use st i email) (\<lambda>a. stub_file (st_objects st a) f) of
        None \<Rightarrow> http_error ''not found'' 404 new_writer
      | Some n \<Rightarrow> serve_file (fe_name (nd_entry n)) (nd_content n) new_writer)"
    using h by (auto simp: handle_folder_file_def authorize_def pv r(1) stub_file_def split: option.splits)
  have "(res, w') = (map_sum id content_of_reply (if 200 \<le> status_of v \<and> status_of v < 300 then Inr (wire_reply q v)
      else Inl (map_error_status (status_of v))), record_sent q w)"
    using l unfolding download_folder_file_def req by (auto simp: map_result_def split: if_splits)
  then show ?thesis
    using after v by (auto simp: writer_simps http_error_status serve_file_status map_error_status_def content_of_served split: option.split)
qed

text \<open>What the stub does with an upload: the client's result and the next store.\<close>

definition decoded_name :: "string \<Rightarrow> string" where
  "decoded_name f = (case url_unescape EncQueryComponent f of Some n \<Rightarrow> n | None \<Rightarrow> f)"

definition stub_takes :: "stub_store \<Rightarrow> string \<Rightarrow> string \<Rightarrow> string \<Rightarrow> string \<Rightarrow> string \<Rightarrow> nat \<times> stub_store" where
  "stub_takes st i email f path body = (case may_use st i email of
      None \<Rightarrow> (404, st)
    | Some a \<Rightarrow>
        if sh_mode (ss_share (st_objects st a)) = 0 then (403, st)
        else case store_upload a path (decoded_name f) body st of (False, st') \<Rightarrow> (404, st') | (True, st') \<Rightarrow> (201, st'))"

lemma client_upload:
  assumes j: "joined net c snow st" and e: "valid_utf8 email" and i: "plain_id i"
    and u: "upload net c now ctx i email f ctype path (body, be) w = (res, w')"
    and t: "stub_takes st i email f path body = (status, st')"
  shows "stub_after snow (drop (length (w_sent w)) (w_sent w')) st = (if be = None then st' else st)
    \<and> w' = record_sent (hd (drop (length (w_sent w)) (w_sent w'))) w
    \<and> res = (case be of
        None \<Rightarrow> if status = 201 then Inr (length body) else Inl (map_error_status status)
      | Some x \<Rightarrow> Inl (Wrap (''call provider POST '' @ with_path (share_path i @ ''/upload'') path @ '': '') (Wrap ''send: '' x []) []))"
proof -
  have a: "valid_utf8 ''upload''" by code_simp
  let ?hs = "[(''Content-Type'', ctype), (''X-Atrium-Filename'', f)]"
  have hs: "''Authorization'' \<notin> set (map fst ?hs)" by simp
  note m = stub_matches(5) [OF segment_path_parts(4) [OF _ contract_ids(6) [OF i]] plain_id_slash [OF i]]
  obtain r q st1 v token where r: "tk_email (claims_from_request (r :: gw_request)) = email"
      "rq_path_values r = path_values (map SLit [''api'', ''v1'', ''shares''] @ [SWild ''id'', SLit ''upload'']) [i]"
      "u_raw_query (rq_url r) = path_query path" "rq_body r = fst (body, be)" "rq_body_error r = snd (body, be)"
      "rq_headers r = sent_headers token ?hs"
    and h: "handle_stub_upload r (st, new_writer) = (st1, v)" and after: "stub_after snow [q] st = st1"
    and q: "og_body q = fst (body, be)" "og_body_error q = snd (body, be)" and mq: "og_method q = ''POST''"
    and req: "provider_request net c now ctx (pc_stream_timeout c) ''POST'' ((share_path i @ ''/upload'') @ query_tail (path_query path))
        i email ''upload'' (body, be) ?hs w
      = (client_reads q ((share_path i @ ''/upload'') @ query_tail (path_query path)) v, record_sent q w)"
    by (rule stub_answers [where body = "(body, be)" and now = now and ctx = ctx and timeout = "pc_stream_timeout c" and w = w and i = i,
        OF j e a _ contract_ids(6) [OF i] path_query_plain [of path] m _ hs, folded contract_paths]) simp_all
  note req = req [folded with_path_query]
  have pv: "path_value r ''id'' = i" "url_query_get r ''path'' = path" "header_get (rq_headers r) ''X-Atrium-Filename'' = f"
    by (simp_all add: path_value_def r(2,6) path_values_def header_get_def url_query_get_def r(3) path_query_get sent_headers_def build_request_def)
  have h': "be = None \<Longrightarrow> st1 = st' \<and> status_of v = status" "be \<noteq> None \<Longrightarrow> st1 = st"
    using h t by (auto simp: handle_stub_upload_def authorize_def pv r(1,4,5) stub_takes_def decoded_name_def Let_def http_error_status
        write_header_status writer_simps split: option.splits if_splits prod.splits bool.splits)
  have "(res, w') = (map_sum id rp_taken (client_reads q (with_path (share_path i @ ''/upload'') path) v), record_sent q w)"
    using u by (auto simp: upload_def req map_result_def split: sum.splits)
  moreover have "status = 201 \<or> status = 403 \<or> status = 404"
    using t by (auto simp: stub_takes_def split: option.splits if_splits prod.splits bool.splits)
  ultimately show ?thesis
    using after h' by (auto simp: client_reads_def q mq writer_simps wire_reply_def split: option.splits)
qed

end
