(* ===== verification/Gateway_Stub.thy ===== *)
theory Gateway_Stub
  imports Gateway Stub_Folders
begin

section \<open>The gateway over the stub provider\<close>

text \<open>
  The three parts joined: the router with its gates, the provider client, and the stub that answers
  it.  A request of a signed-in recipient passes the gates and reaches its handler; what the
  recipient then gets is stated over the store of the stub alone.
\<close>

subsection \<open>Past the gates\<close>

text \<open>A request that the gates let through, for the recipient of its session cookie.\<close>

definition admitted :: "deployment \<Rightarrow> oidc_auth \<Rightarrow> tos_manager option \<Rightarrow> gw_request \<Rightarrow> string \<Rightarrow> bool" where
  "admitted dp a mo r email \<longleftrightarrow> (\<exists>d. fst (validate_session_cookie (dp_env dp) a r new_writer) = Inr d \<and> se_email d = email)
     \<and> consented (dp_unicode dp) mo r email"

text \<open>What a handler behind the gates starts with.\<close>

definition behind_gates :: "gw_request \<Rightarrow> string \<Rightarrow> gw_request \<Rightarrow> writer \<Rightarrow> bool" where
  "behind_gates r email r' w \<longleftrightarrow> (\<exists>s. session_from_context r' = Some s \<and> se_email s = email)
     \<and> rq_url r' = rq_url r \<and> rq_method r' = rq_method r \<and> rq_headers r' = rq_headers r
     \<and> rq_content_length r' = rq_content_length r \<and> rq_body r' = rq_body r \<and> rq_body_error r' = rq_body_error r
     \<and> w_committed w = None \<and> w_sent w = [] \<and> w_body w = []"

lemma behind_gates_values: "behind_gates r email r' w \<Longrightarrow> behind_gates r email (r'\<lparr> rq_path_values := vals \<rparr>) w"
  by (simp add: behind_gates_def session_from_context_def)

lemma validate_sent: "w_sent (snd (validate_session_cookie env a r w)) = w_sent w"
  by (auto simp: validate_session_cookie_def writer_simps split: option.splits sum.splits)

lemma admitted_reply:
  assumes "api_request r ss" "\<not> consent_path mo (rq_method r) ss" "admitted dp a mo r email"
  obtains r' w where "behind_gates r email r' w"
    "gateway dp a mo svc px dir shell tls r new_writer = serve_mux (api_routes (dp_room dp) svc px) r' w"
proof -
  obtain spa hashes where ui: "webui_handler (dp_files dp) (dp_dist dp) shell = (spa, hashes)" by fastforce
  let ?w = "secured (content_security_policy hashes) tls new_writer"
  have w: "w_committed ?w = None" "w_sent ?w = []" "w_body ?w = []"
    by (simp_all add: secured_def security_headers_def Let_def writer_simps)
  obtain vals where g: "gateway dp a mo svc px dir shell tls r new_writer
      = require_auth (dp_env dp) a (gate dp a mo svc px) (r\<lparr> rq_path_values := vals \<rparr>) ?w"
    using api_request_routed [OF assms(1), of dp a mo svc px dir spa ?w] assms(2)
    by (auto simp: gateway_def ui security_headers_secured)
  let ?r = "r\<lparr> rq_path_values := vals \<rparr>"
  obtain d where d: "fst (validate_session_cookie (dp_env dp) a r new_writer) = Inr d" "se_email d = email"
    and c: "consented (dp_unicode dp) mo r email" using assms(3) by (auto simp: admitted_def)
  have rc: "rq_cookies ?r = rq_cookies r" by simp
  have "fst (validate_session_cookie (dp_env dp) a ?r ?w) = Inr d" by (rule trans [OF same_cookies(1) [OF rc] d(1)])
  then obtain w1 where w1: "validate_session_cookie (dp_env dp) a ?r ?w = (Inr d, w1)" by (metis eq_fst_iff)
  obtain d' w2 where t: "touch_session (dp_env dp) a w1 d = (d', w2)" by fastforce
  have d': "se_email d' = email" using touch_session_identity [of "dp_env dp" a w1 d] d(2) by (auto simp: t)
  have "w_committed w2 = None" "w_body w2 = []"
    using validate_writer(3,4) [of "dp_env dp" a ?r ?w] touch_session_writer(1,2) [of "dp_env dp" a w1 d] w by (simp_all add: w1 t)
  moreover have "w_sent w2 = []"
    using validate_sent [of "dp_env dp" a ?r ?w] touch_sent [of "dp_env dp" a w1 d] w by (simp add: w1 t)
  moreover have "rq_headers (with_session ?r d') = rq_headers r" "rq_content_length (with_session ?r d') = rq_content_length r"
    "rq_body (with_session ?r d') = rq_body r" "rq_body_error (with_session ?r d') = rq_body_error r"
    "rq_url (with_session ?r d') = rq_url r" "rq_method (with_session ?r d') = rq_method r"
    by (simp_all add: with_session_def)
  moreover have rc2: "rq_cookies (with_session ?r d') = rq_cookies r" by simp
  ultimately have b: "behind_gates r email (with_session ?r d') w2" by (simp add: behind_gates_def d')
  have "consented (dp_unicode dp) mo (with_session ?r d') email"
    using c unfolding consented_def same_cookies(2) [OF rc2] .
  then have "gateway dp a mo svc px dir shell tls r new_writer = serve_mux (api_routes (dp_room dp) svc px) (with_session ?r d') w2"
    unfolding g by (simp add: require_auth_def w1 t gate_def require_tos_def consented_def d' split: option.splits)
  with b that show thesis by blast
qed

text \<open>The endpoints, by the segments of the path after \<open>/api\<close>.\<close>

lemma api_matches:
  "mux_segments p = [''api'', ''shares''] \<Longrightarrow> mux_match (api_routes room svc px) ''GET'' p
     = Some ((Some ''GET'', [SLit ''api'', SLit ''shares''], handle_list_shares svc), [])"
  "mux_segments p = [''api'', ''shares'', i, ''content''] \<Longrightarrow> i \<noteq> ''/'' \<Longrightarrow> mux_match (api_routes room svc px) ''GET'' p
     = Some ((Some ''GET'', [SLit ''api'', SLit ''shares'', SWild ''shareID'', SLit ''content''], handle_download room px), [i])"
  "mux_segments p = [''api'', ''shares'', i, ''folder''] \<Longrightarrow> i \<noteq> ''/'' \<Longrightarrow> mux_match (api_routes room svc px) ''GET'' p
     = Some ((Some ''GET'', [SLit ''api'', SLit ''shares'', SWild ''shareID'', SLit ''folder''], handle_list_folder svc), [i])"
  "mux_segments p = [''api'', ''shares'', i, ''folder'', f, ''content''] \<Longrightarrow> i \<noteq> ''/'' \<Longrightarrow> f \<noteq> ''/'' \<Longrightarrow>
     mux_match (api_routes room svc px) ''GET'' p
     = Some ((Some ''GET'', [SLit ''api'', SLit ''shares'', SWild ''shareID'', SLit ''folder'', SWild ''fileID'', SLit ''content''],
         handle_folder_file_download room px), [i, f])"
  "mux_segments p = [''api'', ''shares'', i, ''upload''] \<Longrightarrow> i \<noteq> ''/'' \<Longrightarrow> mux_match (api_routes room svc px) ''POST'' p
     = Some ((Some ''POST'', [SLit ''api'', SLit ''shares'', SWild ''shareID'', SLit ''upload''], handle_upload px), [i])"
  by (simp_all add: mux_match_def api_table of_method_def lits_def wilds_def ended_def or_else_def)

lemma api_handled:
  assumes "api_request r ss" "\<not> consent_path mo (rq_method r) ss" "admitted dp a mo r email"
    and "mux_match (api_routes (dp_room dp) svc px) (rq_method r) (escaped_path (rq_url r)) = Some ((m, segs, h), vals)" "last segs \<noteq> SSub"
  obtains r' w where "behind_gates r email r' w" "rq_path_values r' = path_values segs vals"
    "gateway dp a mo svc px dir shell tls r new_writer = h r' w"
proof -
  obtain r' w where b: "behind_gates r email r' w"
    and g: "gateway dp a mo svc px dir shell tls r new_writer = serve_mux (api_routes (dp_room dp) svc px) r' w"
    by (rule admitted_reply [OF assms(1-3)])
  have u: "rq_url r' = rq_url r" "rq_method r' = rq_method r" using b by (simp_all add: behind_gates_def)
  have p: "clean_path (escaped_path (rq_url r')) = escaped_path (rq_url r')" "u_path (rq_url r') \<noteq> ''*''"
    using assms(1) unfolding u by (simp_all add: api_request_def)
  have m: "mux_match (api_routes (dp_room dp) svc px) (rq_method r') (escaped_path (rq_url r')) = Some ((m, segs, h), vals)"
    unfolding u by (rule assms(4))
  show thesis
    by (rule that [OF behind_gates_values [OF b] _ trans [OF g serve_mux_routed [OF refl p m assms(5)]]]) simp
qed

subsection \<open>The page of shares\<close>

lemma opt_time_good: "opt_time x = Some j \<Longrightarrow> good_json j \<and> json_depth j = 0"
  using json_time_good by (auto simp: opt_time_def split: option.splits)

lemma opt_int_good: "good_json (opt_int x) \<and> json_depth (opt_int x) = 0"
  by (simp add: opt_int_def split: option.split)

lemma share_view_json_good:
  assumes "good_share s"
  shows "\<exists>j. share_view_json (share_view_of s) = Some j \<and> good_json j \<and> json_depth j = 1"
proof -
  have "opt_time (sh_expires_at s) \<noteq> None" "opt_time (sh_created_at s) \<noteq> None"
    using assms by (auto simp: good_share_def stamp_ok_def opt_time_def json_time_def split: option.splits)
  then obtain e c where t: "opt_time (sh_expires_at s) = Some e" "opt_time (sh_created_at s) = Some c" by blast
  define kvs where "kvs = [(''id'', jstring (sh_id s)), (''name'', jstring (if sh_display_name s = [] then sh_file_name s else sh_display_name s)),
    (''size'', opt_int (sh_size s)), (''isFolder'', JBool (sh_is_folder s)), (''mode'', jint (sh_mode s)),
    (''downloadCount'', jint (sh_download_count s)), (''maxDownloads'', opt_int (sh_max_downloads s)), (''expiresAt'', e), (''createdAt'', c)]"
  have k: "list_all valid_utf8 [''id'', ''name'', ''size'', ''isFolder'', ''mode'', ''downloadCount'', ''maxDownloads'', ''expiresAt'', ''createdAt'']"
    by code_simp
  then have v: "\<forall>(k, v) \<in> set kvs. valid_utf8 k \<and> good_json v \<and> json_depth v = 0"
    using assms opt_time_good [OF t(1)] opt_time_good [OF t(2)] opt_int_good by (simp add: kvs_def good_share_def)
  have "share_view_json (share_view_of s) = Some (jobject kvs)"
    by (simp add: share_view_json_def share_view_of_def t kvs_def)
  moreover have "good_json (jobject kvs)" using v by (fastforce simp: string_literal_json_escape)
  moreover have "json_depth (jobject kvs) = Suc 0" using v by (intro depth_jobject_flat) (auto simp: kvs_def)
  ultimately show ?thesis by auto
qed

lemma share_views:
  assumes "\<forall>s \<in> set ss. good_share s"
  obtains js where "map (share_view_json \<circ> share_view_of) ss = map Some js" "\<forall>j \<in> set js. good_json j \<and> json_depth j = 1"
proof -
  have "\<exists>js. map (share_view_json \<circ> share_view_of) ss = map Some js \<and> (\<forall>j \<in> set js. good_json j \<and> json_depth j = 1)"
    using assms
  proof (induction ss)
    case (Cons s ss)
    then have "\<forall>s \<in> set ss. good_share s" by simp
    from Cons.IH [OF this] obtain js
      where js: "map (share_view_json \<circ> share_view_of) ss = map Some js" "\<forall>j \<in> set js. good_json j \<and> json_depth j = 1" by blast
    obtain j where "share_view_json (share_view_of s) = Some j \<and> good_json j \<and> json_depth j = 1"
      using share_view_json_good Cons.prems by auto
    with js show ?case by (intro exI [of _ "j # js"]) (simp add: comp_def)
  qed simp
  with that show thesis by blast
qed

lemma all_some_map [simp]: "all_some (map Some xs) = Some xs"
  by (auto simp: all_some_def comp_def)

lemma gateway_listing:
  assumes r: "api_request r [''shares'']" "rq_method r = ''GET''" and adm: "admitted dp a mo r email"
    and j: "joined net c snow st" and e: "valid_utf8 email" and g: "\<forall>s \<in> set (list_for st email). good_share s"
    and v: "v = gateway dp a mo (client_service net c now) (gateway_proxy net c now lim) dir shell tls r new_writer"
  shows "status_of v = 200 \<and> stub_after snow (w_sent v) st = st \<and>
    (\<exists>js. parse_json (w_body v) = Some (JArr js) \<and> map Some js = map (share_view_json \<circ> share_view_of) (list_for st email))"
proof -
  let ?svc = "client_service net c now" and ?px = "gateway_proxy net c now lim"
  have n: "\<not> consent_path mo (rq_method r) [''shares'']" by (simp add: consent_path_def)
  have seg: "mux_segments (escaped_path (rq_url r)) = [''api'', ''shares'']" using r(1) by (simp add: api_request_def)
  have m: "mux_match (api_routes (dp_room dp) ?svc ?px) (rq_method r) (escaped_path (rq_url r))
      = Some ((Some ''GET'', [SLit ''api'', SLit ''shares''], handle_list_shares ?svc), [])"
    unfolding r(2) by (rule api_matches(1) [OF seg])
  obtain r' w where b: "behind_gates r email r' w"
    and h: "gateway dp a mo ?svc ?px dir shell tls r new_writer = handle_list_shares ?svc r' w"
    by (rule api_handled [OF r(1) n adm m]) simp
  obtain s where s: "session_from_context r' = Some s" "se_email s = email" using b by (auto simp: behind_gates_def)
  have w: "w_committed w = None" "w_sent w = []" "w_body w = []" using b by (simp_all add: behind_gates_def)
  obtain res w1 where l: "list_shares net c now (Some (meta_from_request r')) email w = (res, w1)" by fastforce
  from client_listing [OF j e g l] w have res: "res = Inr (list_for st email)" and after: "stub_after snow (w_sent w1) st = st" by simp_all
  have w1: "w_committed w1 = None" "w_body w1 = []"
    using only_sends_parts [of w w1] service_only_sends(5) [of w net c now "Some (meta_from_request r')" email] w by (simp_all add: l)
  obtain js where js: "map (share_view_json \<circ> share_view_of) (list_for st email) = map Some js" "\<forall>j \<in> set js. good_json j \<and> json_depth j = 1"
    by (rule share_views [OF g])
  have vv: "v = encode_json (JArr js) (w_set ''Content-Type'' json_content_type (audit_log r' level_info event_list_shares [attr_str ''email'' email] w1))"
    unfolding v h by (simp add: handle_list_shares_def s context_with_meta_def l res js(1) encode_view_def)
  have v2: "status_of v = 200" "w_body v = print_json (JArr js) @ newline" "w_sent v = w_sent w1"
    using w1 by (simp_all add: vv encode_json_def write_body_reply reply_uncommitted writer_simps)
  have nl: "lex newline = Some []" "\<not> number_byte (hd newline)" by code_simp+
  have "json_depth (JArr js) \<le> max_nesting" using depth_jarr [of js] js(2) by (simp add: max_nesting_def)
  then have "parse_json (w_body v) = Some (JArr js)"
    unfolding v2(2) using js(2) nl by (intro parse_print_json_then) simp_all
  with v2 after js(1) show ?thesis by simp
qed

subsection \<open>Downloads\<close>

lemma io_copy_body: "w_body (snd (io_copy room (body, e) w)) = w_body w @ (case room of None \<Rightarrow> body | Some n \<Rightarrow> take n body)"
  by (auto simp: io_copy_def write_body_reply writer_simps Let_def split: option.split)

lemma stream_content_body:
  assumes "w_committed w = None"
  shows "status_of (stream_content room r i email c x w) = 200" "w_sent (stream_content room r i email c x w) = w_sent w"
    "w_body (stream_content room r i email c x w) = w_body w @ (case room of None \<Rightarrow> ct_body c | Some n \<Rightarrow> take n (ct_body c))"
proof -
  obtain sent rest fin where "status_of (stream_content room r i email c x w) = 200" "w_sent (stream_content room r i email c x w) = w_sent w"
    by (rule stream_content_reply [OF assms refl])
  then show "status_of (stream_content room r i email c x w) = 200" "w_sent (stream_content room r i email c x w) = w_sent w" by simp_all
  define w4 where "w4 = (let w1 = audit_log r level_audit event_download_start (share_attrs i email @ x) w;
          w2 = (if ct_type c \<noteq> [] then w_set ''Content-Type'' (ct_type c) w1 else w1);
          w3 = (if ct_disposition c \<noteq> [] then w_set ''Content-Disposition'' (ct_disposition c) w2 else w2)
      in if 0 \<le> ct_length c then w_set ''Content-Length'' (itoa (ct_length c)) w3 else w3)"
  have w4: "w_body w4 = w_body w" by (simp add: w4_def Let_def writer_simps)
  obtain n e w5 where cp: "io_copy room (ct_body c, ct_body_error c) w4 = ((n, e), w5)" by (metis surj_pair)
  have "w_body (stream_content room r i email c x w) = w_body w5"
    using cp by (cases e) (simp_all add: stream_content_def w4_def Let_def writer_simps)
  also have "w_body w5 = w_body w @ (case room of None \<Rightarrow> ct_body c | Some n \<Rightarrow> take n (ct_body c))"
    using io_copy_body [of room "ct_body c" "ct_body_error c" w4] by (simp add: cp w4)
  finally show "w_body (stream_content room r i email c x w) = w_body w @ (case room of None \<Rightarrow> ct_body c | Some n \<Rightarrow> take n (ct_body c))" .
qed

lemma refusals: "refusal_status err_share_gone = 410" "refusal_status err_share_not_found = 404" "refusal_status err_forbidden = 403"
  by (simp_all add: refusal_status_def provider_errors)

lemma not_max_bytes: "\<not> is_max_bytes err_share_not_found" "\<not> is_max_bytes err_forbidden"
  by (simp_all add: provider_errors)

lemma gateway_download:
  assumes r: "api_request r [''shares'', i, ''content'']" "rq_method r = ''GET''" "plain_id i" and adm: "admitted dp a mo r email"
    and ok: "store_ok st" and j: "joined net c snow st" and e: "valid_utf8 email"
    and l: "ledger_download email i (ledger_of st) = (status, l')"
    and v: "v = gateway dp a mo (client_service net c now) (gateway_proxy net c now lim) dir shell tls r new_writer"
  shows "status_of v = status \<and> ledger_of (stub_after snow (w_sent v) st) = l' \<and> store_ok (stub_after snow (w_sent v) st)
    \<and> w_body v = (if status = 200 then let content = ss_content (st_objects st (the (st_shares st i)))
          in case dp_room dp of None \<Rightarrow> content | Some n \<Rightarrow> take n content
        else refusal_text status @ newline)"
proof -
  let ?svc = "client_service net c now" and ?px = "gateway_proxy net c now lim"
  have n: "\<not> consent_path mo (rq_method r) [''shares'', i, ''content'']" by (simp add: consent_path_def)
  have seg: "mux_segments (escaped_path (rq_url r)) = [''api'', ''shares'', i, ''content'']" using r(1) by (simp add: api_request_def)
  have i: "i \<noteq> ''/''" using r(3) by (simp add: plain_id_def)
  let ?segs = "[SLit ''api'', SLit ''shares'', SWild ''shareID'', SLit ''content'']"
  have m: "mux_match (api_routes (dp_room dp) ?svc ?px) (rq_method r) (escaped_path (rq_url r))
      = Some ((Some ''GET'', ?segs, handle_download (dp_room dp) ?px), [i])"
    unfolding r(2) by (rule api_matches(2) [OF seg i])
  obtain r' w where b: "behind_gates r email r' w" and pv: "rq_path_values r' = path_values ?segs [i]"
    and h: "gateway dp a mo ?svc ?px dir shell tls r new_writer = handle_download (dp_room dp) ?px r' w"
    by (rule api_handled [OF r(1) n adm m]) simp
  have id: "path_value r' ''shareID'' = i" by (simp add: path_value_def pv path_values_def header_get_def)
  obtain s where s: "session_from_context r' = Some s" "se_email s = email" using b by (auto simp: behind_gates_def)
  have w: "w_committed w = None" "w_sent w = []" "w_body w = []" using b by (simp_all add: behind_gates_def)
  obtain res w1 where d: "download net c now (Some (meta_from_request r')) i email w = (res, w1)" by fastforce
  from client_download [OF ok j e r(3) d refl l] w have d': "ledger_of (stub_after snow (w_sent w1) st) = l'" "store_ok (stub_after snow (w_sent w1) st)"
    and res: "res = (if status = 200 then Inr (served_content (st_objects st (the (st_shares st i))))
           else if status = 410 then Inl err_share_gone else Inl err_share_not_found)" by simp_all
  have w1: "w_committed w1 = None" "w_body w1 = []"
    using only_sends_parts [of w w1] service_only_sends(1) [of w net c now "Some (meta_from_request r')" i email] w by (simp_all add: d)
  have st: "status \<in> {200, 404, 410}" using ledger_status [of email i "ledger_of st"] by (simp add: l)
  have hv: "v = (case res of Inl e \<Rightarrow> write_provider_error r' ''download'' i email e w1
      | Inr ct \<Rightarrow> stream_content (dp_room dp) r' i email ct [] w1)"
    unfolding v h by (simp add: handle_download_def s context_with_meta_def id d Let_def split: sum.split)
  show ?thesis
  proof (cases "status = 200")
    case True
    then show ?thesis using d' w1(2) by (simp add: hv res stream_content_body [OF w1(1)] served_content_def served_body Let_def split: option.split)
  next
    case False
    with st have "status = 410 \<or> status = 404" by auto
    then show ?thesis using d' w1(2) by (auto simp: hv res write_provider_error_reply [OF w1(1)] refusals)
  qed
qed

lemma gateway_file:
  assumes r: "api_request r [''shares'', i, ''folder'', f, ''content'']" "rq_method r = ''GET''" "plain_id i" "plain_id f"
    and adm: "admitted dp a mo r email" and j: "joined net c snow st" and e: "valid_utf8 email"
    and v: "v = gateway dp a mo (client_service net c now) (gateway_proxy net c now lim) dir shell tls r new_writer"
  shows "stub_after snow (w_sent v) st = st \<and> (case Option.bind (may_use st i email) (\<lambda>a. stub_file (st_objects st a) f) of
      None \<Rightarrow> status_of v = 404 \<and> w_body v = ''Share not found'' @ newline
    | Some n \<Rightarrow> status_of v = 200 \<and> w_body v = (case dp_room dp of None \<Rightarrow> nd_content n | Some k \<Rightarrow> take k (nd_content n)))"
proof -
  let ?svc = "client_service net c now" and ?px = "gateway_proxy net c now lim"
  let ?segs = "[SLit ''api'', SLit ''shares'', SWild ''shareID'', SLit ''folder'', SWild ''fileID'', SLit ''content'']"
  have n: "\<not> consent_path mo (rq_method r) [''shares'', i, ''folder'', f, ''content'']" by (simp add: consent_path_def)
  have seg: "mux_segments (escaped_path (rq_url r)) = [''api'', ''shares'', i, ''folder'', f, ''content'']"
    using r(1) by (simp add: api_request_def)
  have m: "mux_match (api_routes (dp_room dp) ?svc ?px) (rq_method r) (escaped_path (rq_url r))
      = Some ((Some ''GET'', ?segs, handle_folder_file_download (dp_room dp) ?px), [i, f])"
    unfolding r(2) by (rule api_matches(4) [OF seg plain_id_slash [OF r(3)] plain_id_slash [OF r(4)]])
  obtain r' w where b: "behind_gates r email r' w" and pv: "rq_path_values r' = path_values ?segs [i, f]"
    and h: "gateway dp a mo ?svc ?px dir shell tls r new_writer = handle_folder_file_download (dp_room dp) ?px r' w"
    by (rule api_handled [OF r(1) n adm m]) simp
  have id: "path_value r' ''shareID'' = i" "path_value r' ''fileID'' = f"
    by (simp_all add: path_value_def pv path_values_def header_get_def)
  obtain s where s: "session_from_context r' = Some s" "se_email s = email" using b by (auto simp: behind_gates_def)
  have w: "w_committed w = None" "w_sent w = []" "w_body w = []" using b by (simp_all add: behind_gates_def)
  obtain res w1 where d: "download_folder_file net c now (Some (meta_from_request r')) i f email w = (res, w1)" by fastforce
  from client_file [OF j e r(3,4) d] w have after: "stub_after snow (w_sent w1) st = st"
    and res: "res = (case Option.bind (may_use st i email) (\<lambda>a. stub_file (st_objects st a) f) of
        None \<Rightarrow> Inl err_share_not_found | Some n \<Rightarrow> Inr (served (fe_name (nd_entry n)) (nd_content n)))" by simp_all
  have w1: "w_committed w1 = None" "w_body w1 = []"
    using only_sends_parts [of w w1] service_only_sends(2) [of w net c now "Some (meta_from_request r')" i f email] w by (simp_all add: d)
  have hv: "v = (case res of Inl e \<Rightarrow> write_provider_error r' ''download'' i email e w1
      | Inr ct \<Rightarrow> stream_content (dp_room dp) r' i email ct [attr_str ''file_id'' f] w1)"
    unfolding v h by (simp add: handle_folder_file_download_def s context_with_meta_def id d Let_def split: sum.split)
  show ?thesis
    using after w1(2)
    by (simp add: hv res stream_content_body [OF w1(1)] served_body write_provider_error_reply [OF w1(1)] refusals refusal_text_def
        split: option.split)
qed

subsection \<open>The page of a folder\<close>

lemma entry_view_json_good:
  assumes "good_entry e"
  shows "\<exists>j. entry_view_json (to_entry_view e) = Some j \<and> good_json j \<and> json_depth j = 1"
proof -
  obtain u where u: "opt_time (fe_uploaded_at e) = Some u"
    using assms by (auto simp: good_entry_def stamp_ok_def opt_time_def json_time_def split: option.splits)
  define kvs where "kvs = [(''id'', jstring (fe_id e)), (''name'', jstring (fe_name e)), (''size'', opt_int (fe_size e)),
      (''mimeType'', jstring (fe_mime_type e)), (''isFolder'', JBool (fe_is_folder e)), (''isOwn'', JBool (fe_is_own e)), (''uploadedAt'', u)]"
  have "list_all valid_utf8 [''id'', ''name'', ''size'', ''mimeType'', ''isFolder'', ''isOwn'', ''uploadedAt'']" by code_simp
  then have v: "\<forall>(k, v) \<in> set kvs. valid_utf8 k \<and> good_json v \<and> json_depth v = 0"
    using assms opt_time_good [OF u] opt_int_good by (simp add: kvs_def good_entry_def)
  have "entry_view_json (to_entry_view e) = Some (jobject kvs)" by (simp add: entry_view_json_def to_entry_view_def u kvs_def)
  moreover have "good_json (jobject kvs)" using v by (fastforce simp: string_literal_json_escape)
  moreover have "json_depth (jobject kvs) = Suc 0" using v by (intro depth_jobject_flat) (auto simp: kvs_def)
  ultimately show ?thesis by auto
qed

lemma entry_views:
  assumes "\<forall>e \<in> set es. good_entry e"
  obtains js where "map (entry_view_json \<circ> to_entry_view) es = map Some js" "\<forall>j \<in> set js. good_json j \<and> json_depth j = 1"
proof -
  have "\<exists>js. map (entry_view_json \<circ> to_entry_view) es = map Some js \<and> (\<forall>j \<in> set js. good_json j \<and> json_depth j = 1)"
    using assms
  proof (induction es)
    case (Cons e es)
    then have "\<forall>e \<in> set es. good_entry e" by simp
    from Cons.IH [OF this] obtain js
      where js: "map (entry_view_json \<circ> to_entry_view) es = map Some js" "\<forall>j \<in> set js. good_json j \<and> json_depth j = 1" by blast
    obtain j where "entry_view_json (to_entry_view e) = Some j \<and> good_json j \<and> json_depth j = 1"
      using entry_view_json_good Cons.prems by auto
    with js show ?case by (intro exI [of _ "j # js"]) (simp add: comp_def)
  qed simp
  with that show thesis by blast
qed

text \<open>The view of a listing.\<close>

definition view_of_listing :: "folder_listing \<Rightarrow> folder_listing_view" where
  "view_of_listing l = \<lparr> lv_is_file = fl_is_file l, lv_entries = map to_entry_view (fl_entries l), lv_entry = map_option to_entry_view (fl_entry l) \<rparr>"

lemma listing_view_good:
  assumes "good_listing l"
  obtains j where "listing_view_json (view_of_listing l) = Some j" "good_json j" "json_depth j \<le> 3"
proof -
  obtain js where js: "map (entry_view_json \<circ> to_entry_view) (fl_entries l) = map Some js" "\<forall>j \<in> set js. good_json j \<and> json_depth j = 1"
    using assms by (auto simp: good_listing_def intro: entry_views [of "fl_entries l"])
  obtain en where en: "(case map_option to_entry_view (fl_entry l) of None \<Rightarrow> Some [] | Some e \<Rightarrow> map_option (\<lambda>j. [(''entry'', j)]) (entry_view_json e)) = Some en"
    "\<forall>(k, v) \<in> set en. k = ''entry'' \<and> good_json v \<and> json_depth v = 1" "length en \<le> 1"
  proof (cases "fl_entry l")
    case None
    with that [of "[]"] show thesis by simp
  next
    case (Some e)
    then obtain j where "entry_view_json (to_entry_view e) = Some j \<and> good_json j \<and> json_depth j = 1"
      using assms entry_view_json_good by (auto simp: good_listing_def)
    with Some that [of "[(''entry'', j)]"] show thesis by simp
  qed
  let ?j = "jobject ([(''isFile'', JBool (fl_is_file l)), (''entries'', JArr js)] @ en)"
  have k: "valid_utf8 ''isFile''" "valid_utf8 ''entries''" "valid_utf8 ''entry''" by code_simp+
  have "listing_view_json (view_of_listing l) = Some ?j"
    using js(1) en(1) by (simp add: listing_view_json_def view_of_listing_def comp_def)
  moreover have "good_json ?j" using js(2) en(2) k by (auto simp: string_literal_json_escape)
  moreover have "json_depth ?j \<le> 3"
    using js(2) depth_jarr [of js] en(2,3) by (cases en) (auto simp: jobject_def)
  ultimately show thesis by (rule that)
qed

lemma gateway_folder:
  assumes r: "api_request r [''shares'', i, ''folder'']" "rq_method r = ''GET''" "plain_id i" "path = url_query_get r ''path''"
    and adm: "admitted dp a mo r email" and j: "joined net c snow st" and e: "valid_utf8 email"
    and g: "\<And>a l. may_use st i email = Some a \<Longrightarrow> stub_listing (st_objects st a) path = Some l \<Longrightarrow> good_listing l"
    and v: "v = gateway dp a mo (client_service net c now) (gateway_proxy net c now lim) dir shell tls r new_writer"
  shows "stub_after snow (w_sent v) st = st \<and> (case Option.bind (may_use st i email) (\<lambda>a. stub_listing (st_objects st a) path) of
      None \<Rightarrow> status_of v = 404 \<and> w_body v = ''Share not found'' @ newline
    | Some l \<Rightarrow> status_of v = 200 \<and> (\<exists>j. listing_view_json (view_of_listing l) = Some j \<and> parse_json (w_body v) = Some j))"
proof -
  let ?svc = "client_service net c now" and ?px = "gateway_proxy net c now lim"
  let ?segs = "[SLit ''api'', SLit ''shares'', SWild ''shareID'', SLit ''folder'']"
  have n: "\<not> consent_path mo (rq_method r) [''shares'', i, ''folder'']" by (simp add: consent_path_def)
  have seg: "mux_segments (escaped_path (rq_url r)) = [''api'', ''shares'', i, ''folder'']" using r(1) by (simp add: api_request_def)
  have m: "mux_match (api_routes (dp_room dp) ?svc ?px) (rq_method r) (escaped_path (rq_url r))
      = Some ((Some ''GET'', ?segs, handle_list_folder ?svc), [i])"
    unfolding r(2) by (rule api_matches(3) [OF seg plain_id_slash [OF r(3)]])
  obtain r' w where b: "behind_gates r email r' w" and pv: "rq_path_values r' = path_values ?segs [i]"
    and h: "gateway dp a mo ?svc ?px dir shell tls r new_writer = handle_list_folder ?svc r' w"
    by (rule api_handled [OF r(1) n adm m]) simp
  have id: "path_value r' ''shareID'' = i" by (simp add: path_value_def pv path_values_def header_get_def)
  have pt: "url_query_get r' ''path'' = path" using b by (simp add: url_query_get_def behind_gates_def r(4))
  obtain s where s: "session_from_context r' = Some s" "se_email s = email" using b by (auto simp: behind_gates_def)
  have w: "w_committed w = None" "w_sent w = []" "w_body w = []" using b by (simp_all add: behind_gates_def)
  obtain res w1 where l: "list_folder net c now (Some (meta_from_request r')) i email path w = (res, w1)" by fastforce
  from client_folder [OF j e r(3) g l] w have after: "stub_after snow (w_sent w1) st = st"
    and res: "res = (case Option.bind (may_use st i email) (\<lambda>a. stub_listing (st_objects st a) path) of
        None \<Rightarrow> Inl err_share_not_found | Some l \<Rightarrow> Inr l)" by simp_all
  have w1: "w_committed w1 = None" "w_body w1 = []"
    using only_sends_parts [of w w1] service_only_sends(4) [of w net c now "Some (meta_from_request r')" i email path] w by (simp_all add: l)
  show ?thesis
  proof (cases "Option.bind (may_use st i email) (\<lambda>a. stub_listing (st_objects st a) path)")
    case None
    then have "v = http_error ''Share not found'' 404 w1"
      unfolding v h using res by (simp add: handle_list_folder_def s context_with_meta_def id pt l write_share_error_def provider_errors Let_def)
    with after w1 None show ?thesis by (simp add: http_error_reply writer_simps)
  next
    case (Some fl)
    then have "good_listing fl" using g by (auto simp: bind_eq_Some_conv)
    then obtain js where js: "listing_view_json (view_of_listing fl) = Some js" "good_json js" "json_depth js \<le> 3" by (rule listing_view_good)
    have vv: "v = encode_json js (w_set ''Content-Type'' json_content_type (audit_log r' level_info event_list_folder
        [attr_str ''share_id'' i, attr_str ''path'' path, attr_str ''email'' email] w1))"
      unfolding v h using res Some js(1)
      by (simp add: handle_list_folder_def s context_with_meta_def id pt l Let_def encode_view_def view_of_listing_def)
    have v2: "status_of v = 200" "w_body v = print_json js @ newline" "w_sent v = w_sent w1"
      using w1 by (simp_all add: vv encode_json_def write_body_reply reply_uncommitted writer_simps)
    have nl: "lex newline = Some []" "\<not> number_byte (hd newline)" by code_simp+
    have "parse_json (w_body v) = Some js"
      unfolding v2(2) using js(2,3) nl by (intro parse_print_json_then) (simp_all add: max_nesting_def)
    with after Some v2 js(1) show ?thesis by simp
  qed
qed

subsection \<open>Uploads\<close>

lemma gateway_upload:
  assumes r: "api_request r [''shares'', i, ''upload'']" "rq_method r = ''POST''" "plain_id i" "rq_body_error r = None" "0 \<le> lim"
      "f = header_get (rq_headers r) ''X-Atrium-Filename''"
    and adm: "admitted dp a mo r email" and j: "joined net c snow st" and e: "valid_utf8 email"
    and t: "stub_takes st i email f (url_query_get r ''path'') (rq_body r) = (status, st')"
    and v: "v = gateway dp a mo (client_service net c now) (gateway_proxy net c now lim) dir shell tls r new_writer"
  shows "if lim < rq_content_length r \<or> f \<noteq> [] \<and> lim < int (length (rq_body r))
    then status_of v = 413 \<and> stub_after snow (w_sent v) st = st
    else if f = [] then status_of v = 400 \<and> w_sent v = []
    else status_of v = status \<and> stub_after snow (w_sent v) st = st'"
proof -
  let ?svc = "client_service net c now" and ?px = "gateway_proxy net c now lim"
  let ?segs = "[SLit ''api'', SLit ''shares'', SWild ''shareID'', SLit ''upload'']"
  have n: "\<not> consent_path mo (rq_method r) [''shares'', i, ''upload'']" by (simp add: consent_path_def)
  have seg: "mux_segments (escaped_path (rq_url r)) = [''api'', ''shares'', i, ''upload'']" using r(1) by (simp add: api_request_def)
  have m: "mux_match (api_routes (dp_room dp) ?svc ?px) (rq_method r) (escaped_path (rq_url r))
      = Some ((Some ''POST'', ?segs, handle_upload ?px), [i])"
    unfolding r(2) by (rule api_matches(5) [OF seg plain_id_slash [OF r(3)]])
  obtain r' w where b: "behind_gates r email r' w" and pv: "rq_path_values r' = path_values ?segs [i]"
    and h: "gateway dp a mo ?svc ?px dir shell tls r new_writer = handle_upload ?px r' w"
    by (rule api_handled [OF r(1) n adm m]) simp
  have id: "path_value r' ''shareID'' = i" by (simp add: path_value_def pv path_values_def header_get_def)
  have same: "url_query_get r' ''path'' = url_query_get r ''path''" "rq_content_length r' = rq_content_length r" "rq_body r' = rq_body r"
    "rq_body_error r' = None" "rq_headers r' = rq_headers r"
    using b by (simp_all add: url_query_get_def behind_gates_def r(4))
  obtain s where s: "session_from_context r' = Some s" "se_email s = email" using b by (auto simp: behind_gates_def)
  have w: "w_committed w = None" "w_sent w = []" "w_body w = []" using b by (simp_all add: behind_gates_def)
  have nil: "stub_after snow [] st = st" by (simp add: stub_after_def)
  consider "lim < rq_content_length r" | "rq_content_length r \<le> lim" "f = []" | "rq_content_length r \<le> lim" "f \<noteq> []" by linarith
  then show ?thesis
  proof cases
    case 1
    then have "v = too_large ?px w" unfolding v h by (simp add: handle_upload_def s same)
    with 1 w nil show ?thesis by (simp add: too_large_def http_error_reply writer_simps)
  next
    case 2
    then have "v = http_error ''missing X-Atrium-Filename header'' 400 w" unfolding v h by (simp add: handle_upload_def s same r(6) [symmetric])
    with 2 w show ?thesis by (simp add: http_error_reply writer_simps)
  next
    case 3
    let ?named = "share_attrs i email @ [attr_str ''file_name'' f]" and ?path = "url_query_get r ''path''"
    let ?ct = "header_get (rq_headers r) ''Content-Type''"
    define w1 where "w1 = audit_log r' level_audit event_upload_start
        (?named @ (if 0 \<le> rq_content_length r then [(''file_size'', LInt (rq_content_length r))] else [])) w"
    have w1: "w_committed w1 = None" "w_sent w1 = []" by (simp_all add: w1_def w writer_simps)
    obtain body be where b: "max_bytes_reader lim (rq_body r, None) = (body, be)" by fastforce
    obtain res w2 where u: "upload net c now (Some (meta_from_request r')) i email f ?ct ?path (body, be) w1 = (res, w2)" by fastforce
    have hv: "v = (case res of
        Inl e \<Rightarrow> if is_max_bytes e then too_large ?px w2 else write_provider_error r' ''upload'' i email e w2
      | Inr n \<Rightarrow> write_header 201 (audit_log r' level_info event_upload_complete (?named @ [(''file_size'', LInt (int n))]) w2))"
      unfolding v h handle_upload_def Let_def s(1) option.case id same s(2) new_proxy_parts client_streamer_parts context_with_meta_def
        r(6) [symmetric] b w1_def [symmetric]
      using 3 by (simp add: u split: sum.split)
    have w2: "w_committed w2 = None"
      using only_sends_parts(3) [of w1 w2] service_only_sends(3) [of w1 net c now "Some (meta_from_request r')" i email f ?ct ?path "(body, be)"] w1
      by (simp add: u)
    have sent: "w_sent v = w_sent w2"
      using w2 by (simp add: hv too_large_def http_error_reply write_provider_error_reply writer_simps split: sum.split)
    show ?thesis
    proof (cases "lim < int (length (rq_body r))")
      case True
      then have be: "be = Some (MaxBytesError lim)"
        using b max_bytes_reader_parts(3) [of lim "(rq_body r, None)"] r(5) by simp
      obtain st2 status2 where t2: "stub_takes st i email f ?path body = (status2, st2)" by fastforce
      from client_upload [OF j e r(3) u t2] be w1(2) have "stub_after snow (w_sent w2) st = st" "\<exists>e. res = Inl e \<and> is_max_bytes e" by simp_all
      with True 3 w2 sent show ?thesis by (auto simp: hv too_large_def http_error_reply)
    next
      case False
      then have be: "body = rq_body r" "be = None"
        using b max_bytes_reader_parts(4) [of "(rq_body r, None)" lim] r(5) by simp_all
      from client_upload [OF j e r(3) u, of status st'] t be w1(2) have after: "stub_after snow (w_sent w2) st = st'"
        and res: "res = (if status = 201 then Inr (length (rq_body r)) else Inl (map_error_status status))" by simp_all
      have "status \<in> {201, 403, 404}"
        using t by (auto simp: stub_takes_def split: option.splits if_splits prod.splits bool.splits)
      then have "status_of v = status"
        using w2 res by (auto simp: hv write_header_status writer_simps map_error_status_def write_provider_error_reply refusals not_max_bytes)
      with False 3 sent after show ?thesis by simp
    qed
  qed
qed

text \<open>What an accepted upload leaves in the store.\<close>

lemma stored_upload:
  assumes "stub_takes st i email f path body = (201, st')"
  shows "\<exists>a folder folder' e. may_use st i email = Some a \<and> resolve (ss_root (st_objects st a)) path = Some (folder, False)
    \<and> resolve (ss_root (st_objects st' a)) path = Some (folder', False) \<and> nd_children folder' = nd_children folder @ [Node e body []]
    \<and> fe_name e = decoded_name f \<and> fe_size e = Some (int (length body)) \<and> fe_is_own e"
proof -
  obtain a where a: "may_use st i email = Some a" "store_upload a path (decoded_name f) body st = (True, st')"
    using assms by (auto simp: stub_takes_def split: option.splits if_splits prod.splits bool.splits)
  from upload_is_listed [OF a(2)] a(1) show ?thesis by blast
qed

subsection \<open>Properties\<close>


text \<open>C10: A recipient's page is her shares.  For a signed-in recipient, \<open>GET /api/shares\<close> answers 200 with
  a JSON array that holds, in the order of the provider, exactly the views of the shares that the
  provider stores for her email, and changes nothing there; every share of the array is hers.\<close>

theorem recipient_sees_her_shares:
  assumes "api_request r [''shares'']" "rq_method r = ''GET''" "admitted dp a mo r email" "joined net c snow st" "valid_utf8 email"
    and "\<forall>s \<in> set (list_for st email). good_share s"
    and "v = gateway dp a mo (client_service net c now) (gateway_proxy net c now lim) dir shell tls r new_writer"
  shows "status_of v = 200 \<and> stub_after snow (w_sent v) st = st
    \<and> (\<exists>js. parse_json (w_body v) = Some (JArr js) \<and> map Some js = map (share_view_json \<circ> share_view_of) (list_for st email))
    \<and> (\<forall>s \<in> set (list_for st email). \<exists>i a. st_shares st i = Some a \<and> ss_recipient (st_objects st a) = email
          \<and> s = ss_share (st_objects st a))"
  using gateway_listing [OF assms] list_for_own by blast

text \<open>C11: A folder page is the folder.  For a signed-in recipient, the listing of a path in a folder share
  is the JSON view of what the provider holds there: the entry of a file, or the children of a folder
  that the share's mode shows; 404 with a fixed text when the share is not hers or the path leads nowhere;
  and nothing is changed.\<close>

theorem folder_page_is_the_folder:
  assumes "api_request r [''shares'', i, ''folder'']" "rq_method r = ''GET''" "plain_id i" "path = url_query_get r ''path''"
    and "admitted dp a mo r email" "joined net c snow st" "valid_utf8 email"
    and "\<forall>l. Option.bind (may_use st i email) (\<lambda>a. stub_listing (st_objects st a) path) = Some l \<longrightarrow> good_listing l"
    and "v = gateway dp a mo (client_service net c now) (gateway_proxy net c now lim) dir shell tls r new_writer"
  shows "stub_after snow (w_sent v) st = st \<and> (case Option.bind (may_use st i email) (\<lambda>a. stub_listing (st_objects st a) path) of
      None \<Rightarrow> status_of v = 404 \<and> w_body v = ''Share not found'' @ newline
    | Some l \<Rightarrow> status_of v = 200 \<and> (\<exists>j. listing_view_json (view_of_listing l) = Some j \<and> parse_json (w_body v) = Some j))"
  by (rule gateway_folder [OF assms(1-7) _ assms(9)]) (use assms(8) in simp)


subsection \<open>Examples\<close>

text \<open>The dataset with the limited file and a read-own folder given to the signed-in recipient.\<close>

definition ada_store :: stub_store where
  "ada_store = (let st = new_store 0; give = (\<lambda>o1. o1\<lparr> ss_recipient := ''ada@example.org'' \<rparr>)
     in st\<lparr> st_objects := (st_objects st)(1 := give (st_objects st 1), 4 := give (st_objects st 4)) \<rparr>)"

definition stub_gateway :: "stub_store \<Rightarrow> handler" where
  "stub_gateway st = gateway sample_deployment sample_auth None (client_service (joined_net st) joined_client 0)
     (gateway_proxy (joined_net st) joined_client 0 100) [] sample_shell True"

lemma ada_admitted: "admitted sample_deployment sample_auth None (signed_in r) ''ada@example.org''"
  using signed_in_valid [of r new_writer]
  by (auto simp: admitted_def consented_def sample_deployment_def sample_session_def new_session_def)

lemma ada_parts:
  "valid_utf8 ''ada@example.org''" "list_for ada_store ''ada@example.org'' = [ss_share (st_objects (new_store 0) 1), ss_share (st_objects (new_store 0) 4)]"
  "store_ok ada_store" "ledger_of ada_store ''file-limited'' = Some (''ada@example.org'', Some 1)"
  "st_shares ada_store ''file-limited'' = Some 1" "ss_content (st_objects ada_store 1) = ''nur einmal'' @ newline"
  "may_use ada_store ''folder-readown'' ''ada@example.org'' = Some 4"
proof -
  show "valid_utf8 ''ada@example.org''" by code_simp
  have "store_ok (new_store 0)" by (simp add: new_store_def seed_ok)
  then show "store_ok ada_store" by (rule store_ok_same) (simp_all add: ada_store_def Let_def)
  show "list_for ada_store ''ada@example.org'' = [ss_share (st_objects (new_store 0) 1), ss_share (st_objects (new_store 0) 4)]"
    "ledger_of ada_store ''file-limited'' = Some (''ada@example.org'', Some 1)"
    "st_shares ada_store ''file-limited'' = Some 1" "ss_content (st_objects ada_store 1) = ''nur einmal'' @ newline"
    "may_use ada_store ''folder-readown'' ''ada@example.org'' = Some 4" by code_simp+
qed

lemma ada_requests:
  "api_request (signed_in (gw_get ''/api/shares'')) [''shares'']"
  "api_request (signed_in (gw_get ''/api/shares/file-limited/content'')) [''shares'', ''file-limited'', ''content'']"
  "api_request (signed_in (gw_get ''/api/shares/folder-readown/folder'')) [''shares'', ''folder-readown'', ''folder'']"
  "api_request (signed_in ((gw_get ''/api/shares/folder-readown/upload'')\<lparr> rq_method := m, rq_headers := hs, rq_body := b \<rparr>))
     [''shares'', ''folder-readown'', ''upload'']"
  "plain_id ''file-limited''" "plain_id ''folder-readown''"
proof -
  have "escaped_path (empty_url\<lparr> u_path := ''/api/shares'' \<rparr>) = ''/api/shares''" "clean_path ''/api/shares'' = ''/api/shares''"
    "mux_segments ''/api/shares'' = [''api'', ''shares'']"
    "escaped_path (empty_url\<lparr> u_path := ''/api/shares/file-limited/content'' \<rparr>) = ''/api/shares/file-limited/content''"
    "clean_path ''/api/shares/file-limited/content'' = ''/api/shares/file-limited/content''"
    "mux_segments ''/api/shares/file-limited/content'' = [''api'', ''shares'', ''file-limited'', ''content'']"
    "escaped_path (empty_url\<lparr> u_path := ''/api/shares/folder-readown/folder'' \<rparr>) = ''/api/shares/folder-readown/folder''"
    "clean_path ''/api/shares/folder-readown/folder'' = ''/api/shares/folder-readown/folder''"
    "mux_segments ''/api/shares/folder-readown/folder'' = [''api'', ''shares'', ''folder-readown'', ''folder'']"
    "escaped_path (empty_url\<lparr> u_path := ''/api/shares/folder-readown/upload'' \<rparr>) = ''/api/shares/folder-readown/upload''"
    "clean_path ''/api/shares/folder-readown/upload'' = ''/api/shares/folder-readown/upload''"
    "mux_segments ''/api/shares/folder-readown/upload'' = [''api'', ''shares'', ''folder-readown'', ''upload'']"
    by code_simp+
  then show "api_request (signed_in (gw_get ''/api/shares'')) [''shares'']"
    "api_request (signed_in (gw_get ''/api/shares/file-limited/content'')) [''shares'', ''file-limited'', ''content'']"
    "api_request (signed_in (gw_get ''/api/shares/folder-readown/folder'')) [''shares'', ''folder-readown'', ''folder'']"
    "api_request (signed_in ((gw_get ''/api/shares/folder-readown/upload'')\<lparr> rq_method := m, rq_headers := hs, rq_body := b \<rparr>))
       [''shares'', ''folder-readown'', ''upload'']"
    by (simp_all add: signed_in_def api_request_def)
  show "plain_id ''file-limited''" "plain_id ''folder-readown''" by code_simp+
qed

lemma recipient_sees_her_shares_witness:
  "\<exists>js. parse_json (w_body (stub_gateway ada_store (signed_in (gw_get ''/api/shares'')) new_writer)) = Some (JArr js) \<and> length js = 2"
proof -
  have "st_shares (new_store 0) ''file-limited'' = Some 1" "st_shares (new_store 0) ''folder-readown'' = Some 4" by code_simp+
  then have g: "\<forall>s \<in> set (list_for ada_store ''ada@example.org''). good_share s"
    using new_store_objects [OF epoch_times] by (simp add: ada_parts(2))
  have "rq_method (signed_in (gw_get ''/api/shares'')) = ''GET''" by (simp add: signed_in_def)
  from recipient_sees_her_shares [OF ada_requests(1) this ada_admitted sample_joined ada_parts(1) g refl,
      of 0 100 "[]" sample_shell True, folded stub_gateway_def]
  obtain js where js: "parse_json (w_body (stub_gateway ada_store (signed_in (gw_get ''/api/shares'')) new_writer)) = Some (JArr js)"
    "map Some js = map (share_view_json \<circ> share_view_of) (list_for ada_store ''ada@example.org'')" by blast
  from arg_cong [OF js(2), of length] have "length js = 2" by (simp add: ada_parts(2))
  with js(1) show ?thesis by blast
qed


lemma ada_upload_taken:
  "fst (stub_takes ada_store ''folder-readown'' ''ada@example.org'' ''a%20b.txt'' [] ''abc'') = 201"
  by code_simp

definition ada_upload :: gw_request where
  "ada_upload = signed_in ((gw_get ''/api/shares/folder-readown/upload'')
     \<lparr> rq_method := ''POST'', rq_headers := [''X-Atrium-Filename'' \<mapsto> ''a%20b.txt''], rq_body := ''abc'' \<rparr>)"

lemma ada_upload_parts:
  "rq_method ada_upload = ''POST''" "rq_body_error ada_upload = None" "header_get (rq_headers ada_upload) ''X-Atrium-Filename'' = ''a%20b.txt''"
  "rq_body ada_upload = ''abc''" "rq_content_length ada_upload = 0" "url_query_get ada_upload ''path'' = []"
  "api_request ada_upload [''shares'', ''folder-readown'', ''upload'']" "admitted sample_deployment sample_auth None ada_upload ''ada@example.org''"
proof -
  have "query_get [] ''path'' = []" by code_simp
  then show "url_query_get ada_upload ''path'' = []"
    by (simp add: ada_upload_def signed_in_def gw_get_def get_request_def request.defs gw_request.defs url_query_get_def empty_url_def)
  show "rq_method ada_upload = ''POST''" "rq_body_error ada_upload = None"
    "header_get (rq_headers ada_upload) ''X-Atrium-Filename'' = ''a%20b.txt''" "rq_body ada_upload = ''abc''" "rq_content_length ada_upload = 0"
    by (simp_all add: ada_upload_def signed_in_def gw_get_def get_request_def request.defs gw_request.defs header_get_def)
  show "api_request ada_upload [''shares'', ''folder-readown'', ''upload'']" unfolding ada_upload_def by (rule ada_requests)
  show "admitted sample_deployment sample_auth None ada_upload ''ada@example.org''" unfolding ada_upload_def by (rule ada_admitted)
qed


lemma folder_page_is_the_folder_witness:
  "\<exists>v js. v = stub_gateway ada_store (signed_in (gw_get ''/api/shares/folder-readown/folder'')) new_writer
     \<and> status_of v = 200 \<and> parse_json (w_body v) = Some (jobject [(''isFile'', JBool False), (''entries'', JArr js)])"
proof -
  let ?r = "signed_in (gw_get ''/api/shares/folder-readown/folder'')"
  have m: "rq_method ?r = ''GET''" by (simp add: signed_in_def)
  have l: "stub_listing (st_objects ada_store 4) [] = Some \<lparr> fl_is_file = False, fl_entries = [], fl_entry = None \<rparr>" by code_simp
  have q: "query_get [] ''path'' = []" by code_simp
  have p: "[] = url_query_get ?r ''path''"
    by (simp add: signed_in_def gw_get_def get_request_def request.defs gw_request.defs url_query_get_def empty_url_def q)
  have g: "\<forall>l. Option.bind (may_use ada_store ''folder-readown'' ''ada@example.org'') (\<lambda>a. stub_listing (st_objects ada_store a) []) = Some l
      \<longrightarrow> good_listing l"
    by (simp add: ada_parts(7) l good_listing_def)
  from folder_page_is_the_folder [OF ada_requests(3) m ada_requests(6) p ada_admitted sample_joined ada_parts(1) g refl, of 0 100 "[]" sample_shell True]
  have "status_of (stub_gateway ada_store ?r new_writer) = 200"
    "\<exists>j. listing_view_json (view_of_listing \<lparr> fl_is_file = False, fl_entries = [], fl_entry = None \<rparr>) = Some j
       \<and> parse_json (w_body (stub_gateway ada_store ?r new_writer)) = Some j"
    by (simp_all add: ada_parts(7) l stub_gateway_def)
  moreover have "listing_view_json (view_of_listing \<lparr> fl_is_file = False, fl_entries = [], fl_entry = None \<rparr>)
      = Some (jobject [(''isFile'', JBool False), (''entries'', JArr [])])"
    by (simp add: listing_view_json_def view_of_listing_def all_some_def)
  ultimately show ?thesis by auto
qed

end
