(* ===== verification/Spec2Isabelle.thy ===== *)
theory Spec2Isabelle
  imports Session_Lifetime Lifecycle E2e_Harness Auth_Double Mock_Sign_In Gateway_Stub
begin

section \<open>Atrium Core: a verified model of the gateway\<close>

text \<open>
  Atrium Core is the gateway between external recipients and a storage backend.  A recipient signs in at an
  OpenID Connect provider, may have to accept terms, and then lists, downloads and uploads through the
  gateway, which asks the storage provider with a signed token for every call.  This development is a
  shallow embedding of the Go code under \<open>src/\<close>: every function is a HOL function of the same name (in
  lower case with underscores), every struct a record, every error a value of \<open>go_error\<close>, every early return
  a branch.  A handler maps a request and the response writer to the writer; the writer collects the headers,
  the cookies, the committed status, the body, the log records and the requests sent to the provider.

  \<^bold>\<open>The standard library.\<close>  What the code uses of it is executable: \<open>Go_Strings\<close> (\<open>strings\<close>, \<open>strconv.Itoa\<close>),
  \<open>Go_Encoding\<close> (base64, hex), \<open>Go_Crypto\<close> (SHA-256, HMAC), \<open>Go_Time\<close> and \<open>Go_Rfc3339\<close> (\<open>time\<close>),
  \<open>Go_Json_Text\<close>, \<open>Go_Json\<close> and \<open>Go_Json_Decode\<close> (\<open>encoding/json\<close>), \<open>Go_Url\<close> (\<open>net/url\<close>, \<open>path\<close>), \<open>Go_Http\<close> and
  \<open>Go_Mux\<close> (\<open>net/http\<close>), \<open>Go_Files\<close> (\<open>ServeContent\<close>), \<open>Go_Parse\<close> (\<open>ParseInt\<close>, \<open>ParseBool\<close>, \<open>ParseDuration\<close>,
  \<open>slog.Level\<close>).  Each theory proves what the components rely on: decoding inverts encoding, printing is
  parsed back, cleaned paths stay inside, a matched route is a registered one.  \<open>Prelude\<close> holds the types, the
  fact collections and generic lemmas.

  \<^bold>\<open>The components\<close>, with the file under \<open>src/\<close> each models:

  \<^item> \<open>Signed_Cookie\<close>: \<open>Seal\<close> and \<open>Open\<close> of \<open>internal/signedcookie\<close>.  The locales \<open>envelope\<close> and \<open>sealed_codec\<close>
    state what a sealed payload promises; sessions and acceptances are two instances.
  \<^item> \<open>Audit_Trail\<close>: events, request attributes, the level floor and the pseudonyms of \<open>internal/audit\<close>.
  \<^item> \<open>Session\<close>, \<open>Middleware\<close>, \<open>Next_Path\<close>, \<open>Oidc\<close>: \<open>internal/auth\<close>.  The session token and its validation,
    \<open>RequireAuth\<close> with the throttled refresh, the return path, and the login and callback handlers.
    \<open>Session_Lifetime\<close> follows a browser over any number of requests by rule induction.
  \<^item> \<open>Terms\<close>: the manager, the gate and the two handlers of \<open>internal/tos\<close>.
  \<^item> \<open>Provider\<close>: the client, its tokens and operations, and the keys of \<open>internal/provider\<close>.
  \<^item> \<open>Proxy\<close>: the transfers of \<open>internal/proxy\<close>.  Their backend is the locale \<open>streaming\<close>.
  \<^item> \<open>Webui\<close>, \<open>Branding\<close>: \<open>internal/webui\<close> and \<open>internal/branding\<close>.
  \<^item> \<open>Router\<close>, \<open>Gateway\<close>: \<open>internal/api\<close>.  \<open>Router\<close> has the handlers, the security headers and the routes;
    \<open>Gateway\<close> proves the properties of the whole, through the locale \<open>reply_invariant\<close> of \<open>Reply_Invariant\<close>:
    an invariant of the writer that every handler keeps.
  \<^item> \<open>Config\<close>, \<open>Startup\<close>, \<open>Lifecycle\<close>: \<open>internal/config\<close> and \<open>cmd/atrium\<close>, from the environment to the service
    that runs, and from there to the exit: the serving goroutine, the signal and the graceful shutdown are a step
    relation on the process.
  \<^item> \<open>Mux_Store\<close>, \<open>Stub_Store\<close>, \<open>Stub_Provider\<close>, \<open>Mock_Oidc\<close>, \<open>E2e_Harness\<close>: the stand-ins of \<open>cmd/atrium-e2e\<close>, whose
    handlers have a store.  \<open>Auth_Double\<close> is \<open>internal/authtest\<close>.  \<open>Mock_Sign_In\<close> joins the mock provider and the gateway's login
    and callback by a browser that follows the redirects.
  \<^item> \<open>Stub_Wire\<close>, \<open>Stub_Client\<close>, \<open>Stub_Folders\<close> join the provider client and the stub over the wire (token, escaped
    paths, routing, JSON); \<open>Gateway_Stub\<close> puts the whole gateway in front of them, from the recipient's request with
    its cookies to the shares of the stub's store and back.

  \<^bold>\<open>What is shown.\<close>  Access: \<open>/api/\<close> is closed by default, and every provider call is the readiness probe or
  is for the email of a validated session whose consent holds.  Sessions: exactly when a request is admitted,
  no session outlives its absolute limit or an idle gap, and none ends early while its owner is active.
  Sign-in: a session cookie is set only after every check, login and callback fit together, a refused
  callback says nothing, no sign-in leaves the site; over the mock provider a browser becomes exactly the
  verified identity it typed, and a code that was presented once signs nobody in.  Consent: acceptance is bound to the recipient and
  the document.  Transfers: content is forwarded as it is, the limit holds whatever is declared, a
  backend's refusal stays opaque, the log is truthful.  Replies: every one is hardened, the policy admits
  the injected script and nothing breaks out of it.  Start-up: \<open>Load\<close> returns only valid
  configurations, the process serves exactly when it can work, and runs what was configured.  The contract:
  an admitted recipient's download through the gateway refines an abstract ledger of downloads, her page of shares and of
  folders shows what the store holds for her, her upload is stored as it was sent, listings survive the wire,
  and the download limit holds under every interleaving of the stub's atomic steps.  Shut-down: under every
  interleaving of listener, signal, requests and clock, the exit code tells why the process ended.

  \<^bold>\<open>Parameters and hypotheses.\<close>  Code outside the repository is an argument: the identity provider
  (discovery, code exchange, token verification), the JWT signer, the parsers of keys, Unicode
  normalisation and lower-casing, the file trees, the mounted directory, \<open>mime.ParseMediaType\<close>, random bytes, and
  the network, a function from a request to a reply or an error.  Every reading of the clock is explicit
  (\<open>en_clock env 0\<close>, \<open>en_clock env 1\<close>, in the order of the calls), and so is the zone.  A property that needs more of an
  argument says so in its statement (for instance \<open>compact_jws\<close>: a signed token carries its claims as JSON
  between two dots; \<open>honest_client\<close>: the OAuth client hands on what the token endpoint answered) and has a witness
  with a concrete one.

  \<^bold>\<open>Bounds and termination.\<close>  No definition uses fuel.  Recursion is structural or on a measure proved to
  decrease (the length of the rest, the number of blocks), and the one loop of the code without a bound of its own, the
  search for inline scripts, is also given as a \<open>while\<close> loop and shown to return on every page.  The JSON
  reader keeps the nesting limit of 10000.  Instants are unbounded integers of nanoseconds and durations are
  kept in the 64-bit range where the code parses them; SHA-256 is on 32-bit words; numbers in JSON and in the environment
  are checked against 64 bits.

  \<^bold>\<open>Not modelled.\<close>  What the runtime does below the code: sockets, connections, key generation and random bytes, whose results are
  arguments; cancelling a request's context, and the deadline of the trust probe, whose expiry is one of the
  transport's errors; content sniffing, bodies of \<open>HEAD\<close> replies, framing, and the \<open>Connection: close\<close> of
  \<open>MaxBytesReader\<close>; the tables of printable Unicode behind the verb \<open>%q\<close>.  Concurrency is modelled where
  state is shared: the stub's atomic sections and the goroutines of the serving process are steps of a relation, and
  the codes of the mock provider change in one step per request; the gateway itself keeps no state between requests.
\<close>

end
